(* ===== verification/Prelude.thy ===== *)
theory Prelude
  imports Main "HOL-Library.Word" "HOL-Library.Multiset"
begin

text \<open>
  Shared vocabulary of the development: bytes, the slices and overwrites by which the memory
  model reads and writes a block, the fault/result type of the memory-level models with its
  sequencing operator, and the generic list lemmas every component uses.

  The simp collection \<open>mem\<close> holds the read-after-write equations of blocks.
\<close>

named_theorems mem
named_theorems res

section \<open>Bytes, slices, overwrites\<close>

type_synonym byte = "8 word"

definition slice :: "nat \<Rightarrow> nat \<Rightarrow> 'a list \<Rightarrow> 'a list" where
  "slice off n xs = take n (drop off xs)"

definition overwrite :: "nat \<Rightarrow> 'a list \<Rightarrow> 'a list \<Rightarrow> 'a list" where
  "overwrite off ys xs = take off xs @ ys @ drop (off + length ys) xs"

lemma length_slice [simp]: "off + n \<le> length xs \<Longrightarrow> length (slice off n xs) = n"
  by (simp add: slice_def)

lemma length_overwrite [simp]: "off + length ys \<le> length xs \<Longrightarrow> length (overwrite off ys xs) = length xs"
  by (simp add: overwrite_def)

lemma nth_slice [simp]: "i < n \<Longrightarrow> off + n \<le> length xs \<Longrightarrow> slice off n xs ! i = xs ! (off + i)"
  by (simp add: slice_def)

lemma nth_overwrite:
  assumes "off + length ys \<le> length xs" and "i < length xs"
  shows "overwrite off ys xs ! i =
    (if off \<le> i \<and> i < off + length ys then ys ! (i - off) else xs ! i)"
  using assms by (auto simp: overwrite_def nth_append)

lemma slice_overwrite_same [mem]:
  assumes "off + length ys \<le> length xs" and "n = length ys"
  shows "slice off n (overwrite off ys xs) = ys"
  using assms by (intro nth_equalityI) (auto simp: nth_overwrite)

lemma slice_overwrite_disjoint [mem]:
  assumes "off + length ys \<le> length xs" and "off' + n \<le> length xs"
    and "off + length ys \<le> off' \<or> off' + n \<le> off"
  shows "slice off' n (overwrite off ys xs) = slice off' n xs"
  using assms by (intro nth_equalityI) (auto simp: nth_overwrite)

lemma overwrite_slice_id: "off + n \<le> length xs \<Longrightarrow> overwrite off (slice off n xs) xs = xs"
  by (intro nth_equalityI) (auto simp: nth_overwrite)

lemma overwrite_append_left:
  "off + length ys \<le> length xs \<Longrightarrow> overwrite off ys (xs @ zs) = overwrite off ys xs @ zs"
  by (simp add: overwrite_def)

section \<open>Results of code that can fault\<close>

text \<open>
  What the memory-level models can end with besides a value: a failed \<open>assert\<close>, an access
  outside the block, a signed \<open>int\<close> computation that leaves its range, a division by zero, and a loop that used up
  the iterations it was given (the models that use it prove when this cannot happen).
\<close>

datatype fault = AssertFailed | OutOfBounds | IntOverflow | DivByZero | Diverged

type_synonym 'a result = "fault + 'a"

definition rbind :: "'a result \<Rightarrow> ('a \<Rightarrow> 'b result) \<Rightarrow> 'b result" where
  "rbind m f = (case m of Inl e \<Rightarrow> Inl e | Inr a \<Rightarrow> f a)"

definition rassert :: "bool \<Rightarrow> 'b result \<Rightarrow> 'b result" where
  "rassert p m = (if p then m else Inl AssertFailed)"

lemma rbind_Inr [simp, res]: "rbind (Inr a) f = f a"
  by (simp add: rbind_def)

lemma rbind_Inl [simp, res]: "rbind (Inl e) f = Inl e"
  by (simp add: rbind_def)

lemma rbind_eq_Inr: "rbind m f = Inr b \<longleftrightarrow> (\<exists>a. m = Inr a \<and> f a = Inr b)"
  by (auto simp: rbind_def split: sum.splits)

lemma rbind_cong [fundef_cong]:
  "m = m' \<Longrightarrow> (\<And>a. m' = Inr a \<Longrightarrow> f a = f' a) \<Longrightarrow> rbind m f = rbind m' f'"
  by (auto simp: rbind_def split: sum.splits)

lemma rbind_weak_cong: "m = m' \<Longrightarrow> rbind m f = rbind m' f"
  by simp

lemma rassert_True [simp, res]: "p \<Longrightarrow> rassert p m = m"
  by (simp add: rassert_def)

lemma rassert_eq_Inr: "rassert p m = Inr b \<longleftrightarrow> p \<and> m = Inr b"
  by (simp add: rassert_def)

section \<open>Generic list lemmas\<close>

lemma foldl_map_upt_nth: "n \<le> length xs \<Longrightarrow> map ((!) xs) [0..<n] = take n xs"
  by (intro nth_equalityI) auto

definition swap_at :: "nat \<Rightarrow> nat \<Rightarrow> 'a list \<Rightarrow> 'a list" where
  "swap_at i j xs = xs[i := xs ! j, j := xs ! i]"

lemma length_swap_at [simp]: "length (swap_at i j xs) = length xs"
  by (simp add: swap_at_def)

lemma mset_swap_at [simp]: "i < length xs \<Longrightarrow> j < length xs \<Longrightarrow> mset (swap_at i j xs) = mset xs"
  by (simp add: swap_at_def mset_swap)

lemma nth_swap_at:
  "i < length xs \<Longrightarrow> j < length xs \<Longrightarrow> k < length xs \<Longrightarrow>
   swap_at i j xs ! k = (if k = i then xs ! j else if k = j then xs ! i else xs ! k)"
  by (auto simp: swap_at_def nth_list_update)

text \<open>The position of the first element that satisfies \<open>P\<close>: what a linear search finds.\<close>

fun first_match :: "('a \<Rightarrow> bool) \<Rightarrow> 'a list \<Rightarrow> nat option" where
  "first_match P [] = None"
| "first_match P (x # xs) = (if P x then Some 0 else map_option Suc (first_match P xs))"

lemma first_match_None: "first_match P xs = None \<longleftrightarrow> (\<forall>x \<in> set xs. \<not> P x)"
  by (induction xs) auto

lemma first_match_Some:
  "first_match P xs = Some i \<longleftrightarrow> i < length xs \<and> P (xs ! i) \<and> (\<forall>j < i. \<not> P (xs ! j))"
proof (induction xs arbitrary: i)
  case Nil
  then show ?case by simp
next
  case (Cons x xs)
  then show ?case by (cases i) (auto simp: All_less_Suc2)
qed

lemma first_match_drop:
  "i < length xs \<Longrightarrow> first_match P (drop i xs) =
   (if P (xs ! i) then Some 0 else map_option Suc (first_match P (drop (Suc i) xs)))"
  by (simp flip: Cons_nth_drop_Suc)

text \<open>A step relation with an invariant: what several components promise of their concurrent runs.\<close>

locale invariant_system =
  fixes first :: "'s \<Rightarrow> bool" and steps :: "'s \<Rightarrow> 's \<Rightarrow> bool" and holds :: "'s \<Rightarrow> bool"
  assumes first_holds: "first s \<Longrightarrow> holds s"
    and steps_hold: "steps s t \<Longrightarrow> holds s \<Longrightarrow> holds t"
begin

lemma reachable_holds:
  assumes "steps\<^sup>*\<^sup>* s t" "first s"
  shows "holds t"
  using assms by (induction rule: rtranclp_induct) (auto intro: first_holds steps_hold)

lemma all_reachable: "first s \<Longrightarrow> (\<And>t. holds t \<Longrightarrow> Q t) \<Longrightarrow> \<forall>t. steps\<^sup>*\<^sup>* s t \<longrightarrow> Q t"
  using reachable_holds by blast

end

end
