(* ===== verification/CMem.thy ===== *)
theory CMem
  imports Prelude
begin

text \<open>
  The C library's part of the memory-level models: blocks of bytes, \<open>memcpy\<close> in and out of a
  block with its bounds made explicit, \<open>malloc\<close> and \<open>realloc\<close>, checked \<open>int\<close> arithmetic, and
  the view of a block as an array of elements of \<open>elem_size\<close> bytes (\<open>elems\<close>), on which the
  refinement lemmas of the components rest.
\<close>

section \<open>Checked int arithmetic\<close>

definition INT_MAX :: int where "INT_MAX = 2147483647"
definition INT_MIN :: int where "INT_MIN = - 2147483648"

definition in_int :: "int \<Rightarrow> bool" where
  "in_int x \<longleftrightarrow> INT_MIN \<le> x \<and> x \<le> INT_MAX"

text \<open>A signed computation whose mathematical value is \<open>x\<close>: undefined outside the range.\<close>

definition cint :: "int \<Rightarrow> int result" where
  "cint x = (if in_int x then Inr x else Inl IntOverflow)"

lemma cint_ok [simp, res]: "in_int x \<Longrightarrow> cint x = Inr x"
  by (simp add: cint_def)

lemma cint_eq_Inr: "cint x = Inr y \<longleftrightarrow> in_int x \<and> y = x"
  by (auto simp: cint_def)

section \<open>Blocks\<close>

text \<open>Offsets are \<open>int\<close>: the code can compute a negative one.\<close>

definition rd :: "int \<Rightarrow> nat \<Rightarrow> 'a list \<Rightarrow> 'a list result" where
  "rd off n blk =
     (if 0 \<le> off \<and> nat off + n \<le> length blk then Inr (slice (nat off) n blk) else Inl OutOfBounds)"

definition wr :: "int \<Rightarrow> 'a list \<Rightarrow> 'a list \<Rightarrow> 'a list result" where
  "wr off bs blk =
     (if 0 \<le> off \<and> nat off + length bs \<le> length blk then Inr (overwrite (nat off) bs blk)
      else Inl OutOfBounds)"

text \<open>
  The allocator: which sizes it grants and what a fresh block happens to contain is not
  determined by the code; \<open>realloc\<close> keeps the old bytes that fit.
\<close>

record allocator =
  grants :: "nat \<Rightarrow> bool"
  junk :: "nat \<Rightarrow> byte"

definition malloc :: "allocator \<Rightarrow> nat \<Rightarrow> byte list option" where
  "malloc H n = (if grants H n then Some (map (junk H) [0..<n]) else None)"

definition realloc :: "allocator \<Rightarrow> byte list \<Rightarrow> nat \<Rightarrow> byte list option" where
  "realloc H blk n =
     (if grants H n then Some (take n blk @ map (junk H) [length blk..<n]) else None)"

lemma length_malloc: "malloc H n = Some b \<Longrightarrow> length b = n"
  by (auto simp: malloc_def split: if_splits)

lemma length_realloc: "realloc H blk n = Some b \<Longrightarrow> length b = n"
  by (auto simp: realloc_def split: if_splits)

lemma realloc_keeps: "realloc H blk n = Some b \<Longrightarrow> length blk \<le> n \<Longrightarrow> take (length blk) b = blk"
  by (auto simp: realloc_def split: if_splits)

section \<open>A block as an array of elements\<close>

text \<open>Element \<open>i\<close> is the \<open>es\<close> bytes at offset \<open>i * es\<close>; \<open>elems es n blk\<close> lists the first \<open>n\<close>.\<close>

definition elem :: "nat \<Rightarrow> byte list \<Rightarrow> nat \<Rightarrow> byte list" where
  "elem es blk i = slice (i * es) es blk"

definition elems :: "nat \<Rightarrow> nat \<Rightarrow> byte list \<Rightarrow> byte list list" where
  "elems es n blk = map (elem es blk) [0..<n]"

lemma length_elems [simp]: "length (elems es n blk) = n"
  by (simp add: elems_def)

lemma nth_elems [simp]: "i < n \<Longrightarrow> elems es n blk ! i = elem es blk i"
  by (simp add: elems_def)

lemma elems_Suc: "elems es (Suc n) blk = elems es n blk @ [elem es blk n]"
  by (simp add: elems_def)

lemma take_elems: "m \<le> n \<Longrightarrow> take m (elems es n blk) = elems es m blk"
  by (simp add: elems_def take_map min_def)

lemma elem_fits: "i < n \<Longrightarrow> n * es \<le> length blk \<Longrightarrow> i * es + es \<le> length blk"
  for i n es :: nat
  by (metis Suc_leI add.commute mult_Suc mult_le_mono1 order_trans)

lemma length_elem [simp]: "i * es + es \<le> length blk \<Longrightarrow> length (elem es blk i) = es"
  by (simp add: elem_def)

lemma rd_elem [mem]:
  "i < n \<Longrightarrow> n * es \<le> length blk \<Longrightarrow> rd (int i * int es) es blk = Inr (elem es blk i)"
  using elem_fits [of i n es blk]
  by (simp add: rd_def elem_def nat_mult_distrib)

lemma wr_elem [mem]:
  "i < n \<Longrightarrow> n * es \<le> length blk \<Longrightarrow> length bs = es \<Longrightarrow>
   wr (int i * int es) bs blk = Inr (overwrite (i * es) bs blk)"
  using elem_fits [of i n es blk]
  by (simp add: wr_def nat_mult_distrib)

lemma elem_disjoint: "i \<noteq> j \<Longrightarrow> i * es + es \<le> j * es \<or> j * es + es \<le> i * es"
  for i j es :: nat
proof -
  assume "i \<noteq> j"
  then consider "Suc i \<le> j" | "Suc j \<le> i" by linarith
  then show ?thesis
  proof cases
    case 1
    then have "Suc i * es \<le> j * es" by (rule mult_le_mono1)
    then show ?thesis by simp
  next
    case 2
    then have "Suc j * es \<le> i * es" by (rule mult_le_mono1)
    then show ?thesis by simp
  qed
qed

lemma elem_overwrite [mem]:
  assumes "i < n" "j < n" "n * es \<le> length blk" "length bs = es"
  shows "elem es (overwrite (i * es) bs blk) j = (if j = i then bs else elem es blk j)"
proof (cases "j = i")
  case True
  with assms elem_fits [of i n es blk] show ?thesis
    by (simp add: elem_def slice_overwrite_same)
next
  case False
  with assms elem_fits [of i n es blk] elem_fits [of j n es blk] elem_disjoint [of i j es]
  show ?thesis by (auto simp: elem_def slice_overwrite_disjoint)
qed

lemma length_overwrite_elem [simp]:
  "i < n \<Longrightarrow> n * es \<le> length blk \<Longrightarrow> length bs = es \<Longrightarrow>
   length (overwrite (i * es) bs blk) = length blk"
  using elem_fits [of i n es blk] by simp

lemma elems_overwrite [mem]:
  assumes "i < n" "n * es \<le> length blk" "length bs = es"
  shows "elems es n (overwrite (i * es) bs blk) = (elems es n blk)[i := bs]"
  using assms by (intro nth_equalityI) (auto simp: elem_overwrite nth_list_update)

lemma slice_take: "off + n \<le> m \<Longrightarrow> slice off n (take m xs) = slice off n xs"
  by (simp add: slice_def drop_take min_def)

lemma elem_prefix: "take m b = take m blk \<Longrightarrow> i * es + es \<le> m \<Longrightarrow> elem es b i = elem es blk i"
  using slice_take [of "i * es" es m b] slice_take [of "i * es" es m blk]
  by (simp add: elem_def)

end
