(* ===== verification/Comparator.thy ===== *)
theory Comparator
  imports CMem
begin

text \<open>
  The comparison functions the sorting and searching routines are called with, and the contract
  those routines need of them. \<open>cmp_int\<close> is \<open>cmp_int\<close> of my_sort_test.c and my_array_list_test.c
  and \<open>int_cmp\<close> of lsearch.c (the difference of two 32-bit values, which wraps), \<open>cmp_string\<close> is
  \<open>cmp_string\<close> of my_sort_test.c and \<open>str_cmp\<close> of lsearch.c (\<open>strcmp\<close> of the strings two pointers
  refer to; which string a pointer refers to is a parameter).
\<close>

section \<open>The contract\<close>

text \<open>
  A three-way comparison that orders the elements of \<open>A\<close>: the sign flips with the arguments and
  \<open>\<le> 0\<close> is transitive. Outside \<open>A\<close> nothing is promised: the difference of two machine integers
  orders only values that are close enough.
\<close>

locale comparator =
  fixes cmp :: "'a \<Rightarrow> 'a \<Rightarrow> int" and A :: "'a set"
  assumes flip: "x \<in> A \<Longrightarrow> y \<in> A \<Longrightarrow> cmp x y \<le> 0 \<longleftrightarrow> 0 \<le> cmp y x"
    and trans: "x \<in> A \<Longrightarrow> y \<in> A \<Longrightarrow> z \<in> A \<Longrightarrow> cmp x y \<le> 0 \<Longrightarrow> cmp y z \<le> 0 \<Longrightarrow> cmp x z \<le> 0"
begin

lemma cmp_refl: "x \<in> A \<Longrightarrow> cmp x x = 0"
  using flip [of x x] by linarith

lemma cmp_total: "x \<in> A \<Longrightarrow> y \<in> A \<Longrightarrow> cmp x y \<le> 0 \<or> cmp y x \<le> 0"
  using flip [of x y] by linarith

lemma cmp_pos: "x \<in> A \<Longrightarrow> y \<in> A \<Longrightarrow> 0 < cmp x y \<longleftrightarrow> cmp y x < 0"
  using flip [of x y] flip [of y x] by linarith

lemma cmp_equal_sym: "x \<in> A \<Longrightarrow> y \<in> A \<Longrightarrow> cmp x y = 0 \<longleftrightarrow> cmp y x = 0"
  using flip [of x y] flip [of y x] by linarith

lemma cmp_equal_left:
  assumes "x \<in> A" "y \<in> A" "z \<in> A" "cmp x y = 0"
  shows "cmp x z \<le> 0 \<longleftrightarrow> cmp y z \<le> 0"
proof -
  from assms have "cmp x y \<le> 0" and "cmp y x \<le> 0" using flip [of y x] by auto
  with assms(1-3) show ?thesis by (blast intro: trans)
qed

end

section \<open>Comparing machine integers\<close>

text \<open>The \<open>int\<close> stored in four bytes, low byte first, and back.\<close>

fun le_value :: "byte list \<Rightarrow> int" where
  "le_value [] = 0"
| "le_value (b # bs) = uint b + 256 * le_value bs"

definition load_int :: "byte list \<Rightarrow> 32 word" where
  "load_int bs = word_of_int (le_value bs)"

definition cmp_int :: "byte list \<Rightarrow> byte list \<Rightarrow> int" where
  "cmp_int a b = sint (load_int a - load_int b)"

text \<open>The values whose differences stay within \<open>int\<close>.\<close>

definition small_ints :: "byte list set" where
  "small_ints = {bs. - (2 ^ 30) \<le> sint (load_int bs) \<and> sint (load_int bs) < 2 ^ 30}"

lemma sint_diff_small:
  fixes v w :: "32 word"
  assumes "- (2 ^ 30) \<le> sint v" "sint v < 2 ^ 30" "- (2 ^ 30) \<le> sint w" "sint w < 2 ^ 30"
  shows "sint (v - w) = sint v - sint w"
proof -
  have "sint (v - w) = signed_take_bit 31 (sint v - sint w)"
    by (simp add: sint_word_ariths(2))
  also have "\<dots> = sint v - sint w"
    using assms by (intro signed_take_bit_int_eq_self) auto
  finally show ?thesis .
qed

lemma cmp_int_small:
  "a \<in> small_ints \<Longrightarrow> b \<in> small_ints \<Longrightarrow> cmp_int a b = sint (load_int a) - sint (load_int b)"
  by (simp add: cmp_int_def small_ints_def sint_diff_small)

interpretation cint_order: comparator cmp_int small_ints
  by unfold_locales (auto simp: cmp_int_small)

section \<open>Comparing C strings\<close>

text \<open>
  A C string is the list of its bytes before the terminating zero. \<open>strcmp\<close> returns the
  difference of the first bytes that differ, the terminator counting as 0.
\<close>

fun strcmp :: "byte list \<Rightarrow> byte list \<Rightarrow> int" where
  "strcmp [] [] = 0"
| "strcmp [] (y # ys) = - uint y"
| "strcmp (x # xs) [] = uint x"
| "strcmp (x # xs) (y # ys) = (if x = y then strcmp xs ys else uint x - uint y)"

definition c_string :: "byte list \<Rightarrow> bool" where
  "c_string s \<longleftrightarrow> 0 \<notin> set s"

definition cmp_string :: "(byte list \<Rightarrow> byte list) \<Rightarrow> byte list \<Rightarrow> byte list \<Rightarrow> int" where
  "cmp_string deref a b = strcmp (deref a) (deref b)"

lemma strcmp_refl [simp]: "strcmp xs xs = 0"
  by (induction xs) auto

lemma strcmp_swap: "strcmp ys xs = - strcmp xs ys"
  by (induction xs ys rule: strcmp.induct) auto

lemma uint_byte_pos: "(x :: byte) \<noteq> 0 \<Longrightarrow> 0 < uint x"
  by (simp add: word_neq_0_conv word_less_def)

lemma strcmp_zero: "c_string xs \<Longrightarrow> c_string ys \<Longrightarrow> strcmp xs ys = 0 \<longleftrightarrow> xs = ys"
  by (induction xs ys rule: strcmp.induct) (auto simp: c_string_def word_uint_eq_iff dest: uint_byte_pos)

lemma strcmp_trans:
  "c_string xs \<Longrightarrow> c_string ys \<Longrightarrow> c_string zs \<Longrightarrow>
   strcmp xs ys \<le> 0 \<Longrightarrow> strcmp ys zs \<le> 0 \<Longrightarrow> strcmp xs zs \<le> 0"
proof (induction xs ys arbitrary: zs rule: strcmp.induct)
  case (1 zs)
  then show ?case by (cases zs) auto
next
  case (2 y ys zs)
  then show ?case by (cases zs) auto
next
  case (3 x xs zs)
  then show ?case using uint_byte_pos [of x] by (auto simp: c_string_def)
next
  case (4 x xs y ys zs)
  show ?case
  proof (cases zs)
    case Nil
    with "4.prems" uint_byte_pos [of y] show ?thesis by (auto simp: c_string_def)
  next
    case (Cons z zs')
    have "uint a = uint b \<longleftrightarrow> a = b" for a b :: byte by (simp add: word_uint_eq_iff)
    with "4.prems" "4.IH" [of zs'] Cons show ?thesis
      by (auto simp: c_string_def split: if_splits)
  qed
qed

interpretation cstring_order: comparator "cmp_string deref" "{p. c_string (deref p)}" for deref
proof unfold_locales
  fix x y
  show "cmp_string deref x y \<le> 0 \<longleftrightarrow> 0 \<le> cmp_string deref y x"
    using strcmp_swap [of "deref x" "deref y"] by (simp add: cmp_string_def)
qed (auto simp: cmp_string_def intro: strcmp_trans)

end
