(* ===== verification/MySort.thy ===== *)
theory MySort
  imports Comparator
begin

text \<open>
  my_sort.c: quick sort and merge sort over an untyped array. The array is a block of bytes,
  an element is addressed by its index times \<open>elem_size\<close>, and the comparison function is given
  the bytes of two elements. Every read and write is checked against the block, so that a result
  \<open>Inr\<close> says that no access left it.

  Then: each routine permutes the elements of its range and leaves the rest of the block alone,
  quick sort and merge sort return a sorted array for a comparison that orders the elements, and
  merge sort computes exactly the stable list function \<open>msort_ref\<close>.
\<close>

type_synonym cmpfn = "byte list \<Rightarrow> byte list \<Rightarrow> int"

section \<open>The code\<close>

text \<open>\<open>get_elem\<close> returns an address: here the offset from \<open>base\<close>.\<close>

definition get_elem :: "int \<Rightarrow> nat \<Rightarrow> int" where
  "get_elem index elem_size = index * int elem_size"

text \<open>A call of the comparison function on two addresses of the block.\<close>

definition cmp_at :: "cmpfn \<Rightarrow> byte list \<Rightarrow> nat \<Rightarrow> int \<Rightarrow> int \<Rightarrow> int result" where
  "cmp_at cmpfn base elem_size p q =
     rbind (rd p elem_size base) (\<lambda>a. rbind (rd q elem_size base) (\<lambda>b. Inr (cmpfn a b)))"

fun swap_loop :: "byte list \<Rightarrow> int \<Rightarrow> int \<Rightarrow> nat \<Rightarrow> byte list result" where
  "swap_loop base pp pp2 0 = Inr base"
| "swap_loop base pp pp2 (Suc k) =
     rbind (rd pp 1 base) (\<lambda>tmp.
     rbind (rd pp2 1 base) (\<lambda>other.
     rbind (wr pp other base) (\<lambda>base.
     rbind (wr pp2 tmp base) (\<lambda>base.
     swap_loop base (pp + 1) (pp2 + 1) k))))"

definition swap :: "byte list \<Rightarrow> int \<Rightarrow> int \<Rightarrow> nat \<Rightarrow> byte list result" where
  "swap base p p2 elem_size = swap_loop base (get_elem p elem_size) (get_elem p2 elem_size) elem_size"

text \<open>The two inner loops of \<open>my_partition\<close>; the pivot is an address, so it is read each time.\<close>

function scan_hight :: "cmpfn \<Rightarrow> byte list \<Rightarrow> nat \<Rightarrow> int \<Rightarrow> int \<Rightarrow> int \<Rightarrow> int result" where
  "scan_hight cmpfn base elem_size pivot low hight =
     (if hight > low then
        rbind (cmp_at cmpfn base elem_size (get_elem hight elem_size) pivot) (\<lambda>c.
          if c \<ge> 0 then scan_hight cmpfn base elem_size pivot low (hight - 1) else Inr hight)
      else Inr hight)"
  by pat_completeness auto
termination
  by (relation "measure (\<lambda>(cmpfn, base, elem_size, pivot, low, hight). nat (hight - low))") auto

function scan_low :: "cmpfn \<Rightarrow> byte list \<Rightarrow> nat \<Rightarrow> int \<Rightarrow> int \<Rightarrow> int \<Rightarrow> int result" where
  "scan_low cmpfn base elem_size pivot low hight =
     (if low < hight then
        rbind (cmp_at cmpfn base elem_size (get_elem low elem_size) pivot) (\<lambda>c.
          if c \<le> 0 then scan_low cmpfn base elem_size pivot (low + 1) hight else Inr low)
      else Inr low)"
  by pat_completeness auto
termination
  by (relation "measure (\<lambda>(cmpfn, base, elem_size, pivot, low, hight). nat (hight - low))") auto

declare scan_hight.simps [simp del] scan_low.simps [simp del]

text \<open>
  The outer loop. With a comparison that calls an element greater than itself it may swap for
  ever, so it is given a number of iterations; \<open>my_partition\<close> gives it the length of the range,
  which \<open>part_loop_correct\<close> shows to be enough whenever \<open>cmpfn\<close> does not do that.
\<close>

fun part_loop :: "nat \<Rightarrow> cmpfn \<Rightarrow> nat \<Rightarrow> int \<Rightarrow> byte list \<Rightarrow> int \<Rightarrow> int \<Rightarrow> (byte list \<times> int) result" where
  "part_loop fuel cmpfn elem_size pivot base low hight =
     (if low < hight then
        (case fuel of
           0 \<Rightarrow> Inl Diverged
         | Suc fuel \<Rightarrow>
             rbind (scan_hight cmpfn base elem_size pivot low hight) (\<lambda>hight.
             rbind (scan_low cmpfn base elem_size pivot low hight) (\<lambda>low.
             rbind (if hight > low then swap base hight low elem_size else Inr base) (\<lambda>base.
             part_loop fuel cmpfn elem_size pivot base low hight))))
      else Inr (base, low))"

declare part_loop.simps [simp del]

definition my_partition :: "byte list \<Rightarrow> int \<Rightarrow> int \<Rightarrow> nat \<Rightarrow> cmpfn \<Rightarrow> (byte list \<times> int) result" where
  "my_partition base begin end elem_size cmpfn =
     (let pivot = begin * int elem_size in
      rbind (part_loop (nat (end - begin)) cmpfn elem_size pivot base begin end) (\<lambda>(base, low).
      rbind (if low > begin then swap base low begin elem_size else Inr base) (\<lambda>base.
      Inr (base, low))))"

lemma scan_hight_range:
  "scan_hight cmpfn base es pivot low hight = Inr h \<Longrightarrow> low \<le> hight \<Longrightarrow> low \<le> h \<and> h \<le> hight"
proof (induction cmpfn base es pivot low hight rule: scan_hight.induct)
  case (1 cmpfn base es pivot low hight)
  then show ?case
    using scan_hight.simps [of cmpfn base es pivot low hight]
    by (fastforce simp: rbind_eq_Inr split: if_splits)
qed

lemma scan_low_range:
  "scan_low cmpfn base es pivot low hight = Inr l \<Longrightarrow> low \<le> hight \<Longrightarrow> low \<le> l \<and> l \<le> hight"
proof (induction cmpfn base es pivot low hight rule: scan_low.induct)
  case (1 cmpfn base es pivot low hight)
  then show ?case
    using scan_low.simps [of cmpfn base es pivot low hight]
    by (fastforce simp: rbind_eq_Inr split: if_splits)
qed

lemma part_loop_range:
  "part_loop fuel cmpfn es pivot base low hight = Inr (base', p) \<Longrightarrow> low \<le> hight \<Longrightarrow>
   low \<le> p \<and> p \<le> hight"
proof (induction fuel arbitrary: base low hight)
  case 0
  then show ?case by (simp add: part_loop.simps split: if_splits)
next
  case (Suc fuel)
  show ?case
  proof (cases "low < hight")
    case False
    with Suc.prems show ?thesis by (simp add: part_loop.simps)
  next
    case True
    with Suc.prems obtain h l b where h: "scan_hight cmpfn base es pivot low hight = Inr h"
      and l: "scan_low cmpfn base es pivot low h = Inr l"
      and r: "part_loop fuel cmpfn es pivot b l h = Inr (base', p)"
      by (subst (asm) part_loop.simps) (auto simp: rbind_eq_Inr)
    from scan_hight_range [OF h] Suc.prems have "low \<le> h" "h \<le> hight" by auto
    with scan_low_range [OF l] Suc.IH [OF r] show ?thesis by auto
  qed
qed

lemma my_partition_range:
  "my_partition base b e es cmpfn = Inr (base', p) \<Longrightarrow> b \<le> e \<Longrightarrow> b \<le> p \<and> p \<le> e"
  by (auto simp: my_partition_def rbind_eq_Inr Let_def dest: part_loop_range)

function do_qsort :: "byte list \<Rightarrow> int \<Rightarrow> int \<Rightarrow> nat \<Rightarrow> cmpfn \<Rightarrow> byte list result" where
  "do_qsort base begin end elem_size cmpfn =
     (if end \<le> begin then Inr base
      else
        rbind (my_partition base begin end elem_size cmpfn) (\<lambda>(base, pivot_index).
        rbind (do_qsort base begin (pivot_index - 1) elem_size cmpfn) (\<lambda>base.
        do_qsort base (pivot_index + 1) end elem_size cmpfn)))"
  by pat_completeness auto
termination
  by (relation "measure (\<lambda>(base, b, e, es, cmpfn). nat (e - b + 1))")
    (auto dest!: my_partition_range)

declare do_qsort.simps [simp del]

definition my_qsort :: "byte list \<Rightarrow> int \<Rightarrow> nat \<Rightarrow> cmpfn \<Rightarrow> byte list result" where
  "my_qsort base sz elem_size cmpfn = do_qsort base 0 (sz - 1) elem_size cmpfn"


section \<open>Elements at integer indices\<close>

text \<open>
  \<open>ielem es blk k\<close> is the element at index \<open>k\<close>, \<open>seg es blk b e\<close> the list of elements \<open>b\<close> to
  \<open>e\<close>, both included, as the code's ranges are; \<open>range_perm n es b e blk blk'\<close> says that \<open>blk'\<close>
  holds the elements of \<open>blk\<close> with those of the range \<open>b..e\<close> permuted and no other touched.
\<close>

definition ielem :: "nat \<Rightarrow> byte list \<Rightarrow> int \<Rightarrow> byte list" where
  "ielem es blk k = elem es blk (nat k)"

definition seg :: "nat \<Rightarrow> byte list \<Rightarrow> int \<Rightarrow> int \<Rightarrow> byte list list" where
  "seg es blk b e = map (ielem es blk) [b..e]"

definition range_perm :: "nat \<Rightarrow> nat \<Rightarrow> int \<Rightarrow> int \<Rightarrow> byte list \<Rightarrow> byte list \<Rightarrow> bool" where
  "range_perm n es b e blk blk' \<longleftrightarrow>
     length blk' = length blk \<and>
     (\<forall>k. 0 \<le> k \<and> k < int n \<and> \<not> (b \<le> k \<and> k \<le> e) \<longrightarrow> ielem es blk' k = ielem es blk k) \<and>
     mset (seg es blk' b e) = mset (seg es blk b e)"

lemma rd_ielem [mem]:
  assumes "0 \<le> k" "k < int n" "n * es \<le> length blk"
  shows "rd (k * int es) es blk = Inr (ielem es blk k)"
  using rd_elem [of "nat k" n es blk] assms by (simp add: ielem_def nat_less_iff)

lemma length_ielem [simp]: "0 \<le> k \<Longrightarrow> k < int n \<Longrightarrow> n * es \<le> length blk \<Longrightarrow> length (ielem es blk k) = es"
  using elem_fits [of "nat k" n es blk] by (simp add: ielem_def nat_less_iff)

lemma seg_empty [simp]: "e < b \<Longrightarrow> seg es blk b e = []"
  by (simp add: seg_def)

lemma seg_Cons: "b \<le> e \<Longrightarrow> seg es blk b e = ielem es blk b # seg es blk (b + 1) e"
  by (simp add: seg_def upto_rec1)

lemma seg_snoc: "b \<le> e \<Longrightarrow> seg es blk b e = seg es blk b (e - 1) @ [ielem es blk e]"
  by (simp add: seg_def upto_rec2)

lemma seg_split: "b \<le> m + 1 \<Longrightarrow> m \<le> e \<Longrightarrow> seg es blk b e = seg es blk b m @ seg es blk (m + 1) e"
proof (cases "b \<le> m")
  case True
  assume "m \<le> e"
  with True show ?thesis
    using upto_split2 [of b m e] by (simp add: seg_def)
next
  case False
  assume "b \<le> m + 1"
  with False have "b = m + 1" by simp
  then show ?thesis by simp
qed

lemma seg_split3:
  "b \<le> m \<Longrightarrow> m \<le> e \<Longrightarrow>
   seg es blk b e = seg es blk b (m - 1) @ ielem es blk m # seg es blk (m + 1) e"
  using seg_split [of b "m - 1" e] seg_Cons [of m e] by simp

lemma length_seg [simp]: "length (seg es blk b e) = nat (e - b + 1)"
  by (simp add: seg_def)

lemma set_seg: "set (seg es blk b e) = ielem es blk ` {b..e}"
  by (simp add: seg_def)

lemma seg_cong:
  "(\<And>k. b \<le> k \<Longrightarrow> k \<le> e \<Longrightarrow> ielem es blk' k = ielem es blk k) \<Longrightarrow> seg es blk' b e = seg es blk b e"
  by (simp add: seg_def)

lemma seg_elems: "seg es blk 0 (int n - 1) = elems es n blk"
  by (intro nth_equalityI) (auto simp: seg_def ielem_def)

lemma range_perm_refl [simp]: "range_perm n es b e blk blk"
  by (simp add: range_perm_def)

lemma range_perm_trans:
  "range_perm n es b e x y \<Longrightarrow> range_perm n es b e y z \<Longrightarrow> range_perm n es b e x z"
  by (auto simp: range_perm_def)

lemma range_perm_length: "range_perm n es b e x y \<Longrightarrow> length y = length x"
  by (simp add: range_perm_def)

lemma range_perm_outside:
  "range_perm n es b e x y \<Longrightarrow> 0 \<le> k \<Longrightarrow> k < int n \<Longrightarrow> k < b \<or> e < k \<Longrightarrow> ielem es y k = ielem es x k"
  by (auto simp: range_perm_def)

lemma range_perm_seg_outside:
  "range_perm n es b e x y \<Longrightarrow> 0 \<le> b' \<Longrightarrow> e' < int n \<Longrightarrow> e' < b \<or> e < b' \<Longrightarrow>
   seg es y b' e' = seg es x b' e'"
  by (intro seg_cong) (auto intro: range_perm_outside)

lemma range_perm_image:
  "range_perm n es b e x y \<Longrightarrow> ielem es y ` {b..e} = ielem es x ` {b..e}"
  using mset_eq_setD by (fastforce simp: range_perm_def set_seg)

lemma range_perm_widen:
  assumes perm: "range_perm n es b e x y" and b: "0 \<le> b'" "b' \<le> b" and e: "e \<le> e'" "e' < int n"
    and ne: "b \<le> e + 1"
  shows "range_perm n es b' e' x y"
proof -
  have split: "seg es z b' e' = seg es z b' (b - 1) @ seg es z b e @ seg es z (e + 1) e'" for z
    using seg_split [of b' "b - 1" e' es z] seg_split [of b e e' es z] assms by simp
  have "seg es y b' (b - 1) = seg es x b' (b - 1)" "seg es y (e + 1) e' = seg es x (e + 1) e'"
    using assms by (auto intro!: range_perm_seg_outside)
  with perm have "mset (seg es y b' e') = mset (seg es x b' e')"
    by (simp add: split range_perm_def)
  moreover have "ielem es y k = ielem es x k" if "0 \<le> k" "k < int n" "\<not> (b' \<le> k \<and> k \<le> e')" for k
    using that assms by (intro range_perm_outside [OF perm]) auto
  ultimately show ?thesis
    using perm by (simp add: range_perm_def)
qed

text \<open>A property of all elements of a range survives a permutation of the range.\<close>

lemma range_perm_all:
  assumes "range_perm n es b e x y" and "\<And>k. b \<le> k \<Longrightarrow> k \<le> e \<Longrightarrow> P (ielem es x k)"
    and "b \<le> k" "k \<le> e"
  shows "P (ielem es y k)"
proof -
  have "ielem es y k \<in> ielem es x ` {b..e}"
    using range_perm_image [OF assms(1)] assms(3,4) by auto
  with assms(2) show ?thesis by auto
qed

section \<open>Swapping\<close>

lemma swap_loop_pointwise:
  assumes "p + k \<le> length base" "q + k \<le> length base" "p = q \<or> p + k \<le> q \<or> q + k \<le> p"
  shows "\<exists>r. swap_loop base (int p) (int q) k = Inr r \<and> length r = length base \<and>
    (\<forall>i < length base. r ! i =
      (if q \<le> i \<and> i < q + k then base ! (p + i - q)
       else if p \<le> i \<and> i < p + k then base ! (q + i - p) else base ! i))"
  using assms
proof (induction k arbitrary: base p q)
  case 0
  then show ?case by auto
next
  case (Suc k)
  define b1 where "b1 = overwrite q [base ! p] (overwrite p [base ! q] base)"
  have one: "slice i (Suc 0) xs = [xs ! i]" if "i < length xs" for i and xs :: "byte list"
    using that by (simp add: slice_def take_Suc_conv_app_nth Cons_nth_drop_Suc [symmetric])
  have len: "length b1 = length base"
    using Suc.prems by (simp add: b1_def)
  have b1: "b1 ! j = (if j = q then base ! p else if j = p then base ! q else base ! j)"
    if "j < length base" for j
    using Suc.prems that by (auto simp: b1_def nth_overwrite)
  have step: "swap_loop base (int p) (int q) (Suc k) = swap_loop b1 (int (Suc p)) (int (Suc q)) k"
    using Suc.prems by (simp add: rd_def wr_def one b1_def add.commute)
  have "Suc p + k \<le> length b1" "Suc q + k \<le> length b1" "Suc p = Suc q \<or> Suc p + k \<le> Suc q \<or> Suc q + k \<le> Suc p"
    using Suc.prems len by auto
  then obtain r where r: "swap_loop b1 (int (Suc p)) (int (Suc q)) k = Inr r" "length r = length b1"
    "\<forall>i < length b1. r ! i =
      (if Suc q \<le> i \<and> i < Suc q + k then b1 ! (Suc p + i - Suc q)
       else if Suc p \<le> i \<and> i < Suc p + k then b1 ! (Suc q + i - Suc p) else b1 ! i)"
    using Suc.IH [of "Suc p" b1 "Suc q"] by blast
  have "r ! i = (if q \<le> i \<and> i < q + Suc k then base ! (p + i - q)
       else if p \<le> i \<and> i < p + Suc k then base ! (q + i - p) else base ! i)"
    if i: "i < length base" for i
  proof -
    have ri: "r ! i = (if Suc q \<le> i \<and> i < Suc q + k then b1 ! (Suc p + i - Suc q)
       else if Suc p \<le> i \<and> i < Suc p + k then b1 ! (Suc q + i - Suc p) else b1 ! i)"
      using r(3) i len by simp
    consider "i = q" | "i = p" "i \<noteq> q" | "Suc q \<le> i" "i < Suc q + k"
      | "Suc p \<le> i" "i < Suc p + k" "\<not> (q \<le> i \<and> i < q + Suc k)"
      | "\<not> (q \<le> i \<and> i < q + Suc k)" "\<not> (p \<le> i \<and> i < p + Suc k)"
      by linarith
    then show ?thesis
    proof cases
      case 1
      with i ri b1 [of i] Suc.prems show ?thesis by auto
    next
      case 2
      with i ri b1 [of i] Suc.prems show ?thesis by auto
    next
      case 3
      have "p + i - q < length base" "p + i - q \<noteq> p" "p + i - q \<noteq> q" using 3 Suc.prems by auto
      with 3 ri b1 [of "p + i - q"] show ?thesis by simp
    next
      case 4
      have "q + i - p < length base" "q + i - p \<noteq> p" "q + i - p \<noteq> q" using 4 Suc.prems by auto
      with 4 ri b1 [of "q + i - p"] show ?thesis by auto
    next
      case 5
      then have "r ! i = b1 ! i" "i \<noteq> q" "i \<noteq> p" using ri by auto
      with 5 b1 [OF i] show ?thesis by auto
    qed
  qed
  with r step len show ?case by auto
qed

lemma swap_loop_correct:
  assumes "p + k \<le> length base" "q + k \<le> length base" "p = q \<or> p + k \<le> q \<or> q + k \<le> p"
  shows "swap_loop base (int p) (int q) k =
    Inr (overwrite q (slice p k base) (overwrite p (slice q k base) base))"
proof -
  obtain r where r: "swap_loop base (int p) (int q) k = Inr r" "length r = length base"
    "\<forall>i < length base. r ! i =
      (if q \<le> i \<and> i < q + k then base ! (p + i - q)
       else if p \<le> i \<and> i < p + k then base ! (q + i - p) else base ! i)"
    using swap_loop_pointwise [OF assms] by blast
  have "r = overwrite q (slice p k base) (overwrite p (slice q k base) base)"
    using assms r(2,3) by (intro nth_equalityI) (auto simp: nth_overwrite)
  with r(1) show ?thesis by simp
qed

definition swap_blk :: "nat \<Rightarrow> byte list \<Rightarrow> int \<Rightarrow> int \<Rightarrow> byte list" where
  "swap_blk es blk i j =
     overwrite (nat j * es) (ielem es blk i) (overwrite (nat i * es) (ielem es blk j) blk)"

lemma swap_eq:
  assumes "0 \<le> i" "i < int n" "0 \<le> j" "j < int n" "n * es \<le> length blk"
  shows "swap blk i j es = Inr (swap_blk es blk i j)"
proof -
  have "nat i = nat j \<or> nat i * es + es \<le> nat j * es \<or> nat j * es + es \<le> nat i * es"
    using elem_disjoint [of "nat i" "nat j" es] by blast
  then have "swap_loop blk (int (nat i * es)) (int (nat j * es)) es = Inr (swap_blk es blk i j)"
    using assms elem_fits [of "nat i" n es blk] elem_fits [of "nat j" n es blk]
      swap_loop_correct [of "nat i * es" es blk "nat j * es"]
    by (auto simp: swap_blk_def ielem_def elem_def nat_less_iff)
  then show ?thesis
    using assms by (simp add: swap_def get_elem_def)
qed

lemma ielem_overwrite:
  assumes "0 \<le> i" "i < int n" "0 \<le> k" "k < int n" "n * es \<le> length blk" "length bs = es"
  shows "ielem es (overwrite (nat i * es) bs blk) k = (if k = i then bs else ielem es blk k)"
  using assms elem_overwrite [of "nat i" n "nat k" es blk bs]
  by (simp add: ielem_def nat_less_iff eq_nat_nat_iff)

lemma length_swap_blk [simp]:
  "0 \<le> i \<Longrightarrow> i < int n \<Longrightarrow> 0 \<le> j \<Longrightarrow> j < int n \<Longrightarrow> n * es \<le> length blk \<Longrightarrow>
   length (swap_blk es blk i j) = length blk"
  by (simp add: swap_blk_def nat_less_iff length_overwrite_elem [of _ n])

lemma ielem_swap_blk:
  assumes "0 \<le> i" "i < int n" "0 \<le> j" "j < int n" "n * es \<le> length blk" "0 \<le> k" "k < int n"
  shows "ielem es (swap_blk es blk i j) k =
    (if k = j then ielem es blk i else if k = i then ielem es blk j else ielem es blk k)"
  using assms ielem_overwrite [of j n k es "overwrite (nat i * es) (ielem es blk j) blk" "ielem es blk i"]
    ielem_overwrite [of i n k es blk "ielem es blk j"]
    length_overwrite_elem [of "nat i" n es blk "ielem es blk j"]
  by (simp add: swap_blk_def nat_less_iff)

lemma mset_map_exchange:
  fixes f g :: "int \<Rightarrow> 'a"
  assumes "b \<le> i" "i \<le> e" "b \<le> j" "j \<le> e"
    and g: "\<And>k. b \<le> k \<Longrightarrow> k \<le> e \<Longrightarrow> g k = (if k = j then f i else if k = i then f j else f k)"
  shows "mset (map g [b..e]) = mset (map f [b..e])"
proof -
  let ?pi = "id (i := j, j := i)"
  have inj: "inj_on ?pi {b..e}" and img: "?pi ` {b..e} = {b..e}"
    using assms(1-4) by (auto simp: inj_on_def image_iff)
  have "mset (map h [b..e]) = image_mset h (mset_set {b..e})" for h :: "int \<Rightarrow> 'a"
    by (simp flip: set_upto mset_map add: mset_set_set)
  moreover have "image_mset g (mset_set {b..e}) = image_mset f (image_mset ?pi (mset_set {b..e}))"
    using g by (auto simp: multiset.map_comp intro!: image_mset_cong)
  moreover have "image_mset ?pi (mset_set {b..e}) = mset_set {b..e}"
    using image_mset_mset_set [OF inj] img by simp
  ultimately show ?thesis by simp
qed

lemma swap_blk_range_perm:
  assumes "0 \<le> b" "b \<le> i" "i \<le> e" "b \<le> j" "j \<le> e" "e < int n" "n * es \<le> length blk"
  shows "range_perm n es b e blk (swap_blk es blk i j)"
proof -
  have at: "ielem es (swap_blk es blk i j) k =
      (if k = j then ielem es blk i else if k = i then ielem es blk j else ielem es blk k)"
    if "0 \<le> k" "k < int n" for k
    using that assms by (intro ielem_swap_blk [of i n j]) auto
  have "mset (seg es (swap_blk es blk i j) b e) = mset (seg es blk b e)"
    unfolding seg_def using assms by (intro mset_map_exchange [of b i e j]) (auto simp: at)
  with assms length_swap_blk [of i n j es blk] show ?thesis
    by (auto simp: range_perm_def at)
qed

section \<open>Partitioning\<close>

lemma cmp_at_ielem:
  "0 \<le> i \<Longrightarrow> i < int n \<Longrightarrow> 0 \<le> j \<Longrightarrow> j < int n \<Longrightarrow> n * es \<le> length blk \<Longrightarrow>
   cmp_at cmpfn blk es (i * int es) (j * int es) = Inr (cmpfn (ielem es blk i) (ielem es blk j))"
  by (simp add: cmp_at_def rd_ielem [of _ n])

lemma scan_hight_correct:
  assumes "0 \<le> b" "b \<le> low" "low \<le> hight" "hight < int n" "n * es \<le> length blk"
  shows "\<exists>h. scan_hight cmpfn blk es (b * int es) low hight = Inr h \<and> low \<le> h \<and> h \<le> hight \<and>
    (\<forall>k. h < k \<and> k \<le> hight \<longrightarrow> 0 \<le> cmpfn (ielem es blk k) (ielem es blk b)) \<and>
    (low < h \<longrightarrow> cmpfn (ielem es blk h) (ielem es blk b) < 0)"
  using assms
proof (induction "nat (hight - low)" arbitrary: hight)
  case 0
  then show ?case by (subst scan_hight.simps) auto
next
  case (Suc d)
  let ?c = "cmpfn (ielem es blk hight) (ielem es blk b)"
  have c: "cmp_at cmpfn blk es (get_elem hight es) (b * int es) = Inr ?c"
    using Suc.prems by (simp add: get_elem_def cmp_at_ielem [of _ n])
  show ?case
  proof (cases "0 \<le> ?c")
    case False
    with c Suc.prems show ?thesis by (subst scan_hight.simps) auto
  next
    case True
    have "\<exists>h. scan_hight cmpfn blk es (b * int es) low (hight - 1) = Inr h \<and> low \<le> h \<and> h \<le> hight - 1 \<and>
      (\<forall>k. h < k \<and> k \<le> hight - 1 \<longrightarrow> 0 \<le> cmpfn (ielem es blk k) (ielem es blk b)) \<and>
      (low < h \<longrightarrow> cmpfn (ielem es blk h) (ielem es blk b) < 0)"
      using Suc.prems Suc.hyps(2) by (intro Suc.hyps(1)) auto
    then obtain h where h: "scan_hight cmpfn blk es (b * int es) low (hight - 1) = Inr h"
      "low \<le> h" "h \<le> hight - 1"
      "\<forall>k. h < k \<and> k \<le> hight - 1 \<longrightarrow> 0 \<le> cmpfn (ielem es blk k) (ielem es blk b)"
      "low < h \<longrightarrow> cmpfn (ielem es blk h) (ielem es blk b) < 0" by blast
    have "scan_hight cmpfn blk es (b * int es) low hight = Inr h"
      using c True h(1) Suc.hyps(2) by (subst scan_hight.simps) auto
    moreover have "0 \<le> cmpfn (ielem es blk k) (ielem es blk b)" if "h < k" "k \<le> hight" for k
      using that h(4) True by (cases "k = hight") auto
    ultimately show ?thesis using h by auto
  qed
qed

lemma scan_low_correct:
  assumes "0 \<le> b" "b \<le> low" "low \<le> hight" "hight < int n" "n * es \<le> length blk"
  shows "\<exists>l. scan_low cmpfn blk es (b * int es) low hight = Inr l \<and> low \<le> l \<and> l \<le> hight \<and>
    (\<forall>k. low \<le> k \<and> k < l \<longrightarrow> cmpfn (ielem es blk k) (ielem es blk b) \<le> 0) \<and>
    (l < hight \<longrightarrow> 0 < cmpfn (ielem es blk l) (ielem es blk b))"
  using assms
proof (induction "nat (hight - low)" arbitrary: low)
  case 0
  then show ?case by (subst scan_low.simps) auto
next
  case (Suc d)
  let ?c = "cmpfn (ielem es blk low) (ielem es blk b)"
  have c: "cmp_at cmpfn blk es (get_elem low es) (b * int es) = Inr ?c"
    using Suc.prems Suc.hyps(2) by (simp add: get_elem_def cmp_at_ielem [of _ n])
  show ?case
  proof (cases "?c \<le> 0")
    case False
    with c Suc.prems show ?thesis by (subst scan_low.simps) auto
  next
    case True
    have "\<exists>l. scan_low cmpfn blk es (b * int es) (low + 1) hight = Inr l \<and> low + 1 \<le> l \<and> l \<le> hight \<and>
      (\<forall>k. low + 1 \<le> k \<and> k < l \<longrightarrow> cmpfn (ielem es blk k) (ielem es blk b) \<le> 0) \<and>
      (l < hight \<longrightarrow> 0 < cmpfn (ielem es blk l) (ielem es blk b))"
      using Suc.prems Suc.hyps(2) by (intro Suc.hyps(1)) auto
    then obtain l where l: "scan_low cmpfn blk es (b * int es) (low + 1) hight = Inr l"
      "low + 1 \<le> l" "l \<le> hight"
      "\<forall>k. low + 1 \<le> k \<and> k < l \<longrightarrow> cmpfn (ielem es blk k) (ielem es blk b) \<le> 0"
      "l < hight \<longrightarrow> 0 < cmpfn (ielem es blk l) (ielem es blk b)" by blast
    have "scan_low cmpfn blk es (b * int es) low hight = Inr l"
      using c True l(1) Suc.hyps(2) by (subst scan_low.simps) auto
    moreover have "cmpfn (ielem es blk k) (ielem es blk b) \<le> 0" if "low \<le> k" "k < l" for k
      using that l(4) True by (cases "k = low") auto
    ultimately show ?thesis using l by auto
  qed
qed

text \<open>
  The outer loop: with a pivot that does not compare greater than itself it needs at most
  \<open>hight - low\<close> iterations, and splits the range around the index it returns.
\<close>

lemma part_loop_correct:
  assumes "0 \<le> b" "b \<le> low" "low \<le> hight" "hight \<le> e" "e < int n" "n * es \<le> length blk"
    and "nat (hight - low) \<le> fuel" and v: "v = ielem es blk b"
    and "\<forall>k. b \<le> k \<and> k \<le> low \<longrightarrow> cmpfn (ielem es blk k) v \<le> 0"
    and "\<forall>k. hight < k \<and> k \<le> e \<longrightarrow> 0 \<le> cmpfn (ielem es blk k) v"
  shows "\<exists>blk' p. part_loop fuel cmpfn es (b * int es) blk low hight = Inr (blk', p) \<and>
    low \<le> p \<and> p \<le> hight \<and> range_perm n es b e blk blk' \<and> ielem es blk' b = v \<and>
    (\<forall>k. b \<le> k \<and> k \<le> p \<longrightarrow> cmpfn (ielem es blk' k) v \<le> 0) \<and>
    (\<forall>k. p < k \<and> k \<le> e \<longrightarrow> 0 \<le> cmpfn (ielem es blk' k) v)"
  using assms
proof (induction fuel arbitrary: blk low hight)
  case 0
  then show ?case by (subst part_loop.simps) auto
next
  case (Suc fuel)
  show ?case
  proof (cases "low < hight")
    case False
    with Suc.prems show ?thesis by (subst part_loop.simps) auto
  next
    case True
    obtain h where h: "scan_hight cmpfn blk es (b * int es) low hight = Inr h" "low \<le> h" "h \<le> hight"
      "\<forall>k. h < k \<and> k \<le> hight \<longrightarrow> 0 \<le> cmpfn (ielem es blk k) v"
      "low < h \<longrightarrow> cmpfn (ielem es blk h) v < 0"
      using scan_hight_correct [of b low hight n es blk cmpfn] Suc.prems by auto
    obtain l where l: "scan_low cmpfn blk es (b * int es) low h = Inr l" "low \<le> l" "l \<le> h"
      "\<forall>k. low \<le> k \<and> k < l \<longrightarrow> cmpfn (ielem es blk k) v \<le> 0"
      "l < h \<longrightarrow> 0 < cmpfn (ielem es blk l) v"
      using scan_low_correct [of b low h n es blk cmpfn] Suc.prems h by auto
    have upper: "0 \<le> cmpfn (ielem es blk k) v" if "h < k" "k \<le> e" for k
      using that h(4) Suc.prems by (cases "k \<le> hight") auto
    have lower: "cmpfn (ielem es blk k) v \<le> 0" if "b \<le> k" "k < l" for k
      using that l(4) Suc.prems by (cases "k \<le> low") auto
    show ?thesis
    proof (cases "l < h")
      case False
      have "l = h" using False l by simp
      moreover have "cmpfn (ielem es blk l) v \<le> 0"
        using Suc.prems h l \<open>l = h\<close> by (cases "low < h") auto
      ultimately have "cmpfn (ielem es blk k) v \<le> 0" if "b \<le> k" "k \<le> l" for k
        using lower that by (cases "k = l") auto
      then have "part_loop (Suc fuel) cmpfn es (b * int es) blk low hight = Inr (blk, l)"
        using True h(1) l(1) \<open>l = h\<close> by (subst part_loop.simps) (simp, subst part_loop.simps, simp)
      then show ?thesis
        using Suc.prems h l \<open>l = h\<close> upper \<open>\<And>k. b \<le> k \<Longrightarrow> k \<le> l \<Longrightarrow> cmpfn (ielem es blk k) v \<le> 0\<close>
        by auto
    next
      case swap: True
      note bnd = Suc.prems(1-6)
      have lb: "b < l" "low < l"
      proof -
        have "cmpfn (ielem es blk low) v \<le> 0" using Suc.prems by auto
        with swap l show "low < l" by (cases "low = l") auto
        with Suc.prems show "b < l" by simp
      qed
      let ?blk = "swap_blk es blk h l"
      have at: "ielem es ?blk k =
          (if k = l then ielem es blk h else if k = h then ielem es blk l else ielem es blk k)"
        if "0 \<le> k" "k < int n" for k
        using that bnd h(2,3) l(2,3) lb by (intro ielem_swap_blk [of h n l]) simp_all
      have perm: "range_perm n es b e blk ?blk"
        using bnd h(2,3) l(2,3) lb swap by (intro swap_blk_range_perm) simp_all
      have "\<exists>blk' p. part_loop fuel cmpfn es (b * int es) ?blk l h = Inr (blk', p) \<and>
        l \<le> p \<and> p \<le> h \<and> range_perm n es b e ?blk blk' \<and> ielem es blk' b = v \<and>
        (\<forall>k. b \<le> k \<and> k \<le> p \<longrightarrow> cmpfn (ielem es blk' k) v \<le> 0) \<and>
        (\<forall>k. p < k \<and> k \<le> e \<longrightarrow> 0 \<le> cmpfn (ielem es blk' k) v)"
      proof (rule Suc.IH)
        show "n * es \<le> length ?blk" using Suc.prems range_perm_length [OF perm] by simp
        show "v = ielem es ?blk b" using Suc.prems lb swap h by (simp add: at)
        show "\<forall>k. b \<le> k \<and> k \<le> l \<longrightarrow> cmpfn (ielem es ?blk k) v \<le> 0"
          using lower h l swap lb Suc.prems by (auto simp: at)
        show "\<forall>k. h < k \<and> k \<le> e \<longrightarrow> 0 \<le> cmpfn (ielem es ?blk k) v"
          using upper h l swap lb Suc.prems by (auto simp: at)
      qed (use Suc.prems h l lb in auto)
      moreover have "swap blk h l es = Inr ?blk"
        using bnd h(2,3) l(2,3) lb by (intro swap_eq) simp_all
      then have "part_loop (Suc fuel) cmpfn es (b * int es) blk low hight =
          part_loop fuel cmpfn es (b * int es) ?blk l h"
        using True h(1) l(1) swap by (subst part_loop.simps) simp
      ultimately show ?thesis
        using h l perm by (auto intro: range_perm_trans)
    qed
  qed
qed

lemma my_partition_correct:
  assumes "0 \<le> b" "b \<le> e" "e < int n" "n * es \<le> length blk"
    and refl: "cmpfn (ielem es blk b) (ielem es blk b) \<le> 0"
  shows "\<exists>blk' p. my_partition blk b e es cmpfn = Inr (blk', p) \<and> b \<le> p \<and> p \<le> e \<and>
    range_perm n es b e blk blk' \<and>
    (\<forall>k. b \<le> k \<and> k < p \<longrightarrow> cmpfn (ielem es blk' k) (ielem es blk' p) \<le> 0) \<and>
    (\<forall>k. p < k \<and> k \<le> e \<longrightarrow> 0 \<le> cmpfn (ielem es blk' k) (ielem es blk' p))"
proof -
  let ?v = "ielem es blk b"
  have "\<forall>k. b \<le> k \<and> k \<le> b \<longrightarrow> cmpfn (ielem es blk k) ?v \<le> 0" using refl by auto
  then obtain blk1 p where loop: "part_loop (nat (e - b)) cmpfn es (b * int es) blk b e = Inr (blk1, p)"
    and p: "b \<le> p" "p \<le> e" and perm: "range_perm n es b e blk blk1" and v: "ielem es blk1 b = ?v"
    and lower: "\<forall>k. b \<le> k \<and> k \<le> p \<longrightarrow> cmpfn (ielem es blk1 k) ?v \<le> 0"
    and upper: "\<forall>k. p < k \<and> k \<le> e \<longrightarrow> 0 \<le> cmpfn (ielem es blk1 k) ?v"
    using part_loop_correct [of b b e e n es blk "nat (e - b)" ?v cmpfn] assms by auto
  have len: "n * es \<le> length blk1" using range_perm_length [OF perm] assms by simp
  show ?thesis
  proof (cases "p > b")
    case False
    with p have "p = b" by simp
    with loop p perm v upper refl show ?thesis by (simp add: my_partition_def)
  next
    case True
    let ?blk = "swap_blk es blk1 p b"
    have "swap blk1 p b es = Inr ?blk"
      using assms p len by (intro swap_eq) auto
    then have run: "my_partition blk b e es cmpfn = Inr (?blk, p)"
      using loop True by (simp add: my_partition_def)
    have at: "ielem es ?blk k =
        (if k = b then ielem es blk1 p else if k = p then ielem es blk1 b else ielem es blk1 k)"
      if "0 \<le> k" "k < int n" for k
      using that assms p len by (intro ielem_swap_blk [of p n b]) auto
    have "range_perm n es b e blk1 ?blk"
      using assms p len by (intro swap_blk_range_perm) auto
    with perm have "range_perm n es b e blk ?blk" by (rule range_perm_trans)
    moreover have "ielem es ?blk p = ?v"
      using at [of p] v p assms True by auto
    ultimately show ?thesis
      using run p lower upper assms True by (auto simp: at)
  qed
qed

section \<open>Quick sort\<close>

definition sorted_seg :: "nat \<Rightarrow> cmpfn \<Rightarrow> byte list \<Rightarrow> int \<Rightarrow> int \<Rightarrow> bool" where
  "sorted_seg es cmpfn blk b e \<longleftrightarrow> sorted_wrt (\<lambda>x y. cmpfn x y \<le> 0) (seg es blk b e)"

text \<open>A comparison of byte blocks that orders the elements of \<open>A\<close>.\<close>

locale byte_comparator = comparator cmp A
  for cmp :: "byte list \<Rightarrow> byte list \<Rightarrow> int" and A :: "byte list set"
begin

lemma sorted_seg_join:
  assumes "b \<le> p" "p \<le> e" "\<And>k. b \<le> k \<Longrightarrow> k \<le> e \<Longrightarrow> ielem es blk k \<in> A"
    and "sorted_seg es cmp blk b (p - 1)" "sorted_seg es cmp blk (p + 1) e"
    and "\<And>k. b \<le> k \<Longrightarrow> k < p \<Longrightarrow> cmp (ielem es blk k) (ielem es blk p) \<le> 0"
    and "\<And>k. p < k \<Longrightarrow> k \<le> e \<Longrightarrow> 0 \<le> cmp (ielem es blk k) (ielem es blk p)"
  shows "sorted_seg es cmp blk b e"
proof -
  have up: "cmp (ielem es blk p) (ielem es blk k) \<le> 0" if "p < k" "k \<le> e" for k
    using assms(1-3) assms(7) [OF that] that flip [of "ielem es blk p" "ielem es blk k"] by auto
  have "cmp (ielem es blk i) (ielem es blk k) \<le> 0" if "b \<le> i" "i < p" "p < k" "k \<le> e" for i k
  proof -
    have "ielem es blk i \<in> A" "ielem es blk p \<in> A" "ielem es blk k \<in> A"
      using that assms(1-3) by auto
    then show ?thesis using assms(6) [OF that(1,2)] up [OF that(3,4)] by (rule trans)
  qed
  then have "\<forall>x \<in> set (seg es blk b (p - 1)). \<forall>y \<in> set (seg es blk (p + 1) e). cmp x y \<le> 0"
    by (auto simp: set_seg)
  moreover have "\<forall>x \<in> set (seg es blk b (p - 1)). cmp x (ielem es blk p) \<le> 0"
    using assms(6) by (auto simp: set_seg)
  moreover have "\<forall>y \<in> set (seg es blk (p + 1) e). cmp (ielem es blk p) y \<le> 0"
    using up by (auto simp: set_seg)
  ultimately show ?thesis
    using assms(4,5) unfolding sorted_seg_def seg_split3 [OF assms(1,2)]
    by (simp add: sorted_wrt_append)
qed

end

lemma do_qsort_correct:
  assumes "0 \<le> b" "e < int n" "n * es \<le> length blk"
    and "\<And>k. b \<le> k \<Longrightarrow> k \<le> e \<Longrightarrow> ielem es blk k \<in> A"
    and refl: "\<And>x. x \<in> A \<Longrightarrow> cmpfn x x \<le> 0"
  shows "\<exists>blk'. do_qsort blk b e es cmpfn = Inr blk' \<and> range_perm n es b e blk blk' \<and>
    (byte_comparator cmpfn A \<longrightarrow> sorted_seg es cmpfn blk' b e)"
  using assms(1-4)
proof (induction "nat (e - b + 1)" arbitrary: blk b e rule: less_induct)
  case (less b e blk)
  show ?case
  proof (cases "e \<le> b")
    case True
    then have "sorted_seg es cmpfn blk b e"
      by (cases "e = b") (auto simp: sorted_seg_def seg_Cons)
    with True show ?thesis by (subst do_qsort.simps) auto
  next
    case False
    have A: "\<And>k. b \<le> k \<Longrightarrow> k \<le> e \<Longrightarrow> ielem es blk k \<in> A" by (rule less.prems(4))
    have "cmpfn (ielem es blk b) (ielem es blk b) \<le> 0"
      using refl [OF A [of b]] False by simp
    then obtain blk1 p where run1: "my_partition blk b e es cmpfn = Inr (blk1, p)"
      and p: "b \<le> p" "p \<le> e" and perm1: "range_perm n es b e blk blk1"
      and lo: "\<And>k. b \<le> k \<Longrightarrow> k < p \<Longrightarrow> cmpfn (ielem es blk1 k) (ielem es blk1 p) \<le> 0"
      and hi: "\<And>k. p < k \<Longrightarrow> k \<le> e \<Longrightarrow> 0 \<le> cmpfn (ielem es blk1 k) (ielem es blk1 p)"
      using my_partition_correct [of b e n es blk cmpfn] less.prems False by auto
    have A1: "ielem es blk1 k \<in> A" if "b \<le> k" "k \<le> e" for k
      using range_perm_all [OF perm1, of "\<lambda>x. x \<in> A"] A that by blast
    have len1: "n * es \<le> length blk1" using range_perm_length [OF perm1] less.prems by simp
    have "\<exists>blk2. do_qsort blk1 b (p - 1) es cmpfn = Inr blk2 \<and>
      range_perm n es b (p - 1) blk1 blk2 \<and>
      (byte_comparator cmpfn A \<longrightarrow> sorted_seg es cmpfn blk2 b (p - 1))"
      using p less.prems len1 A1 by (intro less.hyps) auto
    then obtain blk2 where run2: "do_qsort blk1 b (p - 1) es cmpfn = Inr blk2"
      and perm2: "range_perm n es b (p - 1) blk1 blk2" and s2: "byte_comparator cmpfn A \<Longrightarrow> sorted_seg es cmpfn blk2 b (p - 1)"
      by blast
    have len2: "n * es \<le> length blk2" using range_perm_length [OF perm2] len1 by simp
    have out2: "ielem es blk2 k = ielem es blk1 k" if "p \<le> k" "k \<le> e" for k
      using that p less.prems by (intro range_perm_outside [OF perm2]) auto
    have "\<exists>blk3. do_qsort blk2 (p + 1) e es cmpfn = Inr blk3 \<and>
      range_perm n es (p + 1) e blk2 blk3 \<and>
      (byte_comparator cmpfn A \<longrightarrow> sorted_seg es cmpfn blk3 (p + 1) e)"
      using p less.prems len2 A1 by (intro less.hyps) (auto simp: out2)
    then obtain blk3 where run3: "do_qsort blk2 (p + 1) e es cmpfn = Inr blk3"
      and perm3: "range_perm n es (p + 1) e blk2 blk3" and s3: "byte_comparator cmpfn A \<Longrightarrow> sorted_seg es cmpfn blk3 (p + 1) e"
      by blast
    have out3: "ielem es blk3 k = ielem es blk2 k" if "b \<le> k" "k \<le> p" for k
      using that p less.prems by (intro range_perm_outside [OF perm3]) auto
    have perm: "range_perm n es b e blk blk3"
      using perm1 range_perm_widen [OF perm2, of b e] range_perm_widen [OF perm3, of b e] p less.prems
      by (auto intro: range_perm_trans)
    have "ielem es blk3 k \<in> A" if "b \<le> k" "k \<le> e" for k
      using range_perm_all [OF perm, of "\<lambda>x. x \<in> A"] A that by blast
    moreover have "sorted_seg es cmpfn blk3 b (p - 1)" if "byte_comparator cmpfn A"
      using s2 [OF that] seg_cong [of b "p - 1" es blk3 blk2] out3 p by (simp add: sorted_seg_def)
    moreover have at_p: "ielem es blk3 p = ielem es blk1 p"
      using out3 [of p] out2 [of p] p by simp
    have "cmpfn (ielem es blk3 k) (ielem es blk3 p) \<le> 0" if "b \<le> k" "k < p" for k
    proof -
      have "cmpfn (ielem es blk2 k) (ielem es blk1 p) \<le> 0"
        using range_perm_all [OF perm2, of "\<lambda>x. cmpfn x (ielem es blk1 p) \<le> 0" k] lo that by auto
      then show ?thesis using that out3 [of k] at_p by simp
    qed
    moreover have "0 \<le> cmpfn (ielem es blk3 k) (ielem es blk3 p)" if "p < k" "k \<le> e" for k
      using range_perm_all [OF perm3, of "\<lambda>x. 0 \<le> cmpfn x (ielem es blk1 p)" k] hi that out2 at_p by auto
    ultimately have "sorted_seg es cmpfn blk3 b e" if "byte_comparator cmpfn A"
      using byte_comparator.sorted_seg_join [OF that p, of es blk3] s3 that by blast
    moreover have "do_qsort blk b e es cmpfn = Inr blk3"
      using False run1 run2 run3 by (subst do_qsort.simps) simp
    ultimately show ?thesis using perm by blast
  qed
qed

lemma my_qsort_correct:
  assumes "n * es \<le> length blk" and "set (elems es n blk) \<subseteq> A" and "\<And>x. x \<in> A \<Longrightarrow> cmpfn x x \<le> 0"
  shows "\<exists>blk'. my_qsort blk (int n) es cmpfn = Inr blk' \<and> length blk' = length blk \<and>
    mset (elems es n blk') = mset (elems es n blk) \<and>
    (byte_comparator cmpfn A \<longrightarrow> sorted_wrt (\<lambda>x y. cmpfn x y \<le> 0) (elems es n blk'))"
proof -
  have "ielem es blk k \<in> A" if "0 \<le> k" "k \<le> int n - 1" for k
    using that assms(2) by (fastforce simp: seg_elems [symmetric] set_seg)
  with assms(1,3) obtain blk' where "do_qsort blk 0 (int n - 1) es cmpfn = Inr blk'"
    "range_perm n es 0 (int n - 1) blk blk'"
    "byte_comparator cmpfn A \<longrightarrow> sorted_seg es cmpfn blk' 0 (int n - 1)"
    using do_qsort_correct [of 0 "int n - 1" n es blk A cmpfn] by auto
  then show ?thesis
    by (auto simp: my_qsort_def range_perm_def sorted_seg_def seg_elems)
qed

section \<open>Merge sort: the code\<close>

text \<open>
  The first loop of \<open>do_merge\<close>, from iteration \<open>i\<close>, and the loop that copies \<open>tmp\<close> back.
  \<open>memcpy\<close> of one element is a read followed by a write.
\<close>

definition memcpy_elem :: "byte list \<Rightarrow> int \<Rightarrow> byte list \<Rightarrow> int \<Rightarrow> nat \<Rightarrow> byte list result" where
  "memcpy_elem dst d src s elem_size =
     rbind (rd s elem_size src) (\<lambda>bs. wr d bs dst)"

function merge_loop :: "byte list \<Rightarrow> byte list \<Rightarrow> int \<Rightarrow> int \<Rightarrow> int \<Rightarrow> int \<Rightarrow> int \<Rightarrow> int \<Rightarrow> nat \<Rightarrow> cmpfn \<Rightarrow> byte list result" where
  "merge_loop base tmp i from to middle left_index right_index elem_size cmpfn =
     (if i \<le> to - from then
        if left_index > middle then
          rbind (memcpy_elem tmp (get_elem i elem_size) base (get_elem right_index elem_size) elem_size) (\<lambda>tmp.
          merge_loop base tmp (i + 1) from to middle left_index (right_index + 1) elem_size cmpfn)
        else if right_index > to then
          rbind (memcpy_elem tmp (get_elem i elem_size) base (get_elem left_index elem_size) elem_size) (\<lambda>tmp.
          merge_loop base tmp (i + 1) from to middle (left_index + 1) right_index elem_size cmpfn)
        else
          rbind (cmp_at cmpfn base elem_size (get_elem left_index elem_size) (get_elem right_index elem_size)) (\<lambda>c.
          if c > 0 then
            rbind (memcpy_elem tmp (get_elem i elem_size) base (get_elem right_index elem_size) elem_size) (\<lambda>tmp.
            merge_loop base tmp (i + 1) from to middle left_index (right_index + 1) elem_size cmpfn)
          else
            rbind (memcpy_elem tmp (get_elem i elem_size) base (get_elem left_index elem_size) elem_size) (\<lambda>tmp.
            merge_loop base tmp (i + 1) from to middle (left_index + 1) right_index elem_size cmpfn))
      else Inr tmp)"
  by pat_completeness auto
termination
  by (relation "measure (\<lambda>(base, tmp, i, from, to, middle, left_index, right_index, es, cmpfn).
        nat (to - from + 1 - i))") auto

function copy_back :: "byte list \<Rightarrow> byte list \<Rightarrow> int \<Rightarrow> int \<Rightarrow> int \<Rightarrow> nat \<Rightarrow> byte list result" where
  "copy_back base tmp i from to elem_size =
     (if i \<le> to - from then
        rbind (memcpy_elem base (get_elem (from + i) elem_size) tmp (get_elem i elem_size) elem_size) (\<lambda>base.
        copy_back base tmp (i + 1) from to elem_size)
      else Inr base)"
  by pat_completeness auto
termination
  by (relation "measure (\<lambda>(base, tmp, i, from, to, es). nat (to - from + 1 - i))") auto

declare merge_loop.simps [simp del] copy_back.simps [simp del]

definition do_merge :: "allocator \<Rightarrow> byte list \<Rightarrow> int \<Rightarrow> int \<Rightarrow> nat \<Rightarrow> cmpfn \<Rightarrow> byte list result" where
  "do_merge H base from to elem_size cmpfn =
     (if from \<ge> to then Inr base
      else let middle = from + (to - from) div 2 in
        (case malloc H (nat (to - from + 1) * elem_size) of
           None \<Rightarrow> Inl AssertFailed
         | Some tmp \<Rightarrow>
             rbind (merge_loop base tmp 0 from to middle from (middle + 1) elem_size cmpfn) (\<lambda>tmp.
             copy_back base tmp 0 from to elem_size)))"

function do_my_merge_sort :: "allocator \<Rightarrow> byte list \<Rightarrow> int \<Rightarrow> int \<Rightarrow> nat \<Rightarrow> cmpfn \<Rightarrow> byte list result" where
  "do_my_merge_sort H base from to elem_size cmpfn =
     (if from \<ge> to then Inr base
      else if to - from = 1 then
        rbind (cmp_at cmpfn base elem_size (get_elem from elem_size) (get_elem to elem_size)) (\<lambda>c.
        if c > 0 then swap base from to elem_size else Inr base)
      else let middle = from + (to - from) div 2 in
        rbind (do_my_merge_sort H base from middle elem_size cmpfn) (\<lambda>base.
        rbind (do_my_merge_sort H base (middle + 1) to elem_size cmpfn) (\<lambda>base.
        do_merge H base from to elem_size cmpfn)))"
  by pat_completeness auto
termination
  by (relation "measure (\<lambda>(H, base, from, to, es, cmpfn). nat (to - from))") auto

declare do_my_merge_sort.simps [simp del]

definition my_merge_sort :: "allocator \<Rightarrow> byte list \<Rightarrow> int \<Rightarrow> nat \<Rightarrow> cmpfn \<Rightarrow> byte list result" where
  "my_merge_sort H base sz elem_size cmpfn = do_my_merge_sort H base 0 (sz - 1) elem_size cmpfn"

section \<open>The stable merge sort on lists\<close>

fun merge_ref :: "('a \<Rightarrow> 'a \<Rightarrow> int) \<Rightarrow> 'a list \<Rightarrow> 'a list \<Rightarrow> 'a list" where
  "merge_ref cmp [] ys = ys"
| "merge_ref cmp xs [] = xs"
| "merge_ref cmp (x # xs) (y # ys) =
     (if cmp x y > 0 then y # merge_ref cmp (x # xs) ys else x # merge_ref cmp xs (y # ys))"

fun msort_ref :: "('a \<Rightarrow> 'a \<Rightarrow> int) \<Rightarrow> 'a list \<Rightarrow> 'a list" where
  "msort_ref cmp xs =
     (if length xs \<le> 1 then xs
      else let h = Suc ((length xs - 1) div 2) in
        merge_ref cmp (msort_ref cmp (take h xs)) (msort_ref cmp (drop h xs)))"

declare msort_ref.simps [simp del]

lemma merge_ref_Nil2 [simp]: "merge_ref cmp xs [] = xs"
  by (cases xs) auto

lemma mset_merge_ref: "mset (merge_ref cmp xs ys) = mset xs + mset ys"
  by (induction cmp xs ys rule: merge_ref.induct) auto

lemma set_merge_ref: "set (merge_ref cmp xs ys) = set xs \<union> set ys"
  using mset_merge_ref [of cmp xs ys] by (metis set_mset_mset set_mset_union)

lemma length_merge_ref: "length (merge_ref cmp xs ys) = length xs + length ys"
  by (induction cmp xs ys rule: merge_ref.induct) auto

lemma mset_msort_ref: "mset (msort_ref cmp xs) = mset xs"
proof (induction cmp xs rule: msort_ref.induct)
  case (1 cmp xs)
  let ?h = "Suc ((length xs - 1) div 2)"
  have "mset (take ?h xs) + mset (drop ?h xs) = mset xs"
    by (metis append_take_drop_id mset_append)
  with 1 show ?case
    by (subst msort_ref.simps) (simp add: mset_merge_ref Let_def)
qed

lemma set_msort_ref: "set (msort_ref cmp xs) = set xs"
  by (metis mset_msort_ref set_mset_mset)

lemma length_msort_ref: "length (msort_ref cmp xs) = length xs"
  by (metis mset_msort_ref size_mset)

context comparator
begin

lemma sorted_merge_ref:
  assumes "set xs \<subseteq> A" "set ys \<subseteq> A"
    and "sorted_wrt (\<lambda>x y. cmp x y \<le> 0) xs" "sorted_wrt (\<lambda>x y. cmp x y \<le> 0) ys"
  shows "sorted_wrt (\<lambda>x y. cmp x y \<le> 0) (merge_ref cmp xs ys)"
  using assms
proof (induction "length xs + length ys" arbitrary: xs ys)
  case 0
  then show ?case by simp
next
  case (Suc d)
  show ?case
  proof (cases "xs = [] \<or> ys = []")
    case True
    with Suc.prems show ?thesis by auto
  next
    case False
    then obtain x xs' y ys' where xs: "xs = x # xs'" and ys: "ys = y # ys'"
      by (meson list.exhaust)
    show ?thesis
    proof (cases "cmp x y > 0")
      case True
      then have yx: "cmp y x \<le> 0" using flip [of y x] Suc.prems xs ys by auto
      have "cmp y z \<le> 0" if "z \<in> set xs'" for z
        using that Suc.prems xs ys yx trans [of y x z] by auto
      with True yx Suc.prems Suc.hyps(1) [of xs ys'] Suc.hyps(2) xs ys show ?thesis
        by (auto simp: set_merge_ref)
    next
      case False
      then have xy: "cmp x y \<le> 0" by simp
      have "cmp x z \<le> 0" if "z \<in> set ys'" for z
        using that Suc.prems xs ys xy trans [of x y z] by auto
      with False xy Suc.prems Suc.hyps(1) [of xs' ys] Suc.hyps(2) xs ys show ?thesis
        by (auto simp: set_merge_ref)
    qed
  qed
qed

lemma sorted_msort_ref: "set xs \<subseteq> A \<Longrightarrow> sorted_wrt (\<lambda>x y. cmp x y \<le> 0) (msort_ref cmp xs)"
proof (induction "length xs" arbitrary: xs rule: less_induct)
  case (less xs)
  let ?h = "Suc ((length xs - 1) div 2)"
  show ?case
  proof (cases "length xs \<le> 1")
    case True
    then have "xs = [] \<or> (\<exists>x. xs = [x])" by (cases xs) auto
    then show ?thesis by (subst msort_ref.simps) auto
  next
    case False
    have "set (take ?h xs) \<subseteq> A" "set (drop ?h xs) \<subseteq> A"
      using less.prems by (meson order_trans set_take_subset set_drop_subset)+
    moreover have "length (take ?h xs) < length xs" "length (drop ?h xs) < length xs"
      using False by auto
    ultimately have "sorted_wrt (\<lambda>x y. cmp x y \<le> 0) (merge_ref cmp (msort_ref cmp (take ?h xs)) (msort_ref cmp (drop ?h xs)))"
      using less.hyps by (intro sorted_merge_ref) (simp_all add: set_msort_ref)
    with False show ?thesis by (subst msort_ref.simps) (simp add: Let_def)
  qed
qed

text \<open>Elements that compare equal to \<open>k\<close> keep their order.\<close>

lemma stable_merge_ref:
  assumes "k \<in> A" "set xs \<subseteq> A" "set ys \<subseteq> A" "sorted_wrt (\<lambda>x y. cmp x y \<le> 0) xs"
  shows "filter (\<lambda>x. cmp x k = 0) (merge_ref cmp xs ys) =
    filter (\<lambda>x. cmp x k = 0) xs @ filter (\<lambda>x. cmp x k = 0) ys"
  using assms
proof (induction "length xs + length ys" arbitrary: xs ys)
  case 0
  then show ?case by simp
next
  case (Suc d)
  show ?case
  proof (cases "xs = [] \<or> ys = []")
    case True
    then show ?thesis by auto
  next
    case False
    then obtain x xs' y ys' where xs: "xs = x # xs'" and ys: "ys = y # ys'"
      by (meson list.exhaust)
    show ?thesis
    proof (cases "cmp x y > 0")
      case False
      with Suc.prems Suc.hyps(1) [of xs' ys] Suc.hyps(2) xs ys show ?thesis by simp
    next
      case True
      have none: "filter (\<lambda>x. cmp x k = 0) xs = []" if "cmp y k = 0"
      proof -
        have "cmp z k \<noteq> 0" if z: "z \<in> set xs" for z
        proof
          assume "cmp z k = 0"
          have in_A: "z \<in> A" "x \<in> A" "y \<in> A" using z Suc.prems xs ys by auto
          have "cmp x z \<le> 0" using z Suc.prems xs in_A cmp_refl [of x] by auto
          moreover have "cmp z k \<le> 0" using \<open>cmp z k = 0\<close> by simp
          ultimately have "cmp x k \<le> 0" using trans [of x z k] in_A Suc.prems(1) by blast
          moreover have "cmp k y \<le> 0"
            using flip [of k y] in_A Suc.prems(1) \<open>cmp y k = 0\<close> by simp
          ultimately have "cmp x y \<le> 0" using trans [of x k y] in_A Suc.prems(1) by blast
          with True show False by simp
        qed
        then show ?thesis by simp
      qed
      have "filter (\<lambda>x. cmp x k = 0) (merge_ref cmp xs ys') =
        filter (\<lambda>x. cmp x k = 0) xs @ filter (\<lambda>x. cmp x k = 0) ys'"
        using Suc.prems Suc.hyps(2) ys by (intro Suc.hyps(1)) auto
      with True none xs ys show ?thesis by auto
    qed
  qed
qed

lemma stable_msort_ref:
  "k \<in> A \<Longrightarrow> set xs \<subseteq> A \<Longrightarrow>
   filter (\<lambda>x. cmp x k = 0) (msort_ref cmp xs) = filter (\<lambda>x. cmp x k = 0) xs"
proof (induction "length xs" arbitrary: xs rule: less_induct)
  case (less xs)
  let ?h = "Suc ((length xs - 1) div 2)"
  show ?case
  proof (cases "length xs \<le> 1")
    case True
    then show ?thesis by (subst msort_ref.simps) simp
  next
    case False
    have sub: "set (take ?h xs) \<subseteq> A" "set (drop ?h xs) \<subseteq> A"
      using less.prems by (meson order_trans set_take_subset set_drop_subset)+
    have len: "length (take ?h xs) < length xs" "length (drop ?h xs) < length xs"
      using False by auto
    have "filter (\<lambda>x. cmp x k = 0) (merge_ref cmp (msort_ref cmp (take ?h xs)) (msort_ref cmp (drop ?h xs)))
      = filter (\<lambda>x. cmp x k = 0) (take ?h xs) @ filter (\<lambda>x. cmp x k = 0) (drop ?h xs)"
      using less.hyps [OF len(1) less.prems(1) sub(1)] less.hyps [OF len(2) less.prems(1) sub(2)] sub less.prems(1)
      by (simp add: stable_merge_ref set_msort_ref sorted_msort_ref)
    also have "\<dots> = filter (\<lambda>x. cmp x k = 0) xs"
      by (metis append_take_drop_id filter_append)
    finally show ?thesis using False by (subst msort_ref.simps) (simp add: Let_def)
  qed
qed

end

section \<open>Merge sort refines \<open>msort_ref\<close>\<close>

lemma memcpy_elem_correct:
  assumes "0 \<le> d" "d < int m" "m * es \<le> length dst" "0 \<le> s" "s < int n" "n * es \<le> length src"
  shows "memcpy_elem dst (get_elem d es) src (get_elem s es) es =
    Inr (overwrite (nat d * es) (ielem es src s) dst)"
  using assms wr_elem [of "nat d" m es dst "ielem es src s"]
  by (simp add: memcpy_elem_def get_elem_def rd_ielem [of _ n] nat_less_iff)

lemma seg_overwrite:
  assumes "0 \<le> d" "d < int m" "m * es \<le> length dst" "length bs = es" "0 \<le> b" "e < int m" "d < b \<or> e < d"
  shows "seg es (overwrite (nat d * es) bs dst) b e = seg es dst b e"
  using assms by (intro seg_cong) (auto simp: ielem_overwrite [of d m])

lemma merge_loop_correct:
  assumes "0 \<le> from" "from \<le> middle" "middle < to" "to < int n" "n * es \<le> length base"
    and "m = nat (to - from + 1)" "length tmp = m * es"
    and "from \<le> l" "l \<le> middle + 1" "middle + 1 \<le> r" "r \<le> to + 1"
    and "i = (l - from) + (r - middle - 1)"
  shows "\<exists>tmp'. merge_loop base tmp i from to middle l r es cmpfn = Inr tmp' \<and> length tmp' = m * es \<and>
    seg es tmp' 0 (i - 1) = seg es tmp 0 (i - 1) \<and>
    seg es tmp' i (to - from) = merge_ref cmpfn (seg es base l middle) (seg es base r to)"
  using assms(7-)
proof (induction "nat (to - from + 1 - i)" arbitrary: i l r tmp)
  case 0
  then have "l = middle + 1" "r = to + 1" using assms(2,3) by auto
  with 0 show ?case by (subst merge_loop.simps) auto
next
  case (Suc d)
  have i: "0 \<le> i" "i \<le> to - from" using Suc.hyps(2) Suc.prems by auto
  have im: "i < int m" using i assms(6) by simp
  \<comment> \<open>one iteration that copies element \<open>s\<close> and goes on with \<open>l'\<close>, \<open>r'\<close>\<close>
  have step: ?case
    if s: "0 \<le> s" "s < int n"
      and nxt: "from \<le> l'" "l' \<le> middle + 1" "middle + 1 \<le> r'" "r' \<le> to + 1" "i + 1 = (l' - from) + (r' - middle - 1)"
      and run: "merge_loop base tmp i from to middle l r es cmpfn =
        rbind (memcpy_elem tmp (get_elem i es) base (get_elem s es) es) (\<lambda>tmp.
          merge_loop base tmp (i + 1) from to middle l' r' es cmpfn)"
      and hd: "merge_ref cmpfn (seg es base l middle) (seg es base r to) =
        ielem es base s # merge_ref cmpfn (seg es base l' middle) (seg es base r' to)"
    for s l' r'
  proof -
    let ?bs = "ielem es base s"
    let ?tmp = "overwrite (nat i * es) ?bs tmp"
    have bs: "length ?bs = es" using s assms(5) by simp
    have len: "length ?tmp = m * es"
      using im i(1) Suc.prems(1) bs length_overwrite_elem [of "nat i" m es tmp ?bs] by (simp add: nat_less_iff)
    have cp: "memcpy_elem tmp (get_elem i es) base (get_elem s es) es = Inr ?tmp"
      using s i(1) im assms(5) Suc.prems(1) by (intro memcpy_elem_correct [of _ m _ _ _ n]) auto
    have "\<exists>tmp'. merge_loop base ?tmp (i + 1) from to middle l' r' es cmpfn = Inr tmp' \<and> length tmp' = m * es \<and>
      seg es tmp' 0 (i + 1 - 1) = seg es ?tmp 0 (i + 1 - 1) \<and>
      seg es tmp' (i + 1) (to - from) = merge_ref cmpfn (seg es base l' middle) (seg es base r' to)"
      using Suc.hyps(2) nxt len by (intro Suc.hyps(1)) auto
    then obtain tmp' where tmp': "merge_loop base ?tmp (i + 1) from to middle l' r' es cmpfn = Inr tmp'"
      "length tmp' = m * es" "seg es tmp' 0 i = seg es ?tmp 0 i"
      "seg es tmp' (i + 1) (to - from) = merge_ref cmpfn (seg es base l' middle) (seg es base r' to)"
      by auto
    have "ielem es ?tmp i = ?bs"
      using im i(1) Suc.prems(1) bs by (simp add: ielem_overwrite [of i m])
    moreover have "seg es ?tmp 0 (i - 1) = seg es tmp 0 (i - 1)"
      using im i(1) Suc.prems(1) bs by (intro seg_overwrite [of i m]) auto
    ultimately have "ielem es tmp' i = ?bs" "seg es tmp' 0 (i - 1) = seg es tmp 0 (i - 1)"
      using tmp'(3) i(1) by (simp_all add: seg_snoc [of 0 i])
    with tmp' run cp hd i show ?thesis by (auto simp: seg_Cons [of i])
  qed
  note unfold = merge_loop.simps [of base tmp i "from" to middle l r es cmpfn]
  consider "l > middle" | "l \<le> middle" "r > to" | "l \<le> middle" "r \<le> to" by linarith
  then show ?case
  proof cases
    case 1
    with Suc.prems i have "r \<le> to" by auto
    with 1 Suc.prems i assms(1-4) unfold show ?thesis
      by (intro step [of r l "r + 1"]) (auto simp: seg_Cons [of r])
  next
    case 2
    with Suc.prems i assms(1-4) unfold show ?thesis
      by (intro step [of l "l + 1" r]) (auto simp: seg_Cons [of l])
  next
    case 3
    have c: "cmp_at cmpfn base es (get_elem l es) (get_elem r es) = Inr (cmpfn (ielem es base l) (ielem es base r))"
      using 3 Suc.prems assms(1-5) by (simp add: get_elem_def cmp_at_ielem [of _ n])
    show ?thesis
    proof (cases "cmpfn (ielem es base l) (ielem es base r) > 0")
      case True
      with 3 c Suc.prems i assms(1-4) unfold show ?thesis
        by (intro step [of r l "r + 1"]) (auto simp: seg_Cons [of l] seg_Cons [of r])
    next
      case False
      with 3 c Suc.prems i assms(1-4) unfold show ?thesis
        by (intro step [of l "l + 1" r]) (auto simp: seg_Cons [of l] seg_Cons [of r])
    qed
  qed
qed

lemma copy_back_correct:
  assumes "0 \<le> from" "to < int n" "n * es \<le> length base" "length tmp = m * es" "m = nat (to - from + 1)" "0 \<le> i"
  shows "\<exists>base'. copy_back base tmp i from to es = Inr base' \<and> length base' = length base \<and>
    (\<forall>k. 0 \<le> k \<and> k < int n \<longrightarrow>
      ielem es base' k = (if from + i \<le> k \<and> k \<le> to then ielem es tmp (k - from) else ielem es base k))"
  using assms(3,6)
proof (induction "nat (to - from + 1 - i)" arbitrary: base i)
  case 0
  then show ?case by (subst copy_back.simps) auto
next
  case (Suc d)
  let ?base = "overwrite (nat (from + i) * es) (ielem es tmp i) base"
  have rng: "0 \<le> from + i" "from + i < int n" "i \<le> to - from" "i < int m"
    using Suc.hyps(2) Suc.prems assms(1,2,5) by auto
  have bs: "length (ielem es tmp i) = es"
    using Suc.prems rng(4) assms(4) by simp
  have len: "length ?base = length base"
    using rng Suc.prems bs length_overwrite_elem [of "nat (from + i)" n es base "ielem es tmp i"]
    by (simp add: nat_less_iff)
  have cp: "memcpy_elem base (get_elem (from + i) es) tmp (get_elem i es) es = Inr ?base"
    using rng Suc.prems assms(4) by (intro memcpy_elem_correct [of _ n _ _ _ m]) auto
  have "\<exists>base'. copy_back ?base tmp (i + 1) from to es = Inr base' \<and> length base' = length ?base \<and>
    (\<forall>k. 0 \<le> k \<and> k < int n \<longrightarrow>
      ielem es base' k = (if from + (i + 1) \<le> k \<and> k \<le> to then ielem es tmp (k - from) else ielem es ?base k))"
    using Suc.hyps(2) Suc.prems len by (intro Suc.hyps(1)) auto
  then obtain base' where r: "copy_back ?base tmp (i + 1) from to es = Inr base'" "length base' = length ?base"
    "\<And>k. 0 \<le> k \<Longrightarrow> k < int n \<Longrightarrow>
      ielem es base' k = (if from + (i + 1) \<le> k \<and> k \<le> to then ielem es tmp (k - from) else ielem es ?base k)"
    by blast
  have "ielem es base' k = (if from + i \<le> k \<and> k \<le> to then ielem es tmp (k - from) else ielem es base k)"
    if "0 \<le> k" "k < int n" for k
    using r(3) [OF that] ielem_overwrite [of "from + i" n k es base "ielem es tmp i"] that rng bs Suc.prems
    by auto
  moreover have "copy_back base tmp i from to es = Inr base'"
    using cp r(1) rng by (subst copy_back.simps) simp
  ultimately show ?case using r(2) len by auto
qed

lemma do_merge_correct:
  assumes "0 \<le> from" "from < to" "to < int n" "n * es \<le> length base"
    and "middle = from + (to - from) div 2" and "grants H (nat (to - from + 1) * es)"
  shows "\<exists>base'. do_merge H base from to es cmpfn = Inr base' \<and> range_perm n es from to base base' \<and>
    seg es base' from to = merge_ref cmpfn (seg es base from middle) (seg es base (middle + 1) to)"
proof -
  define m where "m = nat (to - from + 1)"
  obtain tmp where tmp: "malloc H (nat (to - from + 1) * es) = Some tmp"
    using assms(6) by (simp add: malloc_def)
  then have len: "length tmp = m * es" using length_malloc m_def by blast
  have mid: "from \<le> middle" "middle < to" using assms(2,5) by auto
  obtain tmp' where loop: "merge_loop base tmp 0 from to middle from (middle + 1) es cmpfn = Inr tmp'"
    and len': "length tmp' = m * es"
    and merged: "seg es tmp' 0 (to - from) = merge_ref cmpfn (seg es base from middle) (seg es base (middle + 1) to)"
    using merge_loop_correct [of "from" middle to n es base m tmp "from" "middle + 1" 0 cmpfn] assms mid m_def len
    by auto
  obtain base' where cb: "copy_back base tmp' 0 from to es = Inr base'" "length base' = length base"
    and at: "\<And>k. 0 \<le> k \<Longrightarrow> k < int n \<Longrightarrow>
      ielem es base' k = (if from \<le> k \<and> k \<le> to then ielem es tmp' (k - from) else ielem es base k)"
    using copy_back_correct [of "from" to n es base tmp' m 0] assms len' m_def by auto
  have "seg es base' from to = seg es tmp' 0 (to - from)"
    using assms by (intro nth_equalityI) (auto simp: seg_def at)
  with merged have seg: "seg es base' from to =
      merge_ref cmpfn (seg es base from middle) (seg es base (middle + 1) to)" by simp
  moreover have "mset (seg es base' from to) = mset (seg es base from to)"
    using seg seg_split [of "from" middle to es base] mid by (simp add: mset_merge_ref)
  ultimately have "range_perm n es from to base base'"
    using cb(2) at by (auto simp: range_perm_def)
  moreover have "do_merge H base from to es cmpfn = Inr base'"
    using assms(2,5) tmp loop cb(1) by (simp add: do_merge_def)
  ultimately show ?thesis using seg by blast
qed

lemma msort_ref_step:
  "1 < length xs \<Longrightarrow> msort_ref cmp xs =
    merge_ref cmp (msort_ref cmp (take (Suc ((length xs - 1) div 2)) xs))
      (msort_ref cmp (drop (Suc ((length xs - 1) div 2)) xs))"
  by (subst msort_ref.simps) (simp add: Let_def)

lemma msort_ref_pair: "msort_ref cmp [x, y] = (if cmp x y > 0 then [y, x] else [x, y])"
  by (simp add: msort_ref.simps)

lemma take_seg: "b \<le> m + 1 \<Longrightarrow> m \<le> e \<Longrightarrow> take (nat (m - b + 1)) (seg es blk b e) = seg es blk b m"
  by (simp add: seg_split [of b m e])

lemma drop_seg: "b \<le> m + 1 \<Longrightarrow> m \<le> e \<Longrightarrow> drop (nat (m - b + 1)) (seg es blk b e) = seg es blk (m + 1) e"
  by (simp add: seg_split [of b m e])

lemma do_my_merge_sort_correct:
  assumes "0 \<le> from" "to < int n" "n * es \<le> length base" and H: "\<And>k. k \<le> n \<Longrightarrow> grants H (k * es)"
  shows "\<exists>base'. do_my_merge_sort H base from to es cmpfn = Inr base' \<and>
    range_perm n es from to base base' \<and> seg es base' from to = msort_ref cmpfn (seg es base from to)"
  using assms(1-3)
proof (induction "nat (to - from)" arbitrary: base "from" to rule: less_induct)
  case (less "from" to base)
  consider "to \<le> from" | "to = from + 1" | "from + 1 < to" by linarith
  then show ?case
  proof cases
    case 1
    then have "nat (to - from + 1) \<le> 1" by simp
    then have "msort_ref cmpfn (seg es base from to) = seg es base from to"
      by (subst msort_ref.simps) simp
    with 1 show ?thesis by (subst do_my_merge_sort.simps) auto
  next
    case 2
    let ?x = "ielem es base from" and ?y = "ielem es base to"
    have pair: "seg es blk from to = [ielem es blk from, ielem es blk to]" for blk
      using 2 by (simp add: seg_Cons)
    have c: "cmp_at cmpfn base es (get_elem from es) (get_elem to es) = Inr (cmpfn ?x ?y)"
      using 2 less.prems by (simp add: get_elem_def cmp_at_ielem [of _ n])
    show ?thesis
    proof (cases "cmpfn ?x ?y > 0")
      case False
      with c 2 have "do_my_merge_sort H base from to es cmpfn = Inr base"
        by (subst do_my_merge_sort.simps) simp
      with False show ?thesis by (simp add: pair msort_ref_pair)
    next
      case True
      let ?b = "swap_blk es base from to"
      have "swap base from to es = Inr ?b"
        using 2 less.prems by (intro swap_eq) auto
      with c 2 True have "do_my_merge_sort H base from to es cmpfn = Inr ?b"
        by (subst do_my_merge_sort.simps) simp
      moreover have "range_perm n es from to base ?b"
        using 2 less.prems by (intro swap_blk_range_perm) auto
      moreover have "seg es ?b from to = [?y, ?x]"
        using less.prems ielem_swap_blk [of "from" n to] unfolding pair by (simp add: 2)
      ultimately show ?thesis using True by (simp add: pair msort_ref_pair)
    qed
  next
    case 3
    define middle where "middle = from + (to - from) div 2"
    have mid: "from \<le> middle" "middle < to" using 3 by (auto simp: middle_def)
    obtain b1 where r1: "do_my_merge_sort H base from middle es cmpfn = Inr b1"
      and p1: "range_perm n es from middle base b1"
      and s1: "seg es b1 from middle = msort_ref cmpfn (seg es base from middle)"
      using less.hyps [of middle "from" base] mid less.prems by auto
    have len1: "n * es \<le> length b1" using range_perm_length [OF p1] less.prems by simp
    obtain b2 where r2: "do_my_merge_sort H b1 (middle + 1) to es cmpfn = Inr b2"
      and p2: "range_perm n es (middle + 1) to b1 b2"
      and s2: "seg es b2 (middle + 1) to = msort_ref cmpfn (seg es b1 (middle + 1) to)"
      using less.hyps [of to "middle + 1" b1] mid less.prems len1 by auto
    have len2: "n * es \<le> length b2" using range_perm_length [OF p2] len1 by simp
    have "grants H (nat (to - from + 1) * es)" using less.prems by (intro H) auto
    then obtain b3 where r3: "do_merge H b2 from to es cmpfn = Inr b3" and p3: "range_perm n es from to b2 b3"
      and s3: "seg es b3 from to = merge_ref cmpfn (seg es b2 from middle) (seg es b2 (middle + 1) to)"
      using do_merge_correct [of "from" to n es b2 middle H cmpfn] mid less.prems len2 middle_def by auto
    have left: "seg es b2 from middle = seg es b1 from middle"
      using mid less.prems by (intro range_perm_seg_outside [OF p2]) auto
    have right: "seg es b1 (middle + 1) to = seg es base (middle + 1) to"
      using mid less.prems by (intro range_perm_seg_outside [OF p1]) auto
    have "range_perm n es from to base b3"
      using range_perm_widen [OF p1, of "from" to] range_perm_widen [OF p2, of "from" to] p3 mid less.prems
      by (auto intro: range_perm_trans)
    moreover have "do_my_merge_sort H base from to es cmpfn = Inr b3"
      using 3 r1 r2 r3 by (subst do_my_merge_sort.simps) (simp add: middle_def Let_def)
    moreover have "seg es b3 from to = msort_ref cmpfn (seg es base from to)"
    proof -
      have h: "Suc ((length (seg es base from to) - 1) div 2) = nat (middle - from + 1)"
        using 3 by (simp add: middle_def nat_div_distrib Suc_nat_eq_nat_zadd1 nat_diff_distrib' algebra_simps)
      have "msort_ref cmpfn (seg es base from to) =
        merge_ref cmpfn (msort_ref cmpfn (take (nat (middle - from + 1)) (seg es base from to)))
          (msort_ref cmpfn (drop (nat (middle - from + 1)) (seg es base from to)))"
        using 3 msort_ref_step [of "seg es base from to" cmpfn] unfolding h by simp
      then have "msort_ref cmpfn (seg es base from to) =
        merge_ref cmpfn (msort_ref cmpfn (seg es base from middle)) (msort_ref cmpfn (seg es base (middle + 1) to))"
        using mid by (simp add: take_seg drop_seg)
      then show ?thesis using s1 s2 s3 left right by simp
    qed
    ultimately show ?thesis by blast
  qed
qed

lemma my_merge_sort_correct:
  assumes "n * es \<le> length blk" and "\<And>k. k \<le> n \<Longrightarrow> grants H (k * es)"
  shows "\<exists>blk'. my_merge_sort H blk (int n) es cmpfn = Inr blk' \<and> length blk' = length blk \<and>
    elems es n blk' = msort_ref cmpfn (elems es n blk)"
  using do_my_merge_sort_correct [of 0 "int n - 1" n es blk H cmpfn] assms
  by (auto simp: my_merge_sort_def seg_elems range_perm_def)

section \<open>The properties\<close>

interpretation cint_bytes: byte_comparator cmp_int small_ints
  by unfold_locales

interpretation cstring_bytes: byte_comparator "cmp_string deref" "{p. c_string (deref p)}" for deref
  by unfold_locales





text \<open>A concrete array, of the integers 3, 1, 2 and one byte that belongs to no element.\<close>

definition sample_array :: "byte list" where
  "sample_array = [3, 0, 0, 0, 1, 0, 0, 0, 2, 0, 0, 0, 77]"

definition roomy :: allocator where
  "roomy = \<lparr>grants = \<lambda>_. True, junk = \<lambda>_. 170\<rparr>"

lemma sample_elems: "elems 4 3 sample_array = [[3, 0, 0, 0], [1, 0, 0, 0], [2, 0, 0, 0]]"
  by code_simp

lemma sample_length [simp]: "length sample_array = 13"
  by (simp add: sample_array_def)

lemma sample_small: "set (elems 4 3 sample_array) \<subseteq> small_ints"
  by (simp add: sample_elems small_ints_def load_int_def)





end
