(* ===== verification/Growable.thy ===== *)
theory Growable
  imports CMem
begin

text \<open>
  The growable buffer that my_array_list.c and mystack.h both implement: a block of \<open>cap\<close>
  elements of which the first \<open>len\<close> are in use, doubled by \<open>realloc\<close> when it is full. Here are
  the shared lemmas about such a block, and the contract (\<open>growable\<close>) that both components
  provide and from which the behaviour of a loop of insertions follows.
\<close>

section \<open>The block\<close>

text \<open>\<open>block_ok es cap len blk\<close>: a block for \<open>cap\<close> elements, \<open>len\<close> of them in use, of int size.\<close>

definition block_ok :: "int \<Rightarrow> int \<Rightarrow> int \<Rightarrow> byte list \<Rightarrow> bool" where
  "block_ok es cap len blk \<longleftrightarrow>
     0 < es \<and> 0 \<le> len \<and> len \<le> cap \<and> 0 < cap \<and> cap * es \<le> INT_MAX \<and>
     length blk = nat cap * nat es"

definition contents_of :: "int \<Rightarrow> int \<Rightarrow> byte list \<Rightarrow> byte list list" where
  "contents_of es len blk = elems (nat es) (nat len) blk"

lemma block_okD:
  "block_ok es cap len blk \<Longrightarrow> 0 < es \<and> 0 \<le> len \<and> len \<le> cap \<and> 0 < cap \<and> cap * es \<le> INT_MAX"
  by (simp add: block_ok_def)

lemma block_ok_cap: "block_ok es cap len blk \<Longrightarrow> cap \<le> INT_MAX"
proof -
  assume ok: "block_ok es cap len blk"
  then have "cap * 1 \<le> cap * es" by (intro mult_left_mono) (auto simp: block_ok_def)
  with block_okD [OF ok] show ?thesis by linarith
qed

lemma offset_in_int:
  assumes "block_ok es cap len blk" "0 \<le> i" "i \<le> cap"
  shows "in_int (i * es)"
proof -
  have "i * es \<le> cap * es" "0 \<le> i * es"
    using assms by (auto simp: block_ok_def intro: mult_right_mono)
  with block_okD [OF assms(1)] show ?thesis unfolding in_int_def INT_MIN_def by linarith
qed

lemma block_fits: "block_ok es cap len blk \<Longrightarrow> nat len * nat es \<le> length blk"
  by (auto simp: block_ok_def intro: mult_le_mono nat_mono)

lemma block_wr:
  assumes "block_ok es cap len blk" "0 \<le> i" "i < cap" "length bs = nat es"
  shows "wr (i * es) bs blk = Inr (overwrite (nat i * nat es) bs blk)"
  using assms wr_elem [of "nat i" "nat cap" "nat es" blk bs]
  by (auto simp: block_ok_def)

lemma block_rd:
  assumes "block_ok es cap len blk" "0 \<le> i" "i < cap"
  shows "rd (i * es) (nat es) blk = Inr (elem (nat es) blk (nat i))"
  using assms rd_elem [of "nat i" "nat cap" "nat es" blk]
  by (auto simp: block_ok_def)

lemma block_ok_overwrite:
  assumes "block_ok es cap len blk" "0 \<le> i" "i < cap" "length bs = nat es"
  shows "block_ok es cap len (overwrite (nat i * nat es) bs blk)"
  using assms length_overwrite_elem [of "nat i" "nat cap" "nat es" blk bs]
  by (auto simp: block_ok_def)

lemma block_ok_len: "block_ok es cap len blk \<Longrightarrow> 0 \<le> len' \<Longrightarrow> len' \<le> cap \<Longrightarrow> block_ok es cap len' blk"
  by (simp add: block_ok_def)

text \<open>Appending writes element \<open>len\<close> and counts it.\<close>

lemma contents_append:
  assumes "block_ok es cap len blk" "len < cap" "length bs = nat es"
  shows "contents_of es (len + 1) (overwrite (nat len * nat es) bs blk) = contents_of es len blk @ [bs]"
proof -
  let ?blk = "overwrite (nat len * nat es) bs blk"
  have n: "nat (len + 1) = Suc (nat len)" using assms by (simp add: block_ok_def Suc_nat_eq_nat_zadd1)
  have len: "nat len < nat cap" "nat cap * nat es \<le> length blk"
    using assms by (auto simp: block_ok_def)
  have el: "elem (nat es) ?blk j = (if j = nat len then bs else elem (nat es) blk j)" if "j < nat cap" for j
    using len that assms(3) by (simp add: elem_overwrite [of "nat len" "nat cap" j])
  have "elems (nat es) (nat len) ?blk = elems (nat es) (nat len) blk"
    using el len by (intro nth_equalityI) auto
  with el len show ?thesis by (simp add: contents_of_def n elems_Suc)
qed

text \<open>Growing keeps the elements.\<close>

lemma contents_realloc:
  assumes "block_ok es cap len blk" "realloc H blk (nat (cap * 2 * es)) = Some blk'"
  shows "contents_of es len blk' = contents_of es len blk"
proof -
  have sz: "length blk = nat cap * nat es" "nat (cap * 2 * es) = 2 * (nat cap * nat es)"
    using assms(1) by (auto simp: block_ok_def nat_mult_distrib)
  have keep: "take (length blk) blk' = blk"
    using realloc_keeps [OF assms(2)] sz by simp
  have "elem (nat es) blk' i = elem (nat es) blk i" if "i < nat len" for i
    using that block_fits [OF assms(1)] elem_fits [of i "nat len" "nat es" blk] keep
    by (intro elem_prefix [of "length blk"]) auto
  then show ?thesis by (intro nth_equalityI) (auto simp: contents_of_def)
qed

lemma block_ok_realloc:
  assumes "block_ok es cap len blk" "in_int (cap * 2 * es)" "realloc H blk (nat (cap * 2 * es)) = Some blk'"
  shows "block_ok es (cap * 2) len blk'"
  using assms length_realloc [OF assms(3)]
  by (auto simp: block_ok_def in_int_def nat_mult_distrib)

section \<open>The contract\<close>

text \<open>
  A provider has a state whose elements are \<open>contents\<close>, an invariant, and an insertion that may
  fail (no memory, size overflow) but, when it returns, has appended the value's bytes.
\<close>

locale growable =
  fixes inv :: "'s \<Rightarrow> bool" and contents :: "'s \<Rightarrow> byte list list" and width :: "'s \<Rightarrow> nat"
    and insert :: "'s \<Rightarrow> byte list \<Rightarrow> 's result"
  assumes insert_inv: "inv s \<Longrightarrow> width s \<le> length v \<Longrightarrow> insert s v = Inr s' \<Longrightarrow> inv s'"
    and insert_contents: "inv s \<Longrightarrow> width s \<le> length v \<Longrightarrow> insert s v = Inr s' \<Longrightarrow>
      contents s' = contents s @ [take (width s) v]"
    and insert_width: "inv s \<Longrightarrow> insert s v = Inr s' \<Longrightarrow> width s' = width s"

text \<open>The insertion loop of the drivers: one insertion per value, stopping at a fault.\<close>

fun insert_all :: "('s \<Rightarrow> byte list \<Rightarrow> 's result) \<Rightarrow> 's \<Rightarrow> byte list list \<Rightarrow> 's result" where
  "insert_all ins s [] = Inr s"
| "insert_all ins s (v # vs) = rbind (ins s v) (\<lambda>s. insert_all ins s vs)"

context growable
begin

lemma insert_all_inv_contents:
  "inv s \<Longrightarrow> (\<forall>v \<in> set vs. length v = width s) \<Longrightarrow> insert_all insert s vs = Inr s' \<Longrightarrow>
   inv s' \<and> contents s' = contents s @ vs \<and> width s' = width s"
proof (induction vs arbitrary: s)
  case Nil
  then show ?case by simp
next
  case (Cons v vs)
  then obtain s1 where s1: "insert s v = Inr s1" "insert_all insert s1 vs = Inr s'"
    by (auto simp: rbind_eq_Inr)
  with Cons.prems have "inv s1" "contents s1 = contents s @ [v]" "width s1 = width s"
    using insert_inv [of s v s1] insert_contents [of s v s1] insert_width [of s v s1] by auto
  with Cons s1 show ?case by auto
qed

end

section \<open>Capacity, messages of growth, and when insertion succeeds\<close>

text \<open>Room for a block of \<open>n\<close> bytes: its size is an \<open>int\<close>, and the allocator grants it.\<close>

definition has_room :: "allocator \<Rightarrow> int \<Rightarrow> bool" where
  "has_room H n \<longleftrightarrow> in_int n \<and> grants H (nat n)"

text \<open>
  A container prints a line when it grows. \<open>insert_text\<close> is the drivers' loop with the text its
  insertions print; \<open>msg\<close> is what the next insertion into a container prints.
\<close>

fun insert_text ::
  "('s \<Rightarrow> 'c list) \<Rightarrow> ('s \<Rightarrow> byte list \<Rightarrow> 's result) \<Rightarrow> 's \<Rightarrow> byte list list \<Rightarrow> ('s \<times> 'c list) result" where
  "insert_text msg ins s [] = Inr (s, [])"
| "insert_text msg ins s (v # vs) =
     rbind (ins s v) (\<lambda>s'. rbind (insert_text msg ins s' vs) (\<lambda>(s'', t). Inr (s'', msg s @ t)))"

text \<open>The lines printed while a capacity \<open>c\<close> is doubled until it holds \<open>n\<close>.\<close>

function growths :: "(int \<Rightarrow> 'c list) \<Rightarrow> int \<Rightarrow> int \<Rightarrow> 'c list" where
  "growths line c n = (if 0 < c \<and> c < n then line (c * 2) @ growths line (c * 2) n else [])"
  by pat_completeness auto
termination
  by (relation "measure (\<lambda>(line, c, n). nat (n - c))") auto

declare growths.simps [simp del]

text \<open>
  A growable container with a capacity: insertion succeeds unless the doubled block has no room, and
  doubles exactly when the container is full.
\<close>

locale sized_growable = growable inv contents width insert
  for inv :: "'s \<Rightarrow> bool" and contents :: "'s \<Rightarrow> byte list list" and width :: "'s \<Rightarrow> nat"
    and insert :: "'s \<Rightarrow> byte list \<Rightarrow> 's result" +
  fixes cap :: "'s \<Rightarrow> int" and len :: "'s \<Rightarrow> int" and room :: "int \<Rightarrow> bool"
  assumes cap_len: "inv s \<Longrightarrow> 0 \<le> len s \<and> len s \<le> cap s \<and> 0 < cap s"
    and insert_cap: "inv s \<Longrightarrow> width s \<le> length v \<Longrightarrow> insert s v = Inr s' \<Longrightarrow>
      cap s' = (if len s = cap s then cap s * 2 else cap s) \<and> len s' = len s + 1"
    and insert_total: "inv s \<Longrightarrow> width s \<le> length v \<Longrightarrow>
      (len s = cap s \<Longrightarrow> room (cap s * 2 * int (width s))) \<Longrightarrow> \<exists>s'. insert s v = Inr s'"
begin

lemma insert_text_runs:
  assumes "inv s" and "\<forall>v \<in> set vs. length v = width s"
    and "\<And>m. 0 \<le> m \<Longrightarrow> m < 2 * (len s + int (length vs)) \<Longrightarrow> room (m * int (width s))"
    and msg: "\<And>s. msg s = (if len s = cap s then line (cap s * 2) else [])"
  shows "\<exists>s'. insert_text msg insert s vs = Inr (s', growths line (cap s) (len s + int (length vs))) \<and>
    inv s' \<and> contents s' = contents s @ vs \<and> width s' = width s \<and> len s' = len s + int (length vs)"
  using assms(1-3)
proof (induction vs arbitrary: s)
  case Nil
  with cap_len [of s] show ?case by (simp add: growths.simps [of line "cap s"])
next
  case (Cons v vs)
  have w: "width s \<le> length v" using Cons.prems(2) by simp
  have "\<exists>s1. insert s v = Inr s1"
    using Cons.prems(1) cap_len [of s] by (intro insert_total [OF Cons.prems(1) w] Cons.prems(3)) auto
  then obtain s1 where s1: "insert s v = Inr s1" ..
  have s1_props: "inv s1" "contents s1 = contents s @ [v]" "width s1 = width s"
    "cap s1 = (if len s = cap s then cap s * 2 else cap s)" "len s1 = len s + 1"
    using s1 Cons.prems(1,2) w insert_inv [of s v s1] insert_contents [of s v s1] insert_width [of s v s1]
      insert_cap [of s v s1] by auto
  obtain s' where s': "insert_text msg insert s1 vs = Inr (s', growths line (cap s1) (len s1 + int (length vs)))"
    "inv s'" "contents s' = contents s1 @ vs" "width s' = width s1" "len s' = len s1 + int (length vs)"
    using Cons.IH [of s1] Cons.prems s1_props by auto
  have "msg s @ growths line (cap s1) (len s1 + int (length vs)) = growths line (cap s) (len s + int (length (v # vs)))"
    using msg [of s] s1_props(4,5) cap_len [OF Cons.prems(1)]
    by (cases "len s = cap s") (simp_all add: growths.simps [of line "cap s"] add_ac)
  with s1 s' s1_props show ?case by auto
qed

end

end
