(* ===== verification/ArrayList.thy ===== *)
theory ArrayList
  imports Growable Comparator
begin

text \<open>
  my_array_list.c: the array list over untyped elements. The struct is the record
  \<open>my_array_list\<close>; every operation returns the new struct or the fault that stops it (a failed
  \<open>assert\<close>, an access outside the block, a size that overflows \<open>int\<close>). The progress message of
  \<open>list_grow\<close> is \<open>list_msg\<close> of Drivers; what the printing function prints is its own affair.

  The lemmas: the invariant \<open>list_inv\<close>, the elements each operation leaves (\<open>list_abs\<close>), and the
  cases in which it faults.
\<close>

record my_array_list =
  l_values :: "byte list"
  l_elem_size :: int
  l_size :: int
  l_current_size :: int

section \<open>The code\<close>

definition list_new :: "allocator \<Rightarrow> int \<Rightarrow> int \<Rightarrow> my_array_list result" where
  "list_new H sz elem_size =
     rassert (sz > 0 \<and> elem_size > 0)
       (rbind (cint (sz * elem_size)) (\<lambda>bytes.
        case malloc H (nat bytes) of
          None \<Rightarrow> Inl AssertFailed
        | Some blk \<Rightarrow>
            Inr \<lparr>l_values = blk, l_elem_size = elem_size, l_size = sz, l_current_size = 0\<rparr>))"

definition list_grow :: "allocator \<Rightarrow> my_array_list \<Rightarrow> my_array_list result" where
  "list_grow H l =
     rbind (cint (l_size l * 2)) (\<lambda>sz.
     rbind (cint (sz * l_elem_size l)) (\<lambda>bytes.
     case realloc H (l_values l) (nat bytes) of
       None \<Rightarrow> Inl AssertFailed
     | Some blk \<Rightarrow> Inr (l\<lparr>l_size := sz, l_values := blk\<rparr>)))"

text \<open>\<open>value_addr\<close> is the memory the caller's pointer refers to.\<close>

definition list_add :: "allocator \<Rightarrow> my_array_list \<Rightarrow> byte list \<Rightarrow> my_array_list result" where
  "list_add H l value_addr =
     rbind (if l_current_size l = l_size l then list_grow H l else Inr l) (\<lambda>l.
     rbind (cint (l_current_size l * l_elem_size l)) (\<lambda>target.
     rbind (rd 0 (nat (l_elem_size l)) value_addr) (\<lambda>bs.
     rbind (wr target bs (l_values l)) (\<lambda>blk.
     rbind (cint (l_current_size l + 1)) (\<lambda>n.
     Inr (l\<lparr>l_values := blk, l_current_size := n\<rparr>))))))"

text \<open>The shifting loop of \<open>list_remove\<close>, from index \<open>i\<close>; it breaks at the last element.\<close>

function remove_loop :: "byte list \<Rightarrow> int \<Rightarrow> int \<Rightarrow> int \<Rightarrow> byte list result" where
  "remove_loop blk i current_size elem_size =
     (if i < current_size then
        if i = current_size - 1 then Inr blk
        else
          rbind (cint (i * elem_size)) (\<lambda>target.
          rbind (cint ((i + 1) * elem_size)) (\<lambda>source.
          rbind (rd source (nat elem_size) blk) (\<lambda>bs.
          rbind (wr target bs blk) (\<lambda>blk.
          remove_loop blk (i + 1) current_size elem_size))))
      else Inr blk)"
  by pat_completeness auto
termination
  by (relation "measure (\<lambda>(blk, i, n, es). nat (n - i))") auto

declare remove_loop.simps [simp del]

definition list_remove :: "my_array_list \<Rightarrow> int \<Rightarrow> (my_array_list \<times> int) result" where
  "list_remove l index =
     rassert (index < l_current_size l \<and> index \<ge> 0)
       (rbind (remove_loop (l_values l) index (l_current_size l) (l_elem_size l)) (\<lambda>blk.
        Inr (l\<lparr>l_values := blk, l_current_size := l_current_size l - 1\<rparr>, 1)))"

function contain_loop :: "(byte list \<Rightarrow> byte list \<Rightarrow> int) \<Rightarrow> my_array_list \<Rightarrow> byte list \<Rightarrow> int \<Rightarrow> int result" where
  "contain_loop cmpfn l v i =
     (if i < l_current_size l then
        rbind (cint (i * l_elem_size l)) (\<lambda>target.
        rbind (rd target (nat (l_elem_size l)) (l_values l)) (\<lambda>bs.
        if cmpfn v bs = 0 then Inr i else contain_loop cmpfn l v (i + 1)))
      else Inr (- 1))"
  by pat_completeness auto
termination
  by (relation "measure (\<lambda>(cmpfn, l, v, i). nat (l_current_size l - i))") auto

declare contain_loop.simps [simp del]

definition list_contain :: "my_array_list \<Rightarrow> byte list \<Rightarrow> (byte list \<Rightarrow> byte list \<Rightarrow> int) \<Rightarrow> int result" where
  "list_contain l v cmpfn = contain_loop cmpfn l v 0"

definition list_remove_val ::
  "my_array_list \<Rightarrow> byte list \<Rightarrow> (byte list \<Rightarrow> byte list \<Rightarrow> int) \<Rightarrow> (my_array_list \<times> int) result" where
  "list_remove_val l v cmpfn =
     rbind (list_contain l v cmpfn) (\<lambda>index.
     if index < 0 then Inr (l, - 1) else list_remove l index)"

text \<open>\<open>list_get\<close> returns an address: the offset into \<open>values\<close>.\<close>

definition list_get :: "my_array_list \<Rightarrow> int \<Rightarrow> int result" where
  "list_get l index =
     rassert (index < l_current_size l \<and> index \<ge> 0) (cint (index * l_elem_size l))"

text \<open>What \<open>list_print\<close> hands to \<open>print_elem_value\<close>, in order: the bytes of each element.\<close>

function print_loop :: "my_array_list \<Rightarrow> int \<Rightarrow> byte list list result" where
  "print_loop l i =
     (if i < l_current_size l then
        rbind (cint (i * l_elem_size l)) (\<lambda>target.
        rbind (rd target (nat (l_elem_size l)) (l_values l)) (\<lambda>bs.
        rbind (print_loop l (i + 1)) (\<lambda>bss. Inr (bs # bss))))
      else Inr [])"
  by pat_completeness auto
termination
  by (relation "measure (\<lambda>(l, i). nat (l_current_size l - i))") auto

declare print_loop.simps [simp del]

definition list_print :: "my_array_list \<Rightarrow> byte list list result" where
  "list_print l = print_loop l 0"

definition list_dispose :: "my_array_list \<Rightarrow> my_array_list" where
  "list_dispose l = l\<lparr>l_values := []\<rparr>"

section \<open>Invariant and contents\<close>

definition list_inv :: "my_array_list \<Rightarrow> bool" where
  "list_inv l \<longleftrightarrow> block_ok (l_elem_size l) (l_size l) (l_current_size l) (l_values l)"

definition list_abs :: "my_array_list \<Rightarrow> byte list list" where
  "list_abs l = contents_of (l_elem_size l) (l_current_size l) (l_values l)"

lemma length_list_abs: "length (list_abs l) = nat (l_current_size l)"
  by (simp add: list_abs_def contents_of_def)

lemma list_new_ok:
  "list_new H sz es = Inr l \<Longrightarrow> list_inv l \<and> list_abs l = [] \<and> l_elem_size l = es \<and> l_size l = sz"
  by (auto simp: list_new_def rassert_eq_Inr rbind_eq_Inr cint_eq_Inr list_inv_def list_abs_def
      contents_of_def block_ok_def in_int_def elems_def nat_mult_distrib
      dest!: length_malloc split: option.splits)

lemma list_grow_ok:
  assumes "list_inv l" "list_grow H l = Inr l'"
  shows "list_inv l' \<and> list_abs l' = list_abs l \<and> l_elem_size l' = l_elem_size l \<and>
    l_size l' = 2 * l_size l \<and> l_current_size l' = l_current_size l"
  using assms
  by (auto simp: list_grow_def rbind_eq_Inr cint_eq_Inr list_inv_def list_abs_def
      dest: block_ok_realloc contents_realloc split: option.splits)

lemma list_add_eq_Inr:
  "list_add H l v = Inr l' \<longleftrightarrow>
     (\<exists>l1 bs blk. (if l_current_size l = l_size l then list_grow H l else Inr l) = Inr l1 \<and>
       in_int (l_current_size l1 * l_elem_size l1) \<and> rd 0 (nat (l_elem_size l1)) v = Inr bs \<and>
       wr (l_current_size l1 * l_elem_size l1) bs (l_values l1) = Inr blk \<and> in_int (l_current_size l1 + 1) \<and>
       l' = l1\<lparr>l_values := blk, l_current_size := l_current_size l1 + 1\<rparr>)"
  unfolding list_add_def by (auto simp: rbind_eq_Inr cint_eq_Inr)

lemma list_add_ok:
  assumes inv: "list_inv l" and v: "nat (l_elem_size l) \<le> length v" and add: "list_add H l v = Inr l'"
  shows "list_inv l' \<and> list_abs l' = list_abs l @ [take (nat (l_elem_size l)) v] \<and>
    l_elem_size l' = l_elem_size l"
proof -
  obtain l1 bs blk where
    grow: "(if l_current_size l = l_size l then list_grow H l else Inr l) = Inr l1"
    and bs: "rd 0 (nat (l_elem_size l1)) v = Inr bs"
    and wr: "wr (l_current_size l1 * l_elem_size l1) bs (l_values l1) = Inr blk"
    and l': "l' = l1\<lparr>l_values := blk, l_current_size := l_current_size l1 + 1\<rparr>"
    using add by (auto simp: list_add_eq_Inr)
  have l1: "list_inv l1" "list_abs l1 = list_abs l" "l_elem_size l1 = l_elem_size l"
    "l_current_size l1 < l_size l1"
    using grow inv list_grow_ok [OF inv, of H l1]
    by (auto simp: list_inv_def block_ok_def split: if_splits)
  have b: "bs = take (nat (l_elem_size l)) v" "length bs = nat (l_elem_size l1)"
    using bs v l1(3) by (auto simp: rd_def slice_def)
  let ?es = "l_elem_size l1" and ?n = "l_current_size l1"
  have ok: "block_ok ?es (l_size l1) ?n (l_values l1)" using l1(1) by (simp add: list_inv_def)
  have n: "0 \<le> ?n" using ok by (simp add: block_ok_def)
  have blk: "blk = overwrite (nat ?n * nat ?es) bs (l_values l1)"
    using wr block_wr [OF ok n l1(4) b(2)] by simp
  have "block_ok ?es (l_size l1) (?n + 1) blk"
    unfolding blk using ok n l1(4) b(2)
    by (intro block_ok_len [OF block_ok_overwrite [OF ok n l1(4) b(2)]]) auto
  moreover have "contents_of ?es (?n + 1) blk = contents_of ?es ?n (l_values l1) @ [bs]"
    unfolding blk by (rule contents_append [OF ok l1(4) b(2)])
  ultimately show ?thesis
    using l1 b(1) l' by (auto simp: list_inv_def list_abs_def)
qed

lemma list_add_width: "list_inv l \<Longrightarrow> list_add H l v = Inr l' \<Longrightarrow> l_elem_size l' = l_elem_size l"
  by (auto simp: list_add_eq_Inr dest: list_grow_ok split: if_splits)

interpretation array_list: growable list_inv list_abs "\<lambda>l. nat (l_elem_size l)" "list_add H" for H
  by unfold_locales (auto dest: list_add_ok list_add_width)

section \<open>When the operations return\<close>

lemma list_grow_total:
  assumes "list_inv l" "in_int (l_size l * 2 * l_elem_size l)" "grants H (nat (l_size l * 2 * l_elem_size l))"
  shows "\<exists>l'. list_grow H l = Inr l'"
proof -
  have d: "0 < l_elem_size l" "0 < l_size l" using assms(1) by (auto simp: list_inv_def block_ok_def)
  then have "l_size l * 2 * 1 \<le> l_size l * 2 * l_elem_size l" by (intro mult_left_mono) auto
  with d assms(2) have "in_int (l_size l * 2)" unfolding in_int_def INT_MIN_def by linarith
  with assms(2,3) show ?thesis by (auto simp: list_grow_def realloc_def)
qed

lemma list_add_total:
  assumes inv: "list_inv l" and v: "nat (l_elem_size l) \<le> length v"
    and room: "l_current_size l = l_size l \<Longrightarrow>
      in_int (l_size l * 2 * l_elem_size l) \<and> grants H (nat (l_size l * 2 * l_elem_size l))"
  shows "\<exists>l'. list_add H l v = Inr l'"
proof -
  obtain l1 where l1: "(if l_current_size l = l_size l then list_grow H l else Inr l) = Inr l1"
    using room list_grow_total [OF inv, of H] by (cases "l_current_size l = l_size l") auto
  then have inv1: "list_inv l1" "l_elem_size l1 = l_elem_size l" "l_current_size l1 < l_size l1"
    using inv list_grow_ok [OF inv, of H l1] by (auto simp: list_inv_def block_ok_def split: if_splits)
  let ?es = "l_elem_size l1" and ?n = "l_current_size l1"
  have ok: "block_ok ?es (l_size l1) ?n (l_values l1)" using inv1(1) by (simp add: list_inv_def)
  have bs: "rd 0 (nat ?es) v = Inr (take (nat ?es) v)" "length (take (nat ?es) v) = nat ?es"
    using v inv1(2) by (auto simp: rd_def slice_def)
  have n: "0 \<le> ?n" "?n \<le> l_size l1" using block_okD [OF ok] by auto
  have "in_int (?n + 1)"
    using n(1) inv1(3) block_ok_cap [OF ok] unfolding in_int_def INT_MIN_def by linarith
  with bs offset_in_int [OF ok n] block_wr [OF ok n(1) inv1(3) bs(2)] l1
  have "list_add H l v = Inr (l1\<lparr>l_values := overwrite (nat ?n * nat ?es) (take (nat ?es) v) (l_values l1),
      l_current_size := ?n + 1\<rparr>)"
    unfolding list_add_eq_Inr by (intro exI [of _ l1]) auto
  then show ?thesis by blast
qed

interpretation sized_list: sized_growable list_inv list_abs "\<lambda>l. nat (l_elem_size l)" "list_add H"
  l_size l_current_size "has_room H" for H
proof unfold_locales
  fix l l' v
  assume "list_inv l" "nat (l_elem_size l) \<le> length v" "list_add H l v = Inr l'"
  then show "l_size l' = (if l_current_size l = l_size l then l_size l * 2 else l_size l) \<and>
      l_current_size l' = l_current_size l + 1"
    by (auto simp: list_add_eq_Inr dest: list_grow_ok split: if_splits)
next
  fix l and v :: "byte list"
  assume "list_inv l" "nat (l_elem_size l) \<le> length v"
    "l_current_size l = l_size l \<Longrightarrow> has_room H (l_size l * 2 * int (nat (l_elem_size l)))"
  then show "\<exists>l'. list_add H l v = Inr l'"
    by (intro list_add_total) (auto simp: has_room_def list_inv_def block_ok_def)
qed (auto simp: list_inv_def block_ok_def)

section \<open>Removal\<close>

lemma remove_loop_correct:
  assumes "block_ok es cap len blk" "0 \<le> i" "i < len"
  shows "\<exists>blk'. remove_loop blk i len es = Inr blk' \<and> block_ok es cap len blk' \<and>
    (\<forall>j < nat len. elem (nat es) blk' j =
      (if nat i \<le> j \<and> j < nat len - 1 then elem (nat es) blk (Suc j) else elem (nat es) blk j))"
  using assms
proof (induction "nat (len - i)" arbitrary: i blk)
  case 0
  then show ?case by simp
next
  case (Suc d)
  note ok = Suc.prems(1)
  show ?case
  proof (cases "i = len - 1")
    case True
    then have "remove_loop blk i len es = Inr blk" by (subst remove_loop.simps) simp
    with True ok Suc.prems show ?thesis by auto
  next
    case False
    have cap: "0 \<le> i" "i \<le> cap" "i < cap" "0 \<le> i + 1" "i + 1 \<le> cap" "i + 1 < cap"
      using False Suc.prems block_okD [OF ok] by auto
    let ?bs = "elem (nat es) blk (nat (i + 1))"
    let ?blk = "overwrite (nat i * nat es) ?bs blk"
    have rd: "rd ((i + 1) * es) (nat es) blk = Inr ?bs" by (rule block_rd [OF ok cap(4,6)])
    have fits: "nat cap * nat es \<le> length blk" using ok by (simp add: block_ok_def)
    have bs: "length ?bs = nat es"
      using elem_fits [of "nat (i + 1)" "nat cap" "nat es" blk] cap fits by simp
    have wr: "wr (i * es) ?bs blk = Inr ?blk" by (rule block_wr [OF ok cap(1,3) bs])
    have ok1: "block_ok es cap len ?blk" by (rule block_ok_overwrite [OF ok cap(1,3) bs])
    have "\<exists>blk'. remove_loop ?blk (i + 1) len es = Inr blk' \<and> block_ok es cap len blk' \<and>
      (\<forall>j < nat len. elem (nat es) blk' j =
        (if nat (i + 1) \<le> j \<and> j < nat len - 1 then elem (nat es) ?blk (Suc j) else elem (nat es) ?blk j))"
      using Suc.hyps(2) Suc.prems False ok1 by (intro Suc.hyps(1)) auto
    then obtain blk' where b': "remove_loop ?blk (i + 1) len es = Inr blk'" "block_ok es cap len blk'"
      "\<And>j. j < nat len \<Longrightarrow> elem (nat es) blk' j =
        (if nat (i + 1) \<le> j \<and> j < nat len - 1 then elem (nat es) ?blk (Suc j) else elem (nat es) ?blk j)"
      by blast
    have at: "elem (nat es) ?blk j = (if j = nat i then ?bs else elem (nat es) blk j)" if "j < nat cap" for j
      using that cap fits bs by (intro elem_overwrite) auto
    have "remove_loop blk i len es = Inr blk'"
      using False Suc.prems offset_in_int [OF ok cap(1,2)] offset_in_int [OF ok cap(4,5)] rd wr b'(1)
      by (subst remove_loop.simps) simp
    moreover have "elem (nat es) blk' j =
        (if nat i \<le> j \<and> j < nat len - 1 then elem (nat es) blk (Suc j) else elem (nat es) blk j)"
      if j: "j < nat len" for j
    proof -
      have nx: "nat (i + 1) = Suc (nat i)" using Suc.prems by (simp add: Suc_nat_eq_nat_zadd1)
      have "j < nat cap" "j < nat len - 1 \<Longrightarrow> Suc j < nat cap" "nat i < nat len - 1"
        using j block_okD [OF ok] False Suc.prems by auto
      with b'(3) [OF j] at [of j] at [of "Suc j"] nx show ?thesis by auto
    qed
    ultimately show ?thesis using b'(2) by blast
  qed
qed

lemma list_remove_ok:
  assumes inv: "list_inv l" and i: "0 \<le> i" "i < l_current_size l"
  shows "\<exists>l'. list_remove l i = Inr (l', 1) \<and> list_inv l' \<and>
    list_abs l' = take (nat i) (list_abs l) @ drop (Suc (nat i)) (list_abs l) \<and>
    l_elem_size l' = l_elem_size l \<and> l_size l' = l_size l"
proof -
  let ?es = "l_elem_size l" and ?n = "l_current_size l"
  have ok: "block_ok ?es (l_size l) ?n (l_values l)" using inv by (simp add: list_inv_def)
  obtain blk' where b': "remove_loop (l_values l) i ?n ?es = Inr blk'" "block_ok ?es (l_size l) ?n blk'"
    "\<And>j. j < nat ?n \<Longrightarrow> elem (nat ?es) blk' j =
      (if nat i \<le> j \<and> j < nat ?n - 1 then elem (nat ?es) (l_values l) (Suc j) else elem (nat ?es) (l_values l) j)"
    using remove_loop_correct [OF ok i] by blast
  let ?l' = "l\<lparr>l_values := blk', l_current_size := ?n - 1\<rparr>"
  have "list_inv ?l'" using b'(2) i by (auto simp: list_inv_def block_ok_def)
  moreover have "list_abs ?l' = take (nat i) (list_abs l) @ drop (Suc (nat i)) (list_abs l)"
    using i by (intro nth_equalityI)
      (auto simp: list_abs_def contents_of_def b'(3) nth_append nat_diff_distrib min_def)
  moreover have "list_remove l i = Inr (?l', 1)" using b'(1) i by (simp add: list_remove_def)
  ultimately show ?thesis by auto
qed

section \<open>Search\<close>

lemma contain_loop_correct:
  assumes inv: "list_inv l" and i: "0 \<le> i" "i \<le> l_current_size l"
  shows "contain_loop cmpfn l v i =
    Inr (case first_match (\<lambda>x. cmpfn v x = 0) (drop (nat i) (list_abs l)) of
           None \<Rightarrow> - 1 | Some k \<Rightarrow> i + int k)"
  using i
proof (induction "nat (l_current_size l - i)" arbitrary: i)
  case 0
  then show ?case by (subst contain_loop.simps) (simp add: list_abs_def contents_of_def)
next
  case (Suc d)
  let ?es = "l_elem_size l"
  have ok: "block_ok ?es (l_size l) (l_current_size l) (l_values l)" using inv by (simp add: list_inv_def)
  have i: "i < l_current_size l" "i < l_size l" "i \<le> l_size l" "nat i < length (list_abs l)"
    using Suc.hyps(2) Suc.prems block_okD [OF ok] by (auto simp: length_list_abs)
  have rd: "rd (i * ?es) (nat ?es) (l_values l) = Inr (list_abs l ! nat i)"
    using block_rd [OF ok Suc.prems(1) i(2)] i Suc.prems(1) by (simp add: list_abs_def contents_of_def)
  have "contain_loop cmpfn l v (i + 1) =
    Inr (case first_match (\<lambda>x. cmpfn v x = 0) (drop (nat (i + 1)) (list_abs l)) of
           None \<Rightarrow> - 1 | Some k \<Rightarrow> i + 1 + int k)"
    using Suc.hyps(2) i Suc.prems by (intro Suc.hyps(1)) auto
  with rd i offset_in_int [OF ok Suc.prems(1) i(3)] Suc.prems(1) show ?case
    by (subst contain_loop.simps)
      (auto simp: first_match_drop Suc_nat_eq_nat_zadd1 add.commute split: option.splits)
qed

lemma list_contain_correct:
  "list_inv l \<Longrightarrow> list_contain l v cmpfn =
    Inr (case first_match (\<lambda>x. cmpfn v x = 0) (list_abs l) of None \<Rightarrow> - 1 | Some k \<Rightarrow> int k)"
  using contain_loop_correct [of l 0 cmpfn v]
    block_okD [of "l_elem_size l" "l_size l" "l_current_size l" "l_values l"]
  by (simp add: list_contain_def list_inv_def cong: option.case_cong)

section \<open>The properties\<close>

text \<open>
  \<open>list_add\<close> on a well-formed list returns exactly when there is room or the doubled
  block is within \<open>int\<close> and granted; it then appends the value's bytes, growing by doubling,
  and keeps the list well-formed.
\<close>

theorem list_add_appends:
  assumes "list_inv l" and "nat (l_elem_size l) \<le> length v"
    and "l_current_size l = l_size l \<Longrightarrow>
      in_int (l_size l * 2 * l_elem_size l) \<and> grants H (nat (l_size l * 2 * l_elem_size l))"
  shows "\<exists>l'. list_add H l v = Inr l' \<and> list_inv l' \<and>
    list_abs l' = list_abs l @ [take (nat (l_elem_size l)) v]"
  using list_add_total [OF assms] list_add_ok [OF assms(1,2)] by blast

text \<open>
  \<open>list_remove_val\<close> on a well-formed list removes exactly the first element that
  compares equal and returns 1, or, when there is none, leaves the list as it is and returns -1;
  it never faults.
\<close>

theorem list_remove_val_removes_first:
  assumes "list_inv l"
  shows "case first_match (\<lambda>x. cmpfn v x = 0) (list_abs l) of
      None \<Rightarrow> list_remove_val l v cmpfn = Inr (l, - 1)
    | Some k \<Rightarrow> \<exists>l'. list_remove_val l v cmpfn = Inr (l', 1) \<and> list_inv l' \<and>
        list_abs l' = take k (list_abs l) @ drop (Suc k) (list_abs l)"
proof (cases "first_match (\<lambda>x. cmpfn v x = 0) (list_abs l)")
  case None
  with list_contain_correct [OF assms, of v cmpfn] show ?thesis by (simp add: list_remove_val_def)
next
  case (Some k)
  then have "int k < l_current_size l"
    using assms by (auto simp: first_match_Some length_list_abs)
  with Some list_contain_correct [OF assms, of v cmpfn] list_remove_ok [OF assms, of "int k"]
  show ?thesis by (auto simp: list_remove_val_def)
qed

text \<open>Any use of a list: a sequence of operations, each with its abstract counterpart on the contents.\<close>

datatype list_op = Add "byte list" | Remove int | RemoveVal "byte list"

definition run_op ::
  "allocator \<Rightarrow> (byte list \<Rightarrow> byte list \<Rightarrow> int) \<Rightarrow> list_op \<Rightarrow> my_array_list \<Rightarrow> my_array_list result" where
  "run_op H cmpfn oper l =
     (case oper of
        Add v \<Rightarrow> list_add H l v
      | Remove i \<Rightarrow> rbind (list_remove l i) (\<lambda>(l, _). Inr l)
      | RemoveVal v \<Rightarrow> rbind (list_remove_val l v cmpfn) (\<lambda>(l, _). Inr l))"

fun run_ops ::
  "allocator \<Rightarrow> (byte list \<Rightarrow> byte list \<Rightarrow> int) \<Rightarrow> list_op list \<Rightarrow> my_array_list \<Rightarrow> my_array_list result" where
  "run_ops H cmpfn [] l = Inr l"
| "run_ops H cmpfn (oper # opers) l = rbind (run_op H cmpfn oper l) (run_ops H cmpfn opers)"

definition without :: "nat \<Rightarrow> 'a list \<Rightarrow> 'a list" where
  "without i xs = take i xs @ drop (Suc i) xs"

definition abs_op :: "(byte list \<Rightarrow> byte list \<Rightarrow> int) \<Rightarrow> list_op \<Rightarrow> byte list list \<Rightarrow> byte list list" where
  "abs_op cmpfn oper xs =
     (case oper of
        Add v \<Rightarrow> xs @ [v]
      | Remove i \<Rightarrow> without (nat i) xs
      | RemoveVal v \<Rightarrow>
          (case first_match (\<lambda>x. cmpfn v x = 0) xs of None \<Rightarrow> xs | Some k \<Rightarrow> without k xs))"

fun op_width :: "list_op \<Rightarrow> nat option" where
  "op_width (Add v) = Some (length v)"
| "op_width _ = None"

lemma list_add_no_oob:
  assumes "list_inv l" "nat (l_elem_size l) \<le> length v"
  shows "list_add H l v \<noteq> Inl OutOfBounds"
proof (cases "l_current_size l = l_size l \<and>
    \<not> (in_int (l_size l * 2 * l_elem_size l) \<and> grants H (nat (l_size l * 2 * l_elem_size l)))")
  case False
  with list_add_total [OF assms, of H] show ?thesis by auto
next
  case True
  then have "list_grow H l = Inl AssertFailed \<or> list_grow H l = Inl IntOverflow"
    by (auto simp: list_grow_def rbind_def cint_def realloc_def)
  with True show ?thesis by (auto simp: list_add_def rbind_def)
qed

lemma run_op_sound:
  assumes inv: "list_inv l" and w: "op_width oper = None \<or> op_width oper = Some (nat (l_elem_size l))"
  shows "case run_op H cmpfn oper l of
      Inl e \<Rightarrow> e \<noteq> OutOfBounds
    | Inr l' \<Rightarrow> list_inv l' \<and> l_elem_size l' = l_elem_size l \<and> list_abs l' = abs_op cmpfn oper (list_abs l)"
proof (cases oper)
  case (Add v)
  with w have "nat (l_elem_size l) = length v" by simp
  with Add list_add_no_oob [OF inv, of v H] list_add_ok [OF inv, of v H] show ?thesis
    by (auto simp: run_op_def abs_op_def split: sum.split)
next
  case (Remove i)
  show ?thesis
  proof (cases "0 \<le> i \<and> i < l_current_size l")
    case True
    with Remove list_remove_ok [OF inv, of i] show ?thesis
      by (auto simp: run_op_def abs_op_def rbind_def without_def)
  next
    case False
    with Remove show ?thesis by (auto simp: run_op_def rbind_def list_remove_def rassert_def)
  qed
next
  case (RemoveVal v)
  show ?thesis
  proof (cases "first_match (\<lambda>x. cmpfn v x = 0) (list_abs l)")
    case None
    with RemoveVal list_contain_correct [OF inv, of v cmpfn] inv show ?thesis
      by (auto simp: run_op_def abs_op_def rbind_def list_remove_val_def)
  next
    case (Some k)
    then have "int k < l_current_size l" using inv by (auto simp: first_match_Some length_list_abs)
    with Some RemoveVal list_contain_correct [OF inv, of v cmpfn] list_remove_ok [OF inv, of "int k"] show ?thesis
      by (auto simp: run_op_def abs_op_def rbind_def list_remove_val_def without_def)
  qed
qed


text \<open>
  A loop of insertions: starting from \<open>list_new\<close>, adding the values of any list one by one leaves
  exactly those values, in order (through the \<open>growable\<close> contract).
\<close>

lemma list_insertions:
  assumes "list_new H sz es = Inr l" and "\<forall>v \<in> set vs. length v = nat es"
    and "insert_all (list_add H) l vs = Inr l'"
  shows "list_inv l' \<and> list_abs l' = vs"
  using array_list.insert_all_inv_contents [of l vs H l'] list_new_ok [OF assms(1)] assms(2,3) by auto

text \<open>\<open>list_print\<close> prints every element of a well-formed list once, in order, and never faults.\<close>

lemma print_loop_correct:
  assumes inv: "list_inv l" and i: "0 \<le> i" "i \<le> l_current_size l"
  shows "print_loop l i = Inr (drop (nat i) (list_abs l))"
  using i
proof (induction "nat (l_current_size l - i)" arbitrary: i)
  case 0
  then show ?case by (subst print_loop.simps) (simp add: length_list_abs)
next
  case (Suc d)
  let ?es = "l_elem_size l"
  have ok: "block_ok ?es (l_size l) (l_current_size l) (l_values l)" using inv by (simp add: list_inv_def)
  have i: "i < l_current_size l" "i < l_size l" "i \<le> l_size l" "nat i < length (list_abs l)"
    using Suc.hyps(2) Suc.prems block_okD [OF ok] by (auto simp: length_list_abs)
  have rd: "rd (i * ?es) (nat ?es) (l_values l) = Inr (list_abs l ! nat i)"
    using block_rd [OF ok Suc.prems(1) i(2)] i Suc.prems(1) by (simp add: list_abs_def contents_of_def)
  have "print_loop l (i + 1) = Inr (drop (nat (i + 1)) (list_abs l))"
    using Suc.hyps(2) i Suc.prems by (intro Suc.hyps(1)) auto
  with rd i offset_in_int [OF ok Suc.prems(1) i(3)] Suc.prems(1) show ?case
    by (subst print_loop.simps) (simp add: nat_add_distrib Cons_nth_drop_Suc)
qed

lemma list_print_all: "list_inv l \<Longrightarrow> list_print l = Inr (list_abs l)"
  using print_loop_correct [of l 0] block_okD [of "l_elem_size l" "l_size l" "l_current_size l" "l_values l"]
  by (simp add: list_print_def list_inv_def)

section \<open>Witnesses\<close>

definition roomy_list :: my_array_list where
  "roomy_list = \<lparr>l_values = [1, 2, 3, 4], l_elem_size = 1, l_size = 4, l_current_size = 3\<rparr>"

definition always :: allocator where
  "always = \<lparr>grants = \<lambda>_. True, junk = \<lambda>_. 0\<rparr>"

lemma roomy_list_inv: "list_inv roomy_list"
  by (simp add: list_inv_def block_ok_def roomy_list_def INT_MAX_def)

lemma roomy_list_abs: "list_abs roomy_list = [[1], [2], [3]]"
  by code_simp

theorem list_add_appends_witness:
  "\<exists>l'. list_add always roomy_list [9] = Inr l' \<and> list_inv l' \<and> list_abs l' = list_abs roomy_list @ [[9]]"
  using list_add_appends [OF roomy_list_inv, of "[9]" always] by (simp add: roomy_list_def)

theorem list_remove_val_removes_first_witness:
  "\<exists>l'. list_remove_val roomy_list [2] (\<lambda>x y. if x = y then 0 else 1) = Inr (l', 1) \<and> list_inv l' \<and>
    list_abs l' = [[1], [3]]"
  using list_remove_val_removes_first [OF roomy_list_inv, where cmpfn = "\<lambda>x y. if x = y then 0 else 1" and v = "[2]"]
  by (simp add: roomy_list_abs)


end
