(* ===== verification/MyStack.thy ===== *)
theory MyStack
  imports Growable
begin

text \<open>
  mystack.h: the stack over untyped elements. Like the array list it is a block doubled by
  \<open>realloc\<close>, and it provides the \<open>growable\<close> contract; \<open>mystack_pop\<close> copies the last element
  into the caller's memory \<open>elem_addr\<close>. It has no guard for an empty stack: the copy then
  starts before the block. The progress message of \<open>mystack_grow\<close> is \<open>stack_msg\<close> of Drivers.
\<close>

record mystack =
  s_elems :: "byte list"
  s_elem_size :: int
  s_current_len :: int
  s_size :: int

section \<open>The code\<close>

definition mystack_new :: "allocator \<Rightarrow> int \<Rightarrow> mystack result" where
  "mystack_new H elem_size =
     rassert (elem_size > 0)
       (rbind (cint (4 * elem_size)) (\<lambda>bytes.
        case malloc H (nat bytes) of
          None \<Rightarrow> Inl AssertFailed
        | Some blk \<Rightarrow>
            Inr \<lparr>s_elems = blk, s_elem_size = elem_size, s_current_len = 0, s_size = 4\<rparr>))"

definition mystack_dispose :: "mystack \<Rightarrow> mystack" where
  "mystack_dispose s = s\<lparr>s_elems := []\<rparr>"

definition mystack_grow :: "allocator \<Rightarrow> mystack \<Rightarrow> mystack result" where
  "mystack_grow H s =
     rbind (cint (s_size s * 2)) (\<lambda>sz.
     rbind (cint (sz * s_elem_size s)) (\<lambda>bytes.
     case realloc H (s_elems s) (nat bytes) of
       None \<Rightarrow> Inl AssertFailed
     | Some blk \<Rightarrow> Inr (s\<lparr>s_size := sz, s_elems := blk\<rparr>)))"

definition mystack_push :: "allocator \<Rightarrow> mystack \<Rightarrow> byte list \<Rightarrow> mystack result" where
  "mystack_push H s elem_addr =
     rbind (if s_current_len s = s_size s then mystack_grow H s else Inr s) (\<lambda>s.
     rbind (cint (s_current_len s * s_elem_size s)) (\<lambda>target.
     rbind (rd 0 (nat (s_elem_size s)) elem_addr) (\<lambda>bs.
     rbind (wr target bs (s_elems s)) (\<lambda>blk.
     rbind (cint (s_current_len s + 1)) (\<lambda>n.
     Inr (s\<lparr>s_elems := blk, s_current_len := n\<rparr>))))))"

text \<open>The second component is the caller's memory after the call.\<close>

definition mystack_pop :: "mystack \<Rightarrow> byte list \<Rightarrow> (mystack \<times> byte list) result" where
  "mystack_pop s elem_addr =
     rbind (cint (s_current_len s - 1)) (\<lambda>last.
     rbind (cint (last * s_elem_size s)) (\<lambda>source.
     rbind (rd source (nat (s_elem_size s)) (s_elems s)) (\<lambda>bs.
     rbind (wr 0 bs elem_addr) (\<lambda>out.
     Inr (s\<lparr>s_current_len := last\<rparr>, out)))))"

section \<open>Invariant and contents\<close>

definition stack_inv :: "mystack \<Rightarrow> bool" where
  "stack_inv s \<longleftrightarrow> block_ok (s_elem_size s) (s_size s) (s_current_len s) (s_elems s)"

text \<open>The elements from the bottom to the top.\<close>

definition stack_abs :: "mystack \<Rightarrow> byte list list" where
  "stack_abs s = contents_of (s_elem_size s) (s_current_len s) (s_elems s)"

lemma mystack_new_ok:
  "mystack_new H es = Inr s \<Longrightarrow> stack_inv s \<and> stack_abs s = [] \<and> s_elem_size s = es"
  by (auto simp: mystack_new_def rassert_eq_Inr rbind_eq_Inr cint_eq_Inr stack_inv_def stack_abs_def
      contents_of_def block_ok_def in_int_def elems_def nat_mult_distrib
      dest!: length_malloc split: option.splits)

lemma mystack_grow_ok:
  assumes "stack_inv s" "mystack_grow H s = Inr s'"
  shows "stack_inv s' \<and> stack_abs s' = stack_abs s \<and> s_elem_size s' = s_elem_size s \<and>
    s_size s' = 2 * s_size s \<and> s_current_len s' = s_current_len s"
  using assms
  by (auto simp: mystack_grow_def rbind_eq_Inr cint_eq_Inr stack_inv_def stack_abs_def
      dest: block_ok_realloc contents_realloc split: option.splits)

lemma mystack_push_eq_Inr:
  "mystack_push H s v = Inr s' \<longleftrightarrow>
     (\<exists>s1 bs blk. (if s_current_len s = s_size s then mystack_grow H s else Inr s) = Inr s1 \<and>
       in_int (s_current_len s1 * s_elem_size s1) \<and> rd 0 (nat (s_elem_size s1)) v = Inr bs \<and>
       wr (s_current_len s1 * s_elem_size s1) bs (s_elems s1) = Inr blk \<and> in_int (s_current_len s1 + 1) \<and>
       s' = s1\<lparr>s_elems := blk, s_current_len := s_current_len s1 + 1\<rparr>)"
  unfolding mystack_push_def by (auto simp: rbind_eq_Inr cint_eq_Inr)

lemma mystack_push_ok:
  assumes inv: "stack_inv s" and v: "nat (s_elem_size s) \<le> length v" and push: "mystack_push H s v = Inr s'"
  shows "stack_inv s' \<and> stack_abs s' = stack_abs s @ [take (nat (s_elem_size s)) v] \<and>
    s_elem_size s' = s_elem_size s \<and> s_current_len s' = s_current_len s + 1"
proof -
  obtain s1 bs blk where
    grow: "(if s_current_len s = s_size s then mystack_grow H s else Inr s) = Inr s1"
    and bs: "rd 0 (nat (s_elem_size s1)) v = Inr bs"
    and wr: "wr (s_current_len s1 * s_elem_size s1) bs (s_elems s1) = Inr blk"
    and s': "s' = s1\<lparr>s_elems := blk, s_current_len := s_current_len s1 + 1\<rparr>"
    using push by (auto simp: mystack_push_eq_Inr)
  have s1: "stack_inv s1" "stack_abs s1 = stack_abs s" "s_elem_size s1 = s_elem_size s"
    "s_current_len s1 < s_size s1" "s_current_len s1 = s_current_len s"
    using grow inv mystack_grow_ok [OF inv, of H s1]
    by (auto simp: stack_inv_def block_ok_def split: if_splits)
  have b: "bs = take (nat (s_elem_size s)) v" "length bs = nat (s_elem_size s1)"
    using bs v s1(3) by (auto simp: rd_def slice_def)
  let ?es = "s_elem_size s1" and ?n = "s_current_len s1"
  have ok: "block_ok ?es (s_size s1) ?n (s_elems s1)" using s1(1) by (simp add: stack_inv_def)
  have n: "0 \<le> ?n" using ok by (simp add: block_ok_def)
  have blk: "blk = overwrite (nat ?n * nat ?es) bs (s_elems s1)"
    using wr block_wr [OF ok n s1(4) b(2)] by simp
  have "block_ok ?es (s_size s1) (?n + 1) blk"
    unfolding blk using ok n s1(4) b(2)
    by (intro block_ok_len [OF block_ok_overwrite [OF ok n s1(4) b(2)]]) auto
  moreover have "contents_of ?es (?n + 1) blk = contents_of ?es ?n (s_elems s1) @ [bs]"
    unfolding blk by (rule contents_append [OF ok s1(4) b(2)])
  ultimately show ?thesis
    using s1 b(1) s' by (auto simp: stack_inv_def stack_abs_def)
qed

lemma mystack_push_width: "stack_inv s \<Longrightarrow> mystack_push H s v = Inr s' \<Longrightarrow> s_elem_size s' = s_elem_size s"
  by (auto simp: mystack_push_eq_Inr dest: mystack_grow_ok split: if_splits)

interpretation stack: growable stack_inv stack_abs "\<lambda>s. nat (s_elem_size s)" "mystack_push H" for H
  by unfold_locales (auto dest: mystack_push_ok mystack_push_width)

text \<open>When pushing returns.\<close>

lemma mystack_grow_total:
  assumes "stack_inv s" "in_int (s_size s * 2 * s_elem_size s)" "grants H (nat (s_size s * 2 * s_elem_size s))"
  shows "\<exists>s'. mystack_grow H s = Inr s'"
proof -
  have d: "0 < s_elem_size s" "0 < s_size s" using assms(1) by (auto simp: stack_inv_def block_ok_def)
  then have "s_size s * 2 * 1 \<le> s_size s * 2 * s_elem_size s" by (intro mult_left_mono) auto
  with d assms(2) have "in_int (s_size s * 2)" unfolding in_int_def INT_MIN_def by linarith
  with assms(2,3) show ?thesis by (auto simp: mystack_grow_def realloc_def)
qed

lemma mystack_push_total:
  assumes inv: "stack_inv s" and v: "nat (s_elem_size s) \<le> length v"
    and room: "s_current_len s = s_size s \<Longrightarrow>
      in_int (s_size s * 2 * s_elem_size s) \<and> grants H (nat (s_size s * 2 * s_elem_size s))"
  shows "\<exists>s'. mystack_push H s v = Inr s'"
proof -
  obtain s1 where s1: "(if s_current_len s = s_size s then mystack_grow H s else Inr s) = Inr s1"
    using room mystack_grow_total [OF inv, of H] by (cases "s_current_len s = s_size s") auto
  then have inv1: "stack_inv s1" "s_elem_size s1 = s_elem_size s" "s_current_len s1 < s_size s1"
    using inv mystack_grow_ok [OF inv, of H s1] by (auto simp: stack_inv_def block_ok_def split: if_splits)
  let ?es = "s_elem_size s1" and ?n = "s_current_len s1"
  have ok: "block_ok ?es (s_size s1) ?n (s_elems s1)" using inv1(1) by (simp add: stack_inv_def)
  have bs: "rd 0 (nat ?es) v = Inr (take (nat ?es) v)" "length (take (nat ?es) v) = nat ?es"
    using v inv1(2) by (auto simp: rd_def slice_def)
  have n: "0 \<le> ?n" "?n \<le> s_size s1" using block_okD [OF ok] by auto
  have "in_int (?n + 1)"
    using n(1) inv1(3) block_ok_cap [OF ok] unfolding in_int_def INT_MIN_def by linarith
  with bs offset_in_int [OF ok n] block_wr [OF ok n(1) inv1(3) bs(2)] s1
  have "mystack_push H s v = Inr (s1\<lparr>s_elems := overwrite (nat ?n * nat ?es) (take (nat ?es) v) (s_elems s1),
      s_current_len := ?n + 1\<rparr>)"
    unfolding mystack_push_eq_Inr by (intro exI [of _ s1]) auto
  then show ?thesis by blast
qed

interpretation sized_stack: sized_growable stack_inv stack_abs "\<lambda>s. nat (s_elem_size s)" "mystack_push H"
  s_size s_current_len "has_room H" for H
proof unfold_locales
  fix s s' v
  assume "stack_inv s" "nat (s_elem_size s) \<le> length v" "mystack_push H s v = Inr s'"
  then show "s_size s' = (if s_current_len s = s_size s then s_size s * 2 else s_size s) \<and>
      s_current_len s' = s_current_len s + 1"
    by (auto simp: mystack_push_eq_Inr dest: mystack_grow_ok split: if_splits)
next
  fix s and v :: "byte list"
  assume "stack_inv s" "nat (s_elem_size s) \<le> length v"
    "s_current_len s = s_size s \<Longrightarrow> has_room H (s_size s * 2 * int (nat (s_elem_size s)))"
  then show "\<exists>s'. mystack_push H s v = Inr s'"
    by (intro mystack_push_total) (auto simp: has_room_def stack_inv_def block_ok_def)
qed (auto simp: stack_inv_def block_ok_def)

text \<open>Popping: the top goes to the front of the caller's memory; without a top it faults.\<close>

lemma mystack_pop_ok:
  assumes inv: "stack_inv s" and ne: "0 < s_current_len s" and out: "nat (s_elem_size s) \<le> length out"
  shows "mystack_pop s out = Inr (s\<lparr>s_current_len := s_current_len s - 1\<rparr>,
      last (stack_abs s) @ drop (nat (s_elem_size s)) out) \<and>
    stack_inv (s\<lparr>s_current_len := s_current_len s - 1\<rparr>) \<and>
    stack_abs (s\<lparr>s_current_len := s_current_len s - 1\<rparr>) = butlast (stack_abs s)"
proof -
  let ?es = "s_elem_size s" and ?n = "s_current_len s"
  have ok: "block_ok ?es (s_size s) ?n (s_elems s)" using inv by (simp add: stack_inv_def)
  have n: "0 \<le> ?n - 1" "?n - 1 < s_size s" "?n - 1 \<le> s_size s" "nat ?n = Suc (nat (?n - 1))"
    using ne block_okD [OF ok] by auto
  have abs: "stack_abs s = elems (nat ?es) (nat (?n - 1)) (s_elems s) @ [elem (nat ?es) (s_elems s) (nat (?n - 1))]"
    by (simp add: stack_abs_def contents_of_def n(4) elems_Suc)
  have fits: "nat (?n - 1) * nat ?es + nat ?es \<le> length (s_elems s)"
    using elem_fits [of "nat (?n - 1)" "nat ?n" "nat ?es" "s_elems s"] n(4) block_fits [OF ok] by simp
  have "in_int (?n - 1)" using n block_ok_cap [OF ok] unfolding in_int_def INT_MIN_def by linarith
  moreover have "wr 0 (elem (nat ?es) (s_elems s) (nat (?n - 1))) out =
      Inr (elem (nat ?es) (s_elems s) (nat (?n - 1)) @ drop (nat ?es) out)"
    using fits out by (simp add: wr_def overwrite_def)
  ultimately have "mystack_pop s out = Inr (s\<lparr>s_current_len := ?n - 1\<rparr>, last (stack_abs s) @ drop (nat ?es) out)"
    using block_rd [OF ok n(1,2)] offset_in_int [OF ok n(1,3)] by (simp add: mystack_pop_def abs)
  moreover have "stack_inv (s\<lparr>s_current_len := ?n - 1\<rparr>)"
    using ok n by (auto simp: stack_inv_def intro: block_ok_len)
  moreover have "stack_abs (s\<lparr>s_current_len := ?n - 1\<rparr>) = butlast (stack_abs s)"
    unfolding abs by (simp add: stack_abs_def contents_of_def)
  ultimately show ?thesis by blast
qed

section \<open>The properties\<close>

text \<open>
  Last in, first out: after a push that returned, a pop delivers the pushed element's
  bytes into the caller's memory and leaves the stack with the elements it had before the push.
\<close>

theorem push_then_pop:
  assumes "stack_inv s" and "length v = nat (s_elem_size s)" and "length out = nat (s_elem_size s)"
    and "mystack_push H s v = Inr s'"
  shows "\<exists>s''. mystack_pop s' out = Inr (s'', v) \<and> stack_inv s'' \<and> stack_abs s'' = stack_abs s"
proof -
  have s': "stack_inv s'" "stack_abs s' = stack_abs s @ [v]" "s_elem_size s' = s_elem_size s"
    "s_current_len s' = s_current_len s + 1"
    using mystack_push_ok [OF assms(1) _ assms(4)] assms(2) by auto
  then have "0 < s_current_len s'" using assms(1) by (simp add: stack_inv_def block_ok_def)
  from mystack_pop_ok [OF s'(1) this, of out] s' assms show ?thesis by auto
qed

text \<open>The driver's second loop: pop until the stack is empty, collecting what was popped.\<close>

fun pop_n :: "nat \<Rightarrow> mystack \<Rightarrow> byte list \<Rightarrow> (mystack \<times> byte list list) result" where
  "pop_n 0 s out = Inr (s, [])"
| "pop_n (Suc k) s out =
     rbind (mystack_pop s out) (\<lambda>(s, v). rbind (pop_n k s out) (\<lambda>(s, vs). Inr (s, v # vs)))"

lemma pop_n_ok:
  "stack_inv s \<Longrightarrow> int k \<le> s_current_len s \<Longrightarrow> length out = nat (s_elem_size s) \<Longrightarrow>
   \<exists>s'. pop_n k s out = Inr (s', take k (rev (stack_abs s)))"
proof (induction k arbitrary: s)
  case 0
  then show ?case by simp
next
  case (Suc k)
  let ?s = "s\<lparr>s_current_len := s_current_len s - 1\<rparr>"
  have pop: "mystack_pop s out = Inr (?s, last (stack_abs s))" "stack_inv ?s"
    "stack_abs ?s = butlast (stack_abs s)"
    using mystack_pop_ok [of s out] Suc.prems by auto
  obtain s' where "pop_n k ?s out = Inr (s', take k (rev (butlast (stack_abs s))))"
    using Suc.IH [of ?s] Suc.prems pop by auto
  moreover have "length (stack_abs s) \<noteq> 0"
    using Suc.prems by (simp add: stack_abs_def contents_of_def)
  then have "rev (stack_abs s) = last (stack_abs s) # rev (butlast (stack_abs s))"
    by (cases "stack_abs s" rule: rev_cases) simp_all
  then have "take (Suc k) (rev (stack_abs s)) = last (stack_abs s) # take k (rev (butlast (stack_abs s)))"
    by (simp only: take_Suc_Cons)
  ultimately show ?case using pop(1) by simp
qed


text \<open>
  \<open>mystack_pop\<close> does not check for an empty stack: on one it reads before the start
  of the block.
\<close>

theorem pop_empty_out_of_bounds:
  assumes "stack_inv s" and "s_current_len s = 0"
  shows "mystack_pop s out = Inl OutOfBounds"
proof -
  have "block_ok (s_elem_size s) (s_size s) 0 (s_elems s)" using assms by (simp add: stack_inv_def)
  then have ok: "0 < s_elem_size s" "0 < s_size s" "s_size s * s_elem_size s \<le> INT_MAX"
    by (auto simp: block_ok_def)
  then have "1 * s_elem_size s \<le> s_size s * s_elem_size s" by (intro mult_right_mono) auto
  with ok have es: "0 < s_elem_size s" "s_elem_size s \<le> INT_MAX" by linarith+
  then have "in_int (- s_elem_size s)" by (simp add: in_int_def INT_MIN_def INT_MAX_def)
  with es assms(2) show ?thesis
    by (simp add: mystack_pop_def in_int_def INT_MIN_def INT_MAX_def rd_def)
qed

section \<open>Witnesses\<close>

definition small_stack :: mystack where
  "small_stack = \<lparr>s_elems = [1, 2, 3, 4], s_elem_size = 1, s_current_len = 4, s_size = 4\<rparr>"

definition generous :: allocator where
  "generous = \<lparr>grants = \<lambda>_. True, junk = \<lambda>_. 0\<rparr>"

lemma small_stack_inv: "stack_inv small_stack"
  by (simp add: stack_inv_def block_ok_def small_stack_def INT_MAX_def)

theorem push_then_pop_witness:
  "\<exists>s' s''. mystack_push generous small_stack [9] = Inr s' \<and> mystack_pop s' [0] = Inr (s'', [9]) \<and>
    stack_abs s'' = stack_abs small_stack"
proof -
  obtain s' where s': "mystack_push generous small_stack [9] = Inr s'"
    by (simp add: mystack_push_def mystack_grow_def small_stack_def generous_def realloc_def in_int_def
        INT_MIN_def INT_MAX_def rd_def wr_def slice_def)
  show ?thesis
    using push_then_pop [OF small_stack_inv _ _ s', of "[0]"] s' by (auto simp: small_stack_def)
qed


theorem pop_empty_out_of_bounds_witness:
  "mystack_pop (small_stack\<lparr>s_current_len := 0\<rparr>) [0] = Inl OutOfBounds"
  by (rule pop_empty_out_of_bounds)
    (simp_all add: stack_inv_def block_ok_def small_stack_def INT_MAX_def)

end
