(* ===== verification/Lsearch.thy ===== *)
theory Lsearch
  imports CMem Comparator
begin

text \<open>
  lsearch.c: linear search over untyped elements. The result is the offset of the element found
  in the searched block (the code returns its address), or \<open>None\<close> for NULL. The search never
  reads past the element it returns.
\<close>

section \<open>The code\<close>

function lsearch_loop ::
  "byte list \<Rightarrow> byte list \<Rightarrow> int \<Rightarrow> int \<Rightarrow> (byte list \<Rightarrow> byte list \<Rightarrow> int) \<Rightarrow> int \<Rightarrow> int option result" where
  "lsearch_loop base key len elemSize cmpfn i =
     (if i < len then
        rbind (cint (i * elemSize)) (\<lambda>elemAddr.
        rbind (rd elemAddr (nat elemSize) base) (\<lambda>bs.
        if cmpfn bs key = 0 then Inr (Some elemAddr)
        else lsearch_loop base key len elemSize cmpfn (i + 1)))
      else Inr None)"
  by pat_completeness auto
termination
  by (relation "measure (\<lambda>(base, key, len, es, cmpfn, i). nat (len - i))") auto

declare lsearch_loop.simps [simp del]

definition lsearch ::
  "byte list \<Rightarrow> byte list \<Rightarrow> int \<Rightarrow> int \<Rightarrow> (byte list \<Rightarrow> byte list \<Rightarrow> int) \<Rightarrow> int option result" where
  "lsearch base key len elemSize cmpfn = lsearch_loop base key len elemSize cmpfn 0"

text \<open>An \<open>int\<close> as the machine stores it.\<close>

fun le_bytes :: "nat \<Rightarrow> int \<Rightarrow> byte list" where
  "le_bytes 0 v = []"
| "le_bytes (Suc n) v = word_of_int v # le_bytes n (v div 256)"

definition store_int :: "int \<Rightarrow> byte list" where
  "store_int v = le_bytes 4 v"

text \<open>The driver: the array, the key, and the value it would print.\<close>

definition test_int :: "int option result" where
  "test_int =
     (let array = concat (map store_int [2, 3, 6, 34, 98, 23]) in
      rbind (lsearch array (store_int 34) 6 4 cmp_int) (\<lambda>found.
      case found of
        None \<Rightarrow> Inr None
      | Some p \<Rightarrow> rbind (rd p 4 array) (\<lambda>bs. Inr (Some (sint (load_int bs))))))"

text \<open>
  The driver over pointers of eight bytes: \<open>deref\<close> is what they point to, \<open>arr\<close> the five pointers to
  the strings of the array and \<open>key\<close> one to "Dd", wherever the compiler has put them.
\<close>

definition test_str_arr :: "(byte list \<Rightarrow> byte list) \<Rightarrow> byte list list \<Rightarrow> byte list \<Rightarrow> byte list option result" where
  "test_str_arr deref arr key =
     rbind (lsearch (concat arr) key 5 8 (cmp_string deref)) (\<lambda>found.
     case found of
       None \<Rightarrow> Inr None
     | Some p \<Rightarrow> rbind (rd p 8 (concat arr)) (\<lambda>bs. Inr (Some (deref bs))))"

definition lsearch_main :: "(byte list \<Rightarrow> byte list) \<Rightarrow> byte list list \<Rightarrow> byte list \<Rightarrow> (int option \<times> byte list option) result" where
  "lsearch_main deref arr key =
     rbind test_int (\<lambda>i. rbind (test_str_arr deref arr key) (\<lambda>s. Inr (i, s)))"

section \<open>Lemmas\<close>

text \<open>The search up to the first match only needs the block up to that element.\<close>

lemma lsearch_loop_correct:
  assumes es: "0 \<le> es" and len: "0 \<le> len" and range: "in_int (len * es)"
    and k: "k \<le> nat len" and fits: "\<And>j. j < nat len \<Longrightarrow> (\<forall>i < j. cmpfn (elem (nat es) base i) key \<noteq> 0) \<Longrightarrow>
      j * nat es + nat es \<le> length base"
    and before: "\<forall>i < k. cmpfn (elem (nat es) base i) key \<noteq> 0"
  shows "lsearch_loop base key len es cmpfn (int k) =
    Inr (map_option (\<lambda>i. int (k + i) * es)
      (first_match (\<lambda>bs. cmpfn bs key = 0) (drop k (elems (nat es) (nat len) base))))"
  using k before
proof (induction "nat len - k" arbitrary: k)
  case 0
  then have "\<not> int k < len" by linarith
  with 0 show ?case by (subst lsearch_loop.simps) simp
next
  case (Suc d)
  have k: "k < nat len" "int k < len" "int k \<le> len" using Suc.hyps(2) len by auto
  have "int k * es \<le> len * es" "0 \<le> int k * es" using k es by (auto intro: mult_right_mono)
  then have off: "in_int (int k * es)" using range unfolding in_int_def INT_MIN_def by linarith
  have rd: "rd (int k * es) (nat es) base = Inr (elem (nat es) base k)"
    using fits [of k] k(1) Suc.prems(2) es by (simp add: rd_def elem_def nat_mult_distrib)
  show ?case
  proof (cases "cmpfn (elem (nat es) base k) key = 0")
    case True
    with k off rd show ?thesis
      by (subst lsearch_loop.simps) (simp add: first_match_drop)
  next
    case False
    then have "\<forall>i < Suc k. cmpfn (elem (nat es) base i) key \<noteq> 0"
      using Suc.prems(2) by (auto simp: less_Suc_eq)
    then have "lsearch_loop base key len es cmpfn (int (Suc k)) =
      Inr (map_option (\<lambda>i. int (Suc k + i) * es)
        (first_match (\<lambda>bs. cmpfn bs key = 0) (drop (Suc k) (elems (nat es) (nat len) base))))"
      using Suc.hyps(2) k by (intro Suc.hyps(1)) auto
    with k off rd False show ?thesis
      by (subst lsearch_loop.simps)
        (simp add: first_match_drop option.map_comp comp_def add_ac)
  qed
qed

section \<open>The properties\<close>

text \<open>
  Claim C31. \<open>lsearch\<close> over a block that holds \<open>len\<close> elements returns the address of the first
  element that compares equal to the key, and NULL exactly when none does, for any comparison.
\<close>

theorem lsearch_finds_first:
  assumes "0 \<le> elemSize" and "0 \<le> len" and "in_int (len * elemSize)"
    and "nat len * nat elemSize \<le> length base"
  shows "lsearch base key len elemSize cmpfn =
    Inr (map_option (\<lambda>i. int i * elemSize)
      (first_match (\<lambda>bs. cmpfn bs key = 0) (elems (nat elemSize) (nat len) base)))"
  using lsearch_loop_correct [OF assms(1-3), of 0 cmpfn base key]
    elem_fits [of _ "nat len" "nat elemSize" base] assms(4)
  by (simp add: lsearch_def)

text \<open>
  A block shorter than \<open>len\<close> elements is safe when a match lies inside it: the search
  stops at the match, without reading the rest.
\<close>

theorem lsearch_stops_at_match:
  assumes "0 \<le> elemSize" and "in_int (len * elemSize)" and "int k < len"
    and "Suc k * nat elemSize \<le> length base"
    and "cmpfn (elem (nat elemSize) base k) key = 0"
    and "\<forall>i < k. cmpfn (elem (nat elemSize) base i) key \<noteq> 0"
  shows "lsearch base key len elemSize cmpfn = Inr (Some (int k * elemSize))"
proof -
  have fits: "j * nat elemSize + nat elemSize \<le> length base"
    if "\<forall>i < j. cmpfn (elem (nat elemSize) base i) key \<noteq> 0" for j
  proof -
    have "j \<le> k" using that assms(5) by (meson not_le)
    then have "Suc j * nat elemSize \<le> Suc k * nat elemSize" by (intro mult_le_mono1) simp
    with assms(4) show ?thesis by (simp only: mult_Suc add.commute)
  qed
  have "first_match (\<lambda>bs. cmpfn bs key = 0) (elems (nat elemSize) (nat len) base) = Some k"
    using assms(3,5,6) by (auto simp: first_match_Some)
  with lsearch_loop_correct [OF assms(1) _ assms(2), of 0 cmpfn base key] assms(3) fits
  show ?thesis by (simp add: lsearch_def)
qed

section \<open>Witnesses\<close>

theorem lsearch_finds_first_witness:
  "test_int = Inr (Some 34) \<and>
    lsearch [1, 0, 2, 0, 3, 0, 2, 0] [2, 0] 4 2 (\<lambda>x y. if x = y then 0 else 1) = Inr (Some 2)"
proof
  show "test_int = Inr (Some 34)" by code_simp
  show "lsearch [1, 0, 2, 0, 3, 0, 2, 0] [2, 0] 4 2 (\<lambda>x y. if x = y then 0 else 1) = Inr (Some 2)"
    by (subst lsearch_finds_first)
      (simp_all add: in_int_def INT_MIN_def INT_MAX_def elems_def elem_def slice_def upt_rec)
qed

theorem lsearch_stops_at_match_witness:
  "lsearch [1, 0, 2, 0] [2, 0] 100 2 (\<lambda>x y. if x = y then 0 else 1) = Inr (Some 2)"
  using lsearch_stops_at_match [of 2 100 1 "[1, 0, 2, 0]" "\<lambda>x y. if x = y then 0 else 1" "[2, 0]"]
  by (simp add: in_int_def INT_MIN_def INT_MAX_def elem_def slice_def)

end
