(* ===== verification/Equations.thy ===== *)
theory Equations
  imports CMem
begin

text \<open>
  leetcode/equations.c: are the equations over the variables a..z satisfiable? The parent table
  \<open>eq_set\<close> is the list of its 26 shorts, -1 for a variable not seen yet; reads and writes outside
  it, or past the end of an equation's string, are faults. The loop of \<open>find_root\<close> stops after at
  most one step (it compares \<open>eq_set[x]\<close> with the value just read from it), so it delivers the
  grandparent, not the root.

  The lemmas: no fault on well-formed equations; every entry the table ever holds is implied by
  the equations read so far. From this an answer \<open>false\<close> is always right; an answer \<open>true\<close> is
  not, which the last property shows.
\<close>

section \<open>The code\<close>

definition get_set :: "int list \<Rightarrow> int \<Rightarrow> int result" where
  "get_set eq_set x = (if 0 \<le> x \<and> nat x < length eq_set then Inr (eq_set ! nat x) else Inl OutOfBounds)"

definition put_set :: "int list \<Rightarrow> int \<Rightarrow> int \<Rightarrow> int list result" where
  "put_set eq_set x v =
     (if 0 \<le> x \<and> nat x < length eq_set then Inr (eq_set[nat x := v]) else Inl OutOfBounds)"

text \<open>The character \<open>tmp[i]\<close>; the terminator reads as 0.\<close>

definition char_at :: "string \<Rightarrow> nat \<Rightarrow> int result" where
  "char_at tmp i =
     (if i < length tmp then Inr (of_char (tmp ! i)) else if i = length tmp then Inr 0 else Inl OutOfBounds)"

function find_loop :: "int \<Rightarrow> int \<Rightarrow> int list \<Rightarrow> int result" where
  "find_loop x root eq_set =
     rbind (get_set eq_set x) (\<lambda>v.
     if v \<noteq> root then rbind (get_set eq_set v) (\<lambda>r. find_loop v r eq_set) else Inr root)"
  by pat_completeness auto
termination
  by (relation "measure (\<lambda>(x, root, eq_set). if get_set eq_set x = Inr root then 0 else 1)") auto

declare find_loop.simps [simp del]

definition find_root :: "int \<Rightarrow> int list \<Rightarrow> int result" where
  "find_root x eq_set = find_loop x (- 1) eq_set"

text \<open>The body of the first loop, for an equation whose second character is \<open>=\<close>.\<close>

definition merge_eq :: "int \<Rightarrow> int \<Rightarrow> int list \<Rightarrow> int list result" where
  "merge_eq j k eq_set =
     rbind (find_root j eq_set) (\<lambda>jroot.
     rbind (find_root k eq_set) (\<lambda>kroot.
     if jroot \<noteq> - 1 then
       if kroot \<noteq> - 1 then
         rbind (get_set eq_set k) (\<lambda>kr.
         rbind (put_set eq_set k jroot) (\<lambda>eq_set.
         put_set eq_set kr jroot))
       else put_set eq_set k jroot
     else
       if kroot \<noteq> - 1 then put_set eq_set j kroot
       else rbind (put_set eq_set j j) (\<lambda>eq_set. put_set eq_set k j)))"

text \<open>
  The counter of the first loop is a \<open>short\<close>: after 32767 it wraps to a negative number, which
  is still below \<open>equationsSize\<close>, and the loop reads before the array.
\<close>

fun union_loop :: "nat \<Rightarrow> string list \<Rightarrow> int list \<Rightarrow> int list result" where
  "union_loop i [] eq_set = (if i > 32767 then Inl OutOfBounds else Inr eq_set)"
| "union_loop i (tmp # eqs) eq_set =
     (if i > 32767 then Inl OutOfBounds
      else
        rbind (char_at tmp 1) (\<lambda>op.
        rbind (if op = of_char (CHR ''='') then
                 rbind (char_at tmp 0) (\<lambda>c.
                 rbind (char_at tmp 3) (\<lambda>d.
                 merge_eq (c - of_char (CHR ''a'')) (d - of_char (CHR ''a'')) eq_set))
               else Inr eq_set) (\<lambda>eq_set.
        union_loop (i + 1) eqs eq_set)))"

fun check_loop :: "string list \<Rightarrow> int list \<Rightarrow> bool result" where
  "check_loop [] eq_set = Inr True"
| "check_loop (tmp # eqs) eq_set =
     rbind (char_at tmp 1) (\<lambda>op.
     if op = of_char (CHR ''!'') then
       rbind (char_at tmp 0) (\<lambda>c.
       rbind (char_at tmp 3) (\<lambda>d.
       let j = c - of_char (CHR ''a''); k = d - of_char (CHR ''a'') in
       if j = k then Inr False
       else
         rbind (find_root j eq_set) (\<lambda>jroot.
         rbind (find_root k eq_set) (\<lambda>kroot.
         if jroot \<noteq> - 1 \<and> jroot = kroot then Inr False else check_loop eqs eq_set))))
     else check_loop eqs eq_set)"

definition equationsPossible :: "string list \<Rightarrow> bool result" where
  "equationsPossible equations =
     rbind (union_loop 0 equations (replicate 26 (- 1))) (check_loop equations)"

text \<open>The inputs of the driver, in its order; it prints the answers.\<close>

definition main_inputs :: "string list list" where
  "main_inputs =
     [[''a==a''], [''a==b'', ''b==c'', ''c==a''], [''a==b'', ''b==c'', ''c==a''],
      [''a==b'', ''b==c'', ''c!=d''], [''a==b'', ''b==c'', ''c!=a''], [''a!=a''], [''a!=b''],
      [''e==e'', ''d!=e'', ''c==d'', ''d!=e''], [''e==e'', ''d!=e'', ''c==d'', ''d!=e'', ''d==e''],
      [''a==b'', ''e==c'', ''b==c'', ''a!=e'']]"

text \<open>What \<open>print_eq\<close> prints, and the output of \<open>main\<close>.\<close>

definition print_eq :: "string list \<Rightarrow> string" where
  "print_eq eqs = concat (map (\<lambda>e. e @ '' '') eqs) @ '': ''"

definition answer_line :: "string list \<Rightarrow> bool \<Rightarrow> string" where
  "answer_line eqs b = print_eq eqs @ (if b then ''1'' else ''0'') @ [CHR 0x0A]"

fun print_answers :: "string list list \<Rightarrow> string result" where
  "print_answers [] = Inr []"
| "print_answers (eqs # rest) =
     rbind (equationsPossible eqs) (\<lambda>b.
     rbind (print_answers rest) (\<lambda>out. Inr (answer_line eqs b @ out)))"

definition main_output :: "string result" where
  "main_output = print_answers main_inputs"

section \<open>What the answer should mean\<close>

text \<open>An assignment gives each variable (0 for a) a value.\<close>

definition var :: "char \<Rightarrow> nat" where
  "var c = nat (of_char c - of_char (CHR ''a''))"

fun sat :: "(nat \<Rightarrow> nat) \<Rightarrow> string \<Rightarrow> bool" where
  "sat a [x, op, _, y] = (if op = CHR ''='' then a (var x) = a (var y) else a (var x) \<noteq> a (var y))"
| "sat a _ = False"

definition satisfiable :: "string list \<Rightarrow> bool" where
  "satisfiable eqs \<longleftrightarrow> (\<exists>a. \<forall>e \<in> set eqs. sat a e)"

definition letter :: "char \<Rightarrow> bool" where
  "letter c \<longleftrightarrow> (97 :: int) \<le> of_char c \<and> (of_char c :: int) < 97 + 26"

fun wf_eq :: "string \<Rightarrow> bool" where
  "wf_eq [x, op, e, y] = (letter x \<and> letter y \<and> op \<in> {CHR ''='', CHR ''!''} \<and> e = CHR ''='')"
| "wf_eq _ = False"

section \<open>The table\<close>

text \<open>
  The invariant, relative to an assignment: a variable that has been seen has a parent that has
  been seen too and has the same value.
\<close>

definition table_ok :: "(nat \<Rightarrow> nat) \<Rightarrow> int list \<Rightarrow> bool" where
  "table_ok a eq_set \<longleftrightarrow> length eq_set = 26 \<and>
     (\<forall>x < 26. eq_set ! x \<noteq> - 1 \<longrightarrow>
        0 \<le> eq_set ! x \<and> eq_set ! x < 26 \<and> eq_set ! nat (eq_set ! x) \<noteq> - 1 \<and> a (nat (eq_set ! x)) = a x)"

lemma table_okD:
  "table_ok a eq_set \<Longrightarrow> x < 26 \<Longrightarrow> eq_set ! x \<noteq> - 1 \<Longrightarrow>
   0 \<le> eq_set ! x \<and> eq_set ! x < 26 \<and> eq_set ! nat (eq_set ! x) \<noteq> - 1 \<and> a (nat (eq_set ! x)) = a x"
  by (simp add: table_ok_def)

lemma table_ok_length: "table_ok a eq_set \<Longrightarrow> length eq_set = 26"
  by (simp add: table_ok_def)

lemma table_ok_initial: "table_ok a (replicate 26 (- 1))"
  by (simp add: table_ok_def)

lemma table_ok_put:
  "table_ok a eq_set \<Longrightarrow> x < 26 \<Longrightarrow> 0 \<le> v \<Longrightarrow> v < 26 \<Longrightarrow> eq_set ! nat v \<noteq> - 1 \<or> nat v = x \<Longrightarrow>
   a (nat v) = a x \<Longrightarrow> table_ok a (eq_set[x := v])"
  by (auto simp: table_ok_def nth_list_update)

text \<open>\<open>find_root\<close> returns the grandparent of a variable that has been seen, -1 otherwise.\<close>

lemma find_root_ok:
  assumes "table_ok a eq_set" "x < 26"
  shows "find_root (int x) eq_set =
    Inr (if eq_set ! x = - 1 then - 1 else eq_set ! nat (eq_set ! x))"
proof -
  have "find_loop v (eq_set ! nat v) eq_set = Inr (eq_set ! nat v)" if "0 \<le> v" "v < 26" for v
    using that table_ok_length [OF assms(1)] by (subst find_loop.simps) (simp add: get_set_def)
  with table_okD [OF assms] table_ok_length [OF assms(1)] assms(2) show ?thesis
    unfolding find_root_def by (subst find_loop.simps) (auto simp: get_set_def nat_less_iff)
qed

text \<open>In any table, the one step of the loop: what \<open>find_root\<close> computes.\<close>

lemma find_root_eq:
  "find_root x eq_set = rbind (get_set eq_set x) (\<lambda>v. if v = - 1 then Inr (- 1) else get_set eq_set v)"
proof -
  have "find_loop v r eq_set = Inr r" if "get_set eq_set v = Inr r" for v r
    using that by (subst find_loop.simps) simp
  then show ?thesis
    unfolding find_root_def by (subst find_loop.simps) (auto simp: rbind_def split: sum.splits)
qed

lemma grandparent_ok:
  assumes "table_ok a eq_set" "x < 26" "eq_set ! x \<noteq> - 1"
  shows "0 \<le> eq_set ! nat (eq_set ! x) \<and> eq_set ! nat (eq_set ! x) < 26 \<and>
    eq_set ! nat (eq_set ! nat (eq_set ! x)) \<noteq> - 1 \<and> a (nat (eq_set ! nat (eq_set ! x))) = a x"
  using table_okD [OF assms] table_okD [OF assms(1), of "nat (eq_set ! x)"]
  by (auto simp: nat_less_iff)

lemma merge_eq_ok:
  assumes ok: "table_ok a eq_set" and jk: "j < 26" "k < 26" and eq: "a j = a k"
  shows "\<exists>eq_set'. merge_eq (int j) (int k) eq_set = Inr eq_set' \<and> table_ok a eq_set'"
proof -
  note len = table_ok_length [OF ok]
  note gj = grandparent_ok [OF ok jk(1)] and gk = grandparent_ok [OF ok jk(2)]
  note roots = find_root_ok [OF ok jk(1)] find_root_ok [OF ok jk(2)]
  consider "eq_set ! j \<noteq> - 1" "eq_set ! k \<noteq> - 1" | "eq_set ! j \<noteq> - 1" "eq_set ! k = - 1"
    | "eq_set ! j = - 1" "eq_set ! k \<noteq> - 1" | "eq_set ! j = - 1" "eq_set ! k = - 1" by blast
  then show ?thesis
  proof cases
    case 1
    let ?r = "eq_set ! nat (eq_set ! j)"
    have p: "0 \<le> eq_set ! k" "eq_set ! k < 26" "a (nat (eq_set ! k)) = a k"
      using table_okD [OF ok jk(2) 1(2)] by auto
    have one: "table_ok a (eq_set[k := ?r])" using gj [OF 1(1)] eq jk by (intro table_ok_put [OF ok]) auto
    moreover have "?r \<noteq> - 1" "eq_set ! nat (eq_set ! k) \<noteq> - 1" using gj [OF 1(1)] gk [OF 1(2)] by auto
    moreover have "table_ok a (eq_set[k := ?r, nat (eq_set ! k) := ?r])"
      using gj [OF 1(1)] p eq jk len by (intro table_ok_put [OF one]) (auto simp: nth_list_update)
    ultimately show ?thesis
      using roots 1 jk len p by (auto simp: merge_eq_def get_set_def put_set_def)
  next
    case 2
    have "table_ok a (eq_set[k := eq_set ! nat (eq_set ! j)])"
      using gj [OF 2(1)] eq jk by (intro table_ok_put [OF ok]) auto
    then show ?thesis
      using roots 2 gj [OF 2(1)] jk len by (auto simp: merge_eq_def put_set_def)
  next
    case 3
    have "table_ok a (eq_set[j := eq_set ! nat (eq_set ! k)])"
      using gk [OF 3(2)] eq jk by (intro table_ok_put [OF ok]) auto
    then show ?thesis
      using roots 3 gk [OF 3(2)] jk len by (auto simp: merge_eq_def put_set_def)
  next
    case 4
    have one: "table_ok a (eq_set[j := int j])" using jk by (intro table_ok_put [OF ok]) auto
    have "table_ok a (eq_set[j := int j, k := int j])"
      using jk eq len by (intro table_ok_put [OF one]) (auto simp: nth_list_update)
    then show ?thesis
      using roots 4 jk len by (auto simp: merge_eq_def put_set_def)
  qed
qed

section \<open>The loops\<close>

lemma letter_index:
  "letter c \<Longrightarrow> of_char c - of_char (CHR ''a'') = int (var c) \<and> var c < 26"
  by (auto simp: letter_def var_def)

lemma wf_eq_cases:
  assumes "wf_eq e"
  obtains x op y where "e = [x, op, CHR ''='', y]" "letter x" "letter y" "op = CHR ''='' \<or> op = CHR ''!''"
proof -
  from assms obtain x op c y where "e = [x, op, c, y]" by (cases e rule: wf_eq.cases) auto
  with assms show thesis by (intro that) auto
qed

lemma char_at_wf [simp]:
  "char_at [x, op, c, y] 0 = Inr (of_char x)" "char_at [x, op, c, y] 1 = Inr (of_char op)"
  "char_at [x, op, c, y] (Suc 0) = Inr (of_char op)" "char_at [x, op, c, y] 3 = Inr (of_char y)"
  by (auto simp: char_at_def numeral_3_eq_3)

lemma union_loop_ok:
  "i + length eqs \<le> 32767 \<Longrightarrow> (\<forall>e \<in> set eqs. wf_eq e \<and> (e ! 1 = CHR ''='' \<longrightarrow> sat a e)) \<Longrightarrow>
   table_ok a eq_set \<Longrightarrow> \<exists>eq_set'. union_loop i eqs eq_set = Inr eq_set' \<and> table_ok a eq_set'"
proof (induction eqs arbitrary: i eq_set)
  case Nil
  then show ?case by simp
next
  case (Cons e eqs)
  from Cons.prems have wf: "wf_eq e" by simp
  obtain x op y where e: "e = [x, op, CHR ''='', y]" "letter x" "letter y" "op = CHR ''='' \<or> op = CHR ''!''"
    using wf by (rule wf_eq_cases)
  obtain eq_set1 where one: "table_ok a eq_set1"
    "(if op = CHR ''='' then merge_eq (int (var x)) (int (var y)) eq_set else Inr eq_set) = Inr eq_set1"
  proof (cases "op = CHR ''=''")
    case True
    with e Cons.prems(2) have "a (var x) = a (var y)" by auto
    with True letter_index [OF e(2)] letter_index [OF e(3)] Cons.prems(3) that show thesis
      by (metis merge_eq_ok)
  next
    case False
    with Cons.prems(3) that show thesis by auto
  qed
  obtain eq_set' where "union_loop (i + 1) eqs eq_set1 = Inr eq_set'" "table_ok a eq_set'"
    using Cons.IH [of "i + 1" eq_set1] Cons.prems one(1) by auto
  with one(2) e letter_index [OF e(2)] letter_index [OF e(3)] Cons.prems(1) show ?case
    by (auto simp del: of_char_eq_iff split: if_splits)
qed

lemma check_loop_ok:
  assumes "table_ok a eq_set" "\<forall>e \<in> set eqs. wf_eq e"
  shows "\<exists>b. check_loop eqs eq_set = Inr b \<and> (\<not> b \<longrightarrow> (\<exists>e \<in> set eqs. \<not> sat a e))"
  using assms(2)
proof (induction eqs)
  case Nil
  then show ?case by auto
next
  case (Cons e eqs)
  then have wf: "wf_eq e" by simp
  obtain x op y where e: "e = [x, op, CHR ''='', y]" "letter x" "letter y" "op = CHR ''='' \<or> op = CHR ''!''"
    using wf by (rule wf_eq_cases)
  note v = letter_index [OF e(2)] letter_index [OF e(3)]
  obtain b where b: "check_loop eqs eq_set = Inr b" "\<not> b \<longrightarrow> (\<exists>e \<in> set eqs. \<not> sat a e)"
    using Cons by auto
  show ?case
  proof (cases "op = CHR ''!''")
    case False
    with e b show ?thesis by auto
  next
    case True
    note roots = find_root_ok [OF assms(1), of "var x"] find_root_ok [OF assms(1), of "var y"]
    have "a (var x) = a (var y)"
      if "eq_set ! var x \<noteq> - 1" "eq_set ! var y \<noteq> - 1"
        "eq_set ! nat (eq_set ! var x) = eq_set ! nat (eq_set ! var y)"
      using that v grandparent_ok [OF assms(1), of "var x"] grandparent_ok [OF assms(1), of "var y"]
      by metis
    with True e v roots b show ?thesis
      using grandparent_ok [OF assms(1), of "var x"] grandparent_ok [OF assms(1), of "var y"]
      by (auto simp: Let_def)
  qed
qed

section \<open>The properties\<close>

lemma equationsPossible_cases:
  assumes "\<forall>e \<in> set eqs. wf_eq e" and "length eqs \<le> 32767"
  shows "\<exists>b. equationsPossible eqs = Inr b"
proof -
  have "\<forall>e \<in> set eqs. wf_eq e \<and> (e ! 1 = CHR ''='' \<longrightarrow> sat (\<lambda>_. 0) e)"
    using assms(1) by (auto elim!: wf_eq_cases)
  from union_loop_ok [OF _ this table_ok_initial, of 0] assms(2) obtain eq_set where
    "union_loop 0 eqs (replicate 26 (- 1)) = Inr eq_set" "table_ok (\<lambda>_. 0) eq_set" by auto
  with check_loop_ok [OF _ assms(1)] show ?thesis by (fastforce simp: equationsPossible_def)
qed

text \<open>
  Claim C27. On at most 32767 well-formed equations \<open>equationsPossible\<close> returns (its loops end
  and no table or string access is out of bounds), and whenever it answers \<open>false\<close> no assignment
  satisfies the equations.
\<close>

theorem equationsPossible_false_correct:
  assumes "\<forall>e \<in> set eqs. wf_eq e" and "length eqs \<le> 32767"
  shows "\<exists>b. equationsPossible eqs = Inr b \<and> (satisfiable eqs \<longrightarrow> b)"
proof (cases "satisfiable eqs")
  case False
  with equationsPossible_cases [OF assms] show ?thesis by auto
next
  case True
  then obtain a where a: "\<forall>e \<in> set eqs. sat a e" by (auto simp: satisfiable_def)
  with assms(1) have "\<forall>e \<in> set eqs. wf_eq e \<and> (e ! 1 = CHR ''='' \<longrightarrow> sat a e)" by auto
  from union_loop_ok [OF _ this table_ok_initial, of 0] assms(2) obtain eq_set where
    "union_loop 0 eqs (replicate 26 (- 1)) = Inr eq_set" "table_ok a eq_set" by auto
  with check_loop_ok [OF _ assms(1)] a show ?thesis by (fastforce simp: equationsPossible_def)
qed

lemma replicate_26: "replicate 26 x = [x, x, x, x, x, x, x, x, x, x, x, x, x, x, x, x, x, x, x, x, x, x, x, x, x, x]"
  by (simp add: numeral_eq_Suc)

lemma list_update_Cons_numeral:
  "(x # xs)[numeral n := v] = x # xs[pred_numeral n := v]"
  by (simp add: numeral_eq_Suc)

lemmas run_equations =
  equationsPossible_def find_root_eq merge_eq_def get_set_def put_set_def char_at_def replicate_26
  list_update_Cons_numeral

definition chain_eqs :: "string list" where
  "chain_eqs = [''a==b'', ''c==d'', ''a==c'', ''e==f'', ''e==d'', ''a!=c'']"

text \<open>
  An answer \<open>true\<close> can be wrong: these six equations contain \<open>a==c\<close> and \<open>a!=c\<close>, so
  nothing satisfies them, but merging the class of d into that of e moves d's parent only and
  leaves a and c with different grandparents, and \<open>equationsPossible\<close> answers \<open>true\<close>.
\<close>

theorem equationsPossible_true_wrong:
  "equationsPossible chain_eqs = Inr True \<and> \<not> satisfiable chain_eqs"
proof
  show "equationsPossible chain_eqs = Inr True" by (simp add: chain_eqs_def run_equations cong: rbind_weak_cong)
  show "\<not> satisfiable chain_eqs" by (auto simp: satisfiable_def chain_eqs_def)
qed

text \<open>What the driver prints: for each of its ten inputs the right answer.\<close>

theorem main_answers:
  "main_output = Inr (concat (map2 answer_line main_inputs
     [True, True, True, True, False, False, True, True, False, False]))"
  by (simp add: main_output_def main_inputs_def run_equations
      cong: rbind_weak_cong)

section \<open>Witnesses\<close>

theorem equationsPossible_false_correct_witness:
  "\<exists>b. equationsPossible [''a==b'', ''b!=c''] = Inr b \<and> (satisfiable [''a==b'', ''b!=c''] \<longrightarrow> b)"
  by (rule equationsPossible_false_correct) (auto simp: letter_def)

end
