(* ===== verification/CStr.thy ===== *)
theory CStr
  imports CMem
begin

text \<open>
  C strings as character lists, and the conversion of decimal text to numbers that \<open>scanf\<close>
  and \<open>atoi\<close> share.
\<close>

abbreviation NUL :: char where "NUL \<equiv> CHR 0x00"
abbreviation NL :: char where "NL \<equiv> CHR 0x0A"

definition is_space :: "char \<Rightarrow> bool" where
  "is_space c \<longleftrightarrow> c \<in> {CHR '' '', CHR 0x09, NL, CHR 0x0B, CHR 0x0C, CHR 0x0D}"

definition is_digit :: "char \<Rightarrow> bool" where
  "is_digit c \<longleftrightarrow> (48 :: nat) \<le> of_char c \<and> (of_char c :: nat) \<le> 57"

fun dec_value :: "int \<Rightarrow> string \<Rightarrow> int" where
  "dec_value v [] = v"
| "dec_value v (c # cs) = dec_value (10 * v + (of_char c - 48)) cs"

definition scan_sign :: "string \<Rightarrow> int \<times> string" where
  "scan_sign s =
     (case s of [] \<Rightarrow> (1, [])
      | c # cs \<Rightarrow> if c = CHR ''-'' then (- 1, cs) else if c = CHR ''+'' then (1, cs) else (1, s))"

text \<open>
  \<open>atoi\<close>: leading white space, a sign, the digits that follow; the value is truncated to
  \<open>int\<close> as the usual implementation through \<open>strtol\<close> does.
\<close>

definition atoi :: "string \<Rightarrow> int" where
  "atoi str =
     (case scan_sign (dropWhile is_space str) of
        (sg, s) \<Rightarrow> sint (word_of_int (sg * dec_value 0 (takeWhile is_digit s)) :: 32 word))"

text \<open>Decimal output, as \<open>%d\<close> and \<open>%lu\<close> print a natural number.\<close>

fun dec_string :: "nat \<Rightarrow> string" where
  "dec_string n =
     (if n < 10 then [char_of (48 + n)] else dec_string (n div 10) @ [char_of (48 + n mod 10)])"

declare dec_string.simps [simp del]

lemma dec_value_append: "dec_value v (xs @ [c]) = 10 * dec_value v xs + (of_char c - 48)"
  by (induction xs arbitrary: v) auto

lemma dec_value_string: "dec_value 0 (dec_string n) = int n"
proof (induction n rule: dec_string.induct)
  case (1 n)
  have d: "of_char (char_of (48 + m) :: char) = (48 + int m)" if "m < 10" for m :: nat
  proof -
    have "of_char (char_of (48 + m) :: char) = (48 + m) mod 256" by simp
    then have "int (of_char (char_of (48 + m) :: char)) = int ((48 + m) mod 256)" by (rule arg_cong)
    with that show ?thesis by (simp only: of_nat_of_char) simp
  qed
  show ?case
  proof (cases "n < 10")
    case True
    with d [of n] show ?thesis by (simp add: dec_string.simps [of n])
  next
    case False
    with 1 d [of "n mod 10"] show ?thesis
      by (subst dec_string.simps) (simp add: dec_value_append zdiv_int zmod_int)
  qed
qed

end
