(* ===== verification/Columns.thy ===== *)
theory Columns
  imports CStr
begin

text \<open>
  read_column_numbers.c: read pairs of column numbers, then print those columns of each input
  line. The arrays are lists with checked accesses, the standard input is the string not yet
  read, and \<open>main_lines\<close> returns the rearranged lines it prints. \<open>scanf\<close>, \<open>gets\<close>,
  \<open>strlen\<close> and \<open>strncpy\<close> are modelled here as the C library specifies them.

  The lemmas: the numbers read are paired and non-negative; \<open>rearrange\<close> prints exactly the
  selected columns as long as they fit; the bound it checks does not keep it inside the buffer.
\<close>

section \<open>The C library\<close>

text \<open>\<open>scanf("%d")\<close>: the number, if one follows, and the input that is left.\<close>

definition scanf_d :: "string \<Rightarrow> int option \<times> string" where
  "scanf_d inp =
     (case scan_sign (dropWhile is_space inp) of
        (sg, s) \<Rightarrow>
          if takeWhile is_digit s = [] then (None, s)
          else (Some (sg * dec_value 0 (takeWhile is_digit s)), dropWhile is_digit s))"

text \<open>\<open>gets\<close>: a line without its newline, or \<open>None\<close> at the end of the input.\<close>

definition gets :: "string \<Rightarrow> (string \<times> string) option" where
  "gets inp = (if inp = [] then None else Some (takeWhile (\<lambda>c. c \<noteq> NL) inp, drop 1 (dropWhile (\<lambda>c. c \<noteq> NL) inp)))"

text \<open>The string a buffer holds: up to the first terminator.\<close>

definition c_str :: "string \<Rightarrow> string" where
  "c_str buf = takeWhile (\<lambda>c. c \<noteq> NUL) buf"

text \<open>What \<open>strncpy\<close> writes: \<open>n\<close> characters, padded with terminators.\<close>

definition strncpy_chars :: "string \<Rightarrow> nat \<Rightarrow> string" where
  "strncpy_chars src n = take n (c_str src) @ replicate (n - length (c_str src)) NUL"

text \<open>\<open>strncpy\<close> into a buffer; a negative count converts to one no buffer can hold.\<close>

definition strncpy :: "string \<Rightarrow> int \<Rightarrow> string \<Rightarrow> int \<Rightarrow> string result" where
  "strncpy buf off src n =
     (if n < 0 then Inl OutOfBounds else wr off (strncpy_chars src (nat n)) buf)"

section \<open>The code\<close>

definition MAX_COLS :: int where "MAX_COLS = 20"
definition MAX_INPUT :: int where "MAX_INPUT = 1000"

function read_loop :: "int list \<Rightarrow> int \<Rightarrow> int \<Rightarrow> string \<Rightarrow> (int list \<times> int \<times> string) result" where
  "read_loop columns maxn num inp =
     (if num < maxn then
        (case scanf_d inp of
           (None, inp) \<Rightarrow> Inr (columns, num, inp)
         | (Some v, inp) \<Rightarrow>
             rbind (cint v) (\<lambda>v.
             rbind (wr num [v] columns) (\<lambda>columns.
             if v \<ge> 0 then read_loop columns maxn (num + 1) inp else Inr (columns, num, inp))))
      else Inr (columns, num, inp))"
  by pat_completeness auto
termination
  by (relation "measure (\<lambda>(columns, maxn, num, inp). nat (maxn - num))") auto

declare read_loop.simps [simp del]

text \<open>\<open>None\<close>: the program has exited because the numbers are not paired.\<close>

definition read_column_number :: "int list \<Rightarrow> int \<Rightarrow> string \<Rightarrow> (int list \<times> int \<times> string) option result" where
  "read_column_number columns maxn inp =
     rbind (read_loop columns maxn 0 inp) (\<lambda>(columns, num, inp).
     if num mod 2 \<noteq> 0 then Inr None
     else Inr (Some (columns, num, drop 1 (dropWhile (\<lambda>c. c \<noteq> NL) inp))))"

function rearrange_loop :: "string \<Rightarrow> string \<Rightarrow> int \<Rightarrow> int list \<Rightarrow> int \<Rightarrow> int \<Rightarrow> (string \<times> int) result" where
  "rearrange_loop output input n_columns columns col output_col =
     (if col < n_columns then
        rbind (rd col 1 columns) (\<lambda>lo.
        rbind (rd (col + 1) 1 columns) (\<lambda>hi.
        rbind (cint (hd hi - hd lo)) (\<lambda>d.
        rbind (cint (d + 1)) (\<lambda>nchars.
        if hd lo \<ge> int (length (c_str input)) \<or> output_col = MAX_INPUT - 1 then Inr (output, output_col)
        else
          rbind (strncpy output output_col (drop (nat (hd lo)) input) nchars) (\<lambda>output.
          rbind (cint (output_col + nchars)) (\<lambda>output_col.
          rearrange_loop output input n_columns columns (col + 2) output_col))))))
      else Inr (output, output_col))"
  by pat_completeness auto
termination
  by (relation "measure (\<lambda>(output, input, n, columns, col, oc). nat (n - col))") auto

declare rearrange_loop.simps [simp del]

definition rearrange :: "string \<Rightarrow> string \<Rightarrow> int \<Rightarrow> int list \<Rightarrow> string result" where
  "rearrange output input n_columns columns =
     rbind (rearrange_loop output input n_columns columns 0 0) (\<lambda>(output, output_col).
     wr output_col [NUL] output)"

text \<open>
  The loop of \<open>main\<close> over the remaining input; \<open>gets\<close> stores the line and its terminator in
  the input buffer.
\<close>

function line_loop :: "string \<Rightarrow> string \<Rightarrow> int \<Rightarrow> int list \<Rightarrow> string \<Rightarrow> string list result" where
  "line_loop input output n_columns columns inp =
     (case gets inp of
        None \<Rightarrow> Inr []
      | Some (line, inp) \<Rightarrow>
          rbind (wr 0 (line @ [NUL]) input) (\<lambda>input.
          rbind (rearrange output input n_columns columns) (\<lambda>output.
          rbind (line_loop input output n_columns columns inp) (\<lambda>ls. Inr (c_str output # ls)))))"
  by pat_completeness auto
termination
proof (relation "measure (\<lambda>(input, output, n, columns, inp). length inp)")
  fix inp :: string and x line inp'
  assume "gets inp = Some x" "(line, inp') = x"
  then have "inp \<noteq> []" "inp' = drop 1 (dropWhile (\<lambda>c. c \<noteq> NL) inp)" by (auto simp: gets_def split: if_splits)
  moreover have "length (dropWhile (\<lambda>c. c \<noteq> NL) inp) \<le> length inp" by (rule length_dropWhile_le)
  ultimately show "((i', o', n', c', inp'), (i, out, n, c, inp)) \<in> measure (\<lambda>(input, output, n, columns, inp). length inp)"
    for i' o' n' c' i out n c by (cases inp) auto
qed auto

declare line_loop.simps [simp del]

definition main_lines :: "int list \<Rightarrow> string \<Rightarrow> string \<Rightarrow> string \<Rightarrow> string list option result" where
  "main_lines columns input output inp =
     rbind (read_column_number columns MAX_COLS inp) (\<lambda>r.
     case r of
       None \<Rightarrow> Inr None
     | Some (columns, n_columns, inp) \<Rightarrow> rbind (line_loop input output n_columns columns inp) (\<lambda>ls. Inr (Some ls)))"
section \<open>Reading the column numbers\<close>

lemma read_loop_ok:
  assumes "maxn \<le> int (length columns)" "0 \<le> num" "num \<le> maxn" "\<forall>i < nat num. 0 \<le> columns ! i"
  shows "read_loop columns maxn num inp = Inl IntOverflow \<or>
    (\<exists>columns' num' inp'. read_loop columns maxn num inp = Inr (columns', num', inp') \<and>
       0 \<le> num' \<and> num' \<le> maxn \<and> length columns' = length columns \<and> (\<forall>i < nat num'. 0 \<le> columns' ! i))"
  using assms
proof (induction "nat (maxn - num)" arbitrary: columns num inp rule: less_induct)
  case less
  show ?case
  proof (cases "num < maxn")
    case False
    with less.prems show ?thesis by (subst (1 2) read_loop.simps) auto
  next
    case True
    obtain r inp' where s: "scanf_d inp = (r, inp')" by fastforce
    show ?thesis
    proof (cases "\<exists>v. r = Some v \<and> in_int v")
      case False
      with True s less.prems show ?thesis
        by (subst (1 2) read_loop.simps) (auto simp: cint_def split: option.splits)
    next
      case t: True
      then obtain v where v: "r = Some v" "in_int v" by blast
      let ?c = "columns[nat num := v]"
      have wr: "wr num [v] columns = Inr ?c"
        using True less.prems by (auto simp: wr_def overwrite_def upd_conv_take_nth_drop)
      show ?thesis
      proof (cases "0 \<le> v")
        case False
        with True s v wr less.prems show ?thesis by (subst (1 2) read_loop.simps) auto
      next
        case pos: True
        have "\<forall>i < nat (num + 1). 0 \<le> ?c ! i"
          using less.prems pos True by (auto simp: nth_list_update)
        with True pos s v wr less.prems less.hyps [of "num + 1" ?c inp']
        show ?thesis by (subst (1 2) read_loop.simps) auto
      qed
    qed
  qed
qed

text \<open>
  Claim C32. \<open>read_column_number\<close> into an array of at least \<open>max\<close> numbers never leaves the array
  and returns (unless a number overflows \<open>int\<close>); when the program goes on, the numbers are
  paired, at most \<open>max\<close>, and none is negative, whatever the input was.
\<close>

theorem read_column_number_paired:
  assumes "0 \<le> maxn" and "maxn \<le> int (length columns)"
  shows "case read_column_number columns maxn inp of
      Inl e \<Rightarrow> e = IntOverflow
    | Inr None \<Rightarrow> True
    | Inr (Some (columns', n, rest)) \<Rightarrow> 0 \<le> n \<and> n \<le> maxn \<and> even n \<and>
        length columns' = length columns \<and> list_all (\<lambda>c. 0 \<le> c) (take (nat n) columns')"
proof -
  have "\<forall>i < nat 0. 0 \<le> columns ! i" by simp
  from read_loop_ok [OF assms(2) order_refl assms(1) this, of inp] assms(2) show ?thesis
    by (auto simp: read_column_number_def list_all_length min_def)
qed

section \<open>Rearranging a line\<close>

fun flat_pairs :: "(int \<times> int) list \<Rightarrow> int list" where
  "flat_pairs [] = []"
| "flat_pairs ((a, b) # ps) = a # b # flat_pairs ps"

text \<open>The columns that are used, their characters and their number.\<close>

definition used :: "string \<Rightarrow> (int \<times> int) list \<Rightarrow> (int \<times> int) list" where
  "used s ps = takeWhile (\<lambda>(a, b). a < int (length s)) ps"

definition pick :: "string \<Rightarrow> int \<times> int \<Rightarrow> string" where
  "pick s p = slice (nat (fst p)) (nat (snd p - fst p + 1)) s"

fun width :: "(int \<times> int) list \<Rightarrow> int" where
  "width [] = 0"
| "width ((a, b) # ps) = (b - a + 1) + width ps"

definition pair_ok :: "int \<times> int \<Rightarrow> bool" where
  "pair_ok p \<longleftrightarrow> 0 \<le> fst p \<and> fst p \<le> snd p \<and> snd p < INT_MAX"

lemma used_Cons: "used s ((a, b) # ps) = (if a < int (length s) then (a, b) # used s ps else [])"
  by (simp add: used_def)

lemma pair_ok_used: "list_all pair_ok ps \<Longrightarrow> list_all pair_ok (used s ps)"
  by (auto simp: used_def list_all_iff dest: set_takeWhileD)

lemma width_nonneg: "list_all pair_ok ps \<Longrightarrow> 0 \<le> width ps"
  by (induction ps rule: width.induct) (auto simp: pair_ok_def)

lemma c_str_drop: "n \<le> length (c_str s) \<Longrightarrow> c_str (drop n s) = drop n (c_str s)"
proof (induction n arbitrary: s)
  case 0
  then show ?case by simp
next
  case (Suc n)
  then obtain c cs where "s = c # cs" "c \<noteq> NUL" by (cases s) (auto simp: c_str_def split: if_splits)
  with Suc show ?case by (simp add: c_str_def)
qed

lemma strncpy_chars_inside:
  "0 \<le> a \<Longrightarrow> a \<le> b \<Longrightarrow> b < int (length (c_str s)) \<Longrightarrow>
   strncpy_chars (drop (nat a) s) (nat (b - a + 1)) = pick (c_str s) (a, b)"
  by (simp add: strncpy_chars_def c_str_drop pick_def slice_def)

lemma length_pick: "0 \<le> a \<Longrightarrow> a \<le> b \<Longrightarrow> b < int (length s) \<Longrightarrow> length (pick s (a, b)) = nat (b - a + 1)"
  by (simp add: pick_def)

lemma take_overwrite_extend:
  "off + length ys \<le> length xs \<Longrightarrow> take (off + length ys) (overwrite off ys xs) = take off xs @ ys"
  by (cases ys) (auto simp: overwrite_def min_def)

lemma rearrange_loop_ok:
  assumes "0 \<le> col" "length pre = nat col" "list_all pair_ok ps" "0 \<le> oc"
    "list_all (\<lambda>(a, b). b < int (length (c_str input))) (used (c_str input) ps)"
    "oc + width (used (c_str input) ps) < MAX_INPUT" "MAX_INPUT \<le> int (length outb)"
  shows "\<exists>out. rearrange_loop outb input (col + 2 * int (length ps)) (pre @ flat_pairs ps @ post) col oc =
      Inr (out, oc + width (used (c_str input) ps)) \<and> length out = length outb \<and>
    take (nat (oc + width (used (c_str input) ps))) out =
      take (nat oc) outb @ concat (map (pick (c_str input)) (used (c_str input) ps))"
  using assms
proof (induction ps arbitrary: col pre oc outb)
  case Nil
  then show ?case by (subst rearrange_loop.simps) (simp add: used_def)
next
  case (Cons p ps)
  obtain a b where p: "p = (a, b)" by fastforce
  let ?s = "c_str input" and ?w = "b - a + 1"
  have ab: "0 \<le> a" "a \<le> b" "b < INT_MAX" using Cons.prems(3) by (auto simp: p pair_ok_def)
  have d: "in_int (b - a)" "in_int ?w"
    using ab by (auto simp: in_int_def INT_MIN_def)
  have rd: "rd col 1 (pre @ flat_pairs (p # ps) @ post) = Inr [a]"
    "rd (col + 1) 1 (pre @ flat_pairs (p # ps) @ post) = Inr [b]"
    using Cons.prems(1,2) by (auto simp: p rd_def slice_def nat_add_distrib)
  have more: "col < col + 2 * int (length (p # ps))" by simp
  show ?case
  proof (cases "a < int (length ?s)")
    case False
    with rd d more show ?thesis
      by (subst rearrange_loop.simps) (simp add: p used_Cons)
  next
    case True
    let ?u = "used ?s ps"
    have b: "b < int (length ?s)" using Cons.prems(5) True by (simp add: p used_Cons)
    have wu: "0 \<le> width ?u" using Cons.prems(3) by (intro width_nonneg pair_ok_used) simp
    have room: "oc + ?w + width ?u < MAX_INPUT" using Cons.prems(6) True by (simp add: p used_Cons)
    have ne: "oc \<noteq> MAX_INPUT - 1" using room wu ab by simp
    let ?out = "overwrite (nat oc) (pick ?s (a, b)) outb"
    have len: "length (pick ?s (a, b)) = nat ?w" using ab b by (intro length_pick) auto
    have fits: "nat oc + nat ?w \<le> length outb"
      using room wu ab Cons.prems(4,7) by linarith
    have cp: "strncpy outb oc (drop (nat a) input) ?w = Inr ?out"
      using ab b fits len Cons.prems(4) by (simp add: strncpy_def strncpy_chars_inside wr_def)
    have oc: "in_int (oc + ?w)"
      using room wu ab Cons.prems(4) by (simp add: in_int_def INT_MIN_def INT_MAX_def MAX_INPUT_def)
    have "\<exists>out. rearrange_loop ?out input (col + 2 + 2 * int (length ps)) ((pre @ [a, b]) @ flat_pairs ps @ post) (col + 2) (oc + ?w) =
        Inr (out, oc + ?w + width ?u) \<and> length out = length ?out \<and>
      take (nat (oc + ?w + width ?u)) out = take (nat (oc + ?w)) ?out @ concat (map (pick ?s) ?u)"
      using Cons.prems True ab fits len room by (intro Cons.IH) (auto simp: p used_Cons nat_add_distrib)
    then obtain out where out: "rearrange_loop ?out input (col + 2 + 2 * int (length ps))
        ((pre @ [a, b]) @ flat_pairs ps @ post) (col + 2) (oc + ?w) = Inr (out, oc + ?w + width ?u)"
      "length out = length ?out"
      "take (nat (oc + ?w + width ?u)) out = take (nat (oc + ?w)) ?out @ concat (map (pick ?s) ?u)" by blast
    have "nat (oc + ?w) = nat oc + length (pick ?s (a, b))"
      using len ab Cons.prems(4) by (simp add: nat_add_distrib)
    then have "take (nat (oc + ?w)) ?out = take (nat oc) outb @ pick ?s (a, b)"
      using fits len take_overwrite_extend [of "nat oc" "pick ?s (a, b)" outb] by simp
    moreover have "rearrange_loop outb input (col + 2 * int (length (p # ps))) (pre @ flat_pairs (p # ps) @ post) col oc
      = rearrange_loop ?out input (col + 2 + 2 * int (length ps)) ((pre @ [a, b]) @ flat_pairs ps @ post) (col + 2) (oc + ?w)"
      using rd d more True ne cp oc
      by (subst rearrange_loop.simps) (simp add: p add.assoc)
    ultimately show ?thesis
      using out True fits len by (simp add: p used_Cons add.assoc)
  qed
qed
lemma length_flat_pairs: "length (flat_pairs ps) = 2 * length ps"
  by (induction ps rule: flat_pairs.induct) auto

lemma NUL_free_pick: "NUL \<notin> set s \<Longrightarrow> NUL \<notin> set (pick s p)"
  by (auto simp: pick_def slice_def dest: in_set_takeD in_set_dropD)

lemma NUL_free_c_str: "NUL \<notin> set (c_str s)"
  by (auto simp: c_str_def dest: set_takeWhileD)

lemma c_str_terminated: "NUL \<notin> set t \<Longrightarrow> c_str (t @ NUL # xs) = t"
  by (induction t) (auto simp: c_str_def)

text \<open>
  Claim C28. With well-formed column pairs, an output buffer of \<open>MAX_INPUT\<close> characters and used
  columns that lie in the line and fit the buffer with the terminator, \<open>rearrange\<close> returns and
  the output is exactly the characters of those columns, in the order of the pairs, up to the
  first pair that starts past the end of the line.
\<close>

theorem rearrange_selects:
  assumes "list_all pair_ok ps" and "MAX_INPUT \<le> int (length outb)"
    and "list_all (\<lambda>(a, b). b < int (length (c_str input))) (used (c_str input) ps)"
    and "width (used (c_str input) ps) < MAX_INPUT"
  shows "\<exists>outb'. rearrange outb input (2 * int (length ps)) (flat_pairs ps @ rest) = Inr outb' \<and>
    length outb' = length outb \<and>
    c_str outb' = concat (map (pick (c_str input)) (used (c_str input) ps))"
proof -
  let ?s = "c_str input" let ?u = "used ?s ps" let ?t = "concat (map (pick ?s) ?u)"
  have w: "0 \<le> width ?u" using assms(1) by (intro width_nonneg pair_ok_used)
  obtain out where out: "rearrange_loop outb input (2 * int (length ps)) (flat_pairs ps @ rest) 0 0 =
      Inr (out, width ?u)" "length out = length outb" "take (nat (width ?u)) out = ?t"
    using rearrange_loop_ok [of 0 "[]" ps 0 input outb rest] assms by auto
  have fits: "nat (width ?u) < length out" using assms(2,4) out(2) w by linarith
  then have "overwrite (nat (width ?u)) [NUL] out = ?t @ NUL # drop (Suc (nat (width ?u))) out"
    using out(3) by (simp add: overwrite_def)
  moreover have "NUL \<notin> set ?t" using NUL_free_pick [OF NUL_free_c_str] by auto
  ultimately have "c_str (overwrite (nat (width ?u)) [NUL] out) = ?t" by (simp add: c_str_terminated)
  with fits w out show ?thesis by (auto simp: rearrange_def wr_def)
qed

text \<open>
  The check \<open>output_col == MAX_INPUT - 1\<close> does not bound the copy: one pair that starts
  inside the line and is wider than the output buffer makes \<open>strncpy\<close>, which pads with
  terminators, write past the end of the buffer.
\<close>

theorem rearrange_overflows:
  assumes "0 \<le> a" and "a < int (length (c_str input))" and "int (length outb) < b - a + 1" and "b < INT_MAX"
  shows "rearrange outb input 2 [a, b] = Inl OutOfBounds"
proof -
  have d: "in_int (b - a)" "in_int (b - a + 1)"
    using assms by (auto simp: in_int_def INT_MIN_def)
  have "length (strncpy_chars (drop (nat a) input) (nat (b - a + 1))) = nat (b - a + 1)"
    by (simp add: strncpy_chars_def)
  with assms(3) have "strncpy outb 0 (drop (nat a) input) (b - a + 1) = Inl OutOfBounds"
    by (simp add: strncpy_def wr_def)
  with assms d show ?thesis
    by (simp add: rearrange_def rearrange_loop.simps [of _ _ _ _ 0] rd_def slice_def MAX_INPUT_def)
qed

section \<open>Witnesses\<close>

theorem read_column_number_paired_witness:
  "case read_column_number [9, 9, 9] 2 ''4 5 6'' of
      Inl e \<Rightarrow> e = IntOverflow
    | Inr None \<Rightarrow> True
    | Inr (Some (columns', n, rest)) \<Rightarrow> 0 \<le> n \<and> n \<le> 2 \<and> even n \<and>
        length columns' = length [9, 9, 9 :: int] \<and> list_all (\<lambda>c. 0 \<le> c) (take (nat n) columns')"
  by (rule read_column_number_paired) auto

definition blank :: string where "blank = replicate 1000 CHR ''x''"

theorem rearrange_selects_witness:
  "\<exists>outb'. rearrange blank (''hello world'' @ [NUL]) 4 [6, 10, 0, 1] = Inr outb' \<and>
    length outb' = length blank \<and> c_str outb' = ''worldhe''"
  using rearrange_selects [of "[(6, 10), (0, 1)]" blank "''hello world'' @ [NUL]" "[]"]
  by (simp add: pair_ok_def INT_MAX_def MAX_INPUT_def blank_def c_str_def used_def pick_def slice_def)

theorem rearrange_overflows_witness:
  "rearrange ''xxxx'' (''a'' @ [NUL]) 2 [0, 4] = Inl OutOfBounds"
  by (rule rearrange_overflows) (auto simp: c_str_def INT_MAX_def)

end
