(* ===== verification/Posix.thy ===== *)
theory Posix
  imports Prelude Complex_Main
begin

text \<open>
  The frame of the models of system programs. A program is a function on the world: the state of
  the kernel and of the C library, \<open>errno\<close>, the trace of the calls made so far and, in extensions
  of the record, the program's global variables. The kernel and the library are a parameter: a
  function \<open>K\<close> from the call and its state to a reply, about which nothing is assumed except
  where a theorem says so. A call sets \<open>errno\<close> whenever its reply says so, also when it succeeds.

  A program ends with a value (\<open>Ok\<close>), by leaving the process (\<open>Exited\<close>, with the status), by a
  signal (\<open>Killed\<close>), by a successful \<open>exec\<close> (\<open>Replaced\<close>), or by a fault. Output calls carry their format, without the newline at its end, and their arguments.
  Loops that may not end take fuel (\<open>io_loop\<close>); more fuel never changes a result other
  than \<open>Diverged\<close> (\<open>io_loop_more_fuel\<close>).
\<close>

section \<open>Calls, replies, worlds\<close>

datatype arg = AInt int | AStr string | ABytes "byte list" | ARat rat | APtr string | ANull

text \<open>\<open>APtr\<close> is the address of the variable or function of that name.\<close>

type_synonym call = "string \<times> arg list"

text \<open>
  A reply: the returned value, the new \<open>errno\<close> if the call changes it, and what the call writes
  through the pointers it got (integers, bytes, a string).
\<close>

record reply =
  r_ret :: int
  r_err :: "int option"
  r_ints :: "int list"
  r_bytes :: "byte list"
  r_str :: string

definition ret_only :: "int \<Rightarrow> reply" where
  "ret_only n = \<lparr>r_ret = n, r_err = None, r_ints = [], r_bytes = [], r_str = []\<rparr>"

definition failed_with :: "int \<Rightarrow> reply" where
  "failed_with e = \<lparr>r_ret = - 1, r_err = Some e, r_ints = [], r_bytes = [], r_str = []\<rparr>"

text \<open>Out-parameters the reply does not mention read as 0.\<close>

definition int_at :: "reply \<Rightarrow> nat \<Rightarrow> int" where
  "int_at r i = (if i < length (r_ints r) then r_ints r ! i else 0)"

type_synonym 'k kernel = "call \<Rightarrow> 'k \<Rightarrow> reply \<times> 'k"

record 'k world =
  w_kern :: 'k
  w_errno :: int
  w_trace :: "(call \<times> int) list"

datatype 'a outcome = Ok 'a | Exited int | Killed int | Replaced | Faulted fault

type_synonym ('w, 'a) io = "'w \<Rightarrow> 'a outcome \<times> 'w"

section \<open>Sequencing\<close>

definition io_return :: "'a \<Rightarrow> ('w, 'a) io" where
  "io_return a = (\<lambda>w. (Ok a, w))"

definition io_bind :: "('w, 'a) io \<Rightarrow> ('a \<Rightarrow> ('w, 'b) io) \<Rightarrow> ('w, 'b) io" where
  "io_bind m f = (\<lambda>w. case m w of
     (Ok a, w) \<Rightarrow> f a w
   | (Exited n, w) \<Rightarrow> (Exited n, w)
   | (Killed s, w) \<Rightarrow> (Killed s, w)
   | (Replaced, w) \<Rightarrow> (Replaced, w)
   | (Faulted e, w) \<Rightarrow> (Faulted e, w))"

definition io_then :: "('w, 'a) io \<Rightarrow> ('w, 'b) io \<Rightarrow> ('w, 'b) io" where
  "io_then m n = io_bind m (\<lambda>_. n)"

definition io_exit :: "int \<Rightarrow> ('w, 'a) io" where
  "io_exit n = (\<lambda>w. (Exited n, w))"

definition io_kill :: "int \<Rightarrow> ('w, 'a) io" where
  "io_kill s = (\<lambda>w. (Killed s, w))"

definition io_replaced :: "('w, 'a) io" where
  "io_replaced = (\<lambda>w. (Replaced, w))"

definition io_fault :: "fault \<Rightarrow> ('w, 'a) io" where
  "io_fault e = (\<lambda>w. (Faulted e, w))"

definition io_lift :: "'a result \<Rightarrow> ('w, 'a) io" where
  "io_lift r = (case r of Inl e \<Rightarrow> io_fault e | Inr a \<Rightarrow> io_return a)"

definition io_get :: "('w \<Rightarrow> 'a) \<Rightarrow> ('w, 'a) io" where
  "io_get f = (\<lambda>w. (Ok (f w), w))"

definition io_mod :: "('w \<Rightarrow> 'w) \<Rightarrow> ('w, unit) io" where
  "io_mod f = (\<lambda>w. (Ok (), f w))"

definition io_when :: "bool \<Rightarrow> ('w, unit) io \<Rightarrow> ('w, unit) io" where
  "io_when c m = (if c then m else io_return ())"

fun io_seq :: "('w, unit) io list \<Rightarrow> ('w, unit) io" where
  "io_seq [] = io_return ()"
| "io_seq (m # ms) = io_then m (io_seq ms)"

fun io_each :: "('b \<Rightarrow> ('w, unit) io) \<Rightarrow> 'b list \<Rightarrow> ('w, unit) io" where
  "io_each f [] = io_return ()"
| "io_each f (x # xs) = io_then (f x) (io_each f xs)"

text \<open>A loop with fuel: the body goes on with \<open>Inl\<close> a new state, or stops with \<open>Inr\<close> a value.\<close>

fun io_loop :: "nat \<Rightarrow> ('s \<Rightarrow> ('w, 's + 'a) io) \<Rightarrow> 's \<Rightarrow> ('w, 'a) io" where
  "io_loop 0 body s = io_fault Diverged"
| "io_loop (Suc n) body s =
     io_bind (body s) (\<lambda>r. case r of Inl s \<Rightarrow> io_loop n body s | Inr a \<Rightarrow> io_return a)"

section \<open>Calls\<close>

text \<open>The full reply of a call, and the usual form that only needs the returned value.\<close>

definition sys_r :: "'k kernel \<Rightarrow> string \<Rightarrow> arg list \<Rightarrow> (('k, 'z) world_scheme, reply) io" where
  "sys_r K nm args = (\<lambda>w.
     let (r, k) = K (nm, args) (w_kern w) in
     (Ok r, w\<lparr>w_kern := k, w_errno := (case r_err r of None \<Rightarrow> w_errno w | Some e \<Rightarrow> e),
              w_trace := w_trace w @ [((nm, args), r_ret r)]\<rparr>))"

definition sys :: "'k kernel \<Rightarrow> string \<Rightarrow> arg list \<Rightarrow> (('k, 'z) world_scheme, int) io" where
  "sys K nm args = io_bind (sys_r K nm args) (\<lambda>r. io_return (r_ret r))"

definition do_call :: "'k kernel \<Rightarrow> string \<Rightarrow> arg list \<Rightarrow> (('k, 'z) world_scheme, unit) io" where
  "do_call K nm args = io_bind (sys_r K nm args) (\<lambda>_. io_return ())"

definition printf :: "'k kernel \<Rightarrow> string \<Rightarrow> arg list \<Rightarrow> (('k, 'z) world_scheme, unit) io" where
  "printf K fmt args = do_call K ''printf'' (AStr fmt # args)"

definition eprintf :: "'k kernel \<Rightarrow> string \<Rightarrow> arg list \<Rightarrow> (('k, 'z) world_scheme, unit) io" where
  "eprintf K fmt args = do_call K ''fprintf'' (AStr ''stderr'' # AStr fmt # args)"

definition perror :: "'k kernel \<Rightarrow> string \<Rightarrow> (('k, 'z) world_scheme, unit) io" where
  "perror K s = do_call K ''perror'' [AStr s]"

text \<open>\<open>exec\<close>: it only comes back when it has failed.\<close>

definition exec :: "'k kernel \<Rightarrow> string \<Rightarrow> arg list \<Rightarrow> (('k, 'z) world_scheme, unit) io" where
  "exec K nm args =
     io_bind (sys K nm args) (\<lambda>r. if r < 0 then io_return () else io_replaced)"

definition abort :: "'k kernel \<Rightarrow> (('k, 'z) world_scheme, 'a) io" where
  "abort K = io_then (do_call K ''abort'' []) (io_kill 6)"

definition get_errno :: "(('k, 'z) world_scheme, int) io" where
  "get_errno = io_get w_errno"

definition set_errno :: "int \<Rightarrow> (('k, 'z) world_scheme, unit) io" where
  "set_errno e = io_mod (\<lambda>w. w\<lparr>w_errno := e\<rparr>)"

section \<open>Lemmas\<close>

named_theorems io \<open>unfolding the steps of a program\<close>

lemma io_return_run [simp, io]: "io_return a w = (Ok a, w)"
  by (simp add: io_return_def)

lemma io_exit_run [simp, io]: "io_exit n w = (Exited n, w)"
  by (simp add: io_exit_def)

lemma io_fault_run [simp, io]: "io_fault e w = (Faulted e, w)"
  by (simp add: io_fault_def)

lemma io_kill_run [simp, io]: "io_kill s w = (Killed s, w)"
  by (simp add: io_kill_def)

lemma io_replaced_run [simp, io]: "io_replaced w = (Replaced, w)"
  by (simp add: io_replaced_def)

lemma io_get_run [simp, io]: "io_get f w = (Ok (f w), w)"
  by (simp add: io_get_def)

lemma io_mod_run [simp, io]: "io_mod f w = (Ok (), f w)"
  by (simp add: io_mod_def)

lemma io_lift_run [simp, io]: "io_lift (Inr a) = io_return a" "io_lift (Inl e) = io_fault e"
  by (simp_all add: io_lift_def)

lemma io_bind_Ok [io]: "m w = (Ok a, w') \<Longrightarrow> io_bind m f w = f a w'"
  by (simp add: io_bind_def)

lemma io_bind_Exited [io]: "m w = (Exited n, w') \<Longrightarrow> io_bind m f w = (Exited n, w')"
  by (simp add: io_bind_def)

lemma io_bind_Faulted [io]: "m w = (Faulted e, w') \<Longrightarrow> io_bind m f w = (Faulted e, w')"
  by (simp add: io_bind_def)

lemma io_bind_return [simp]: "io_bind (io_return a) f = f a"
  by (simp add: io_bind_def fun_eq_iff)

lemma io_bind_Pair [simp]:
  "io_bind (Pair (Ok a)) f = f a" "io_bind (Pair (Exited n)) g = Pair (Exited n)"
  "io_bind (Pair (Faulted e)) g = Pair (Faulted e)" "io_bind (Pair (Killed s)) g = Pair (Killed s)"
  "io_bind (Pair Replaced) g = Pair Replaced"
  by (simp_all add: io_bind_def fun_eq_iff)

lemma io_bind_get [simp]: "io_bind (io_get g) f w = f (g w) w"
  by (simp add: io_bind_def)

lemma io_bind_mod [simp]: "io_bind (io_mod g) f w = f () (g w)"
  by (simp add: io_bind_def)

lemma io_bind_exit [simp]: "io_bind (io_exit n) f = io_exit n"
  by (simp add: io_bind_def fun_eq_iff)

lemma io_bind_fault [simp]: "io_bind (io_fault e) f = io_fault e"
  by (simp add: io_bind_def fun_eq_iff)

lemma io_bind_assoc: "io_bind (io_bind m f) g = io_bind m (\<lambda>a. io_bind (f a) g)"
  by (auto simp: io_bind_def fun_eq_iff split: prod.splits outcome.splits)

lemma io_bind_eq_Ok:
  "io_bind m f w = (Ok b, w') \<longleftrightarrow> (\<exists>a w1. m w = (Ok a, w1) \<and> f a w1 = (Ok b, w'))"
  by (auto simp: io_bind_def split: prod.splits outcome.splits)

lemma io_bind_cong [fundef_cong]:
  "m = m' \<Longrightarrow> (\<And>a w w'. m' w = (Ok a, w') \<Longrightarrow> f a w' = f' a w') \<Longrightarrow> io_bind m f = io_bind m' f'"
  by (auto simp: io_bind_def fun_eq_iff split: prod.splits outcome.splits)

lemma io_when_run [simp]: "io_when True m = m" "io_when False m = io_return ()"
  by (simp_all add: io_when_def)

lemma io_each_append: "io_each f (xs @ ys) = io_then (io_each f xs) (io_each f ys)"
  by (induction xs) (simp_all add: io_then_def io_bind_assoc)

text \<open>More fuel keeps any result that is not \<open>Diverged\<close>.\<close>

lemma io_loop_Suc_fuel:
  "io_loop n body s w = (r, w') \<Longrightarrow> r \<noteq> Faulted Diverged \<Longrightarrow> io_loop (Suc n) body s w = (r, w')"
proof (induction n arbitrary: s w)
  case 0
  then show ?case by simp
next
  case (Suc n)
  show ?case
  proof (cases "body s w")
    case (Pair o1 w1)
    show ?thesis
    proof (cases o1)
      case (Ok x)
      show ?thesis
      proof (cases x)
        case (Inl s')
        with Suc.prems Pair Ok have "io_loop n body s' w1 = (r, w')" by (simp add: io_bind_def)
        from Suc.IH [OF this Suc.prems(2)] Pair Ok Inl show ?thesis by (simp add: io_bind_def)
      next
        case (Inr a)
        with Suc.prems Pair Ok show ?thesis by (simp add: io_bind_def)
      qed
    next
      case (Exited k)
      with Suc.prems Pair show ?thesis by (simp add: io_bind_def)
    next
      case (Faulted e)
      with Suc.prems Pair show ?thesis by (simp add: io_bind_def)
    next
      case (Killed k)
      with Suc.prems Pair show ?thesis by (simp add: io_bind_def)
    next
      case Replaced
      with Suc.prems Pair show ?thesis by (simp add: io_bind_def)
    qed
  qed
qed

lemma io_loop_more_fuel:
  "n \<le> m \<Longrightarrow> io_loop n body s w = (r, w') \<Longrightarrow> r \<noteq> Faulted Diverged \<Longrightarrow> io_loop m body s w = (r, w')"
  by (induction rule: dec_induct) (auto intro: io_loop_Suc_fuel simp del: io_loop.simps)

lemma sys_r_run:
  "sys_r K nm args w = (Ok (fst (K (nm, args) (w_kern w))),
     w\<lparr>w_kern := snd (K (nm, args) (w_kern w)),
       w_errno := (case r_err (fst (K (nm, args) (w_kern w))) of None \<Rightarrow> w_errno w | Some e \<Rightarrow> e),
       w_trace := w_trace w @ [((nm, args), r_ret (fst (K (nm, args) (w_kern w))))]\<rparr>)"
  by (simp add: sys_r_def split_beta)

section \<open>Counting calls\<close>

text \<open>
  \<open>makes g nm n Q m\<close>: from every world \<open>m\<close> returns, with a value that satisfies \<open>Q\<close>, after exactly
  \<open>n\<close> calls of \<open>nm\<close>, and leaves the observation \<open>g\<close> of the world as it was.
\<close>

definition calls_of :: "string \<Rightarrow> (call \<times> int) list \<Rightarrow> nat" where
  "calls_of nm tr = length (filter (\<lambda>c. fst (fst c) = nm) tr)"

lemma calls_of_append [simp]: "calls_of nm (xs @ ys) = calls_of nm xs + calls_of nm ys"
  by (simp add: calls_of_def)

lemma calls_of_simps [simp]:
  "calls_of nm [] = 0" "calls_of nm (c # cs) = (if fst (fst c) = nm then 1 else 0) + calls_of nm cs"
  by (simp_all add: calls_of_def)

text \<open>The arguments of the calls of \<open>printf\<close> in a trace.\<close>

definition prints :: "(call \<times> int) list \<Rightarrow> arg list list" where
  "prints tr = map (\<lambda>c. snd (fst c)) (filter (\<lambda>c. fst (fst c) = ''printf'') tr)"

lemma prints_simps [simp]:
  "prints [] = []" "prints (c # cs) = (if fst (fst c) = ''printf'' then [snd (fst c)] else []) @ prints cs"
  "prints (xs @ ys) = prints xs @ prints ys"
  by (simp_all add: prints_def)

definition makes ::
  "(('k, 'z) world_scheme \<Rightarrow> 'c) \<Rightarrow> string \<Rightarrow> nat \<Rightarrow> ('a \<Rightarrow> bool) \<Rightarrow> (('k, 'z) world_scheme, 'a) io \<Rightarrow> bool"
where
  "makes g nm n Q m \<longleftrightarrow> (\<forall>w. \<exists>a w'. m w = (Ok a, w') \<and> Q a \<and> g w' = g w \<and>
     calls_of nm (w_trace w') = calls_of nm (w_trace w) + n)"

text \<open>Observations that calls do not change: those of the globals of a program.\<close>

definition global :: "(('k, 'z) world_scheme \<Rightarrow> 'c) \<Rightarrow> bool" where
  "global g \<longleftrightarrow> (\<forall>w k e t. g (w\<lparr>w_kern := k, w_errno := e, w_trace := t\<rparr>) = g w)"

lemma makes_return: "Q a \<Longrightarrow> makes g nm 0 Q (io_return a)"
  by (simp add: makes_def)

lemma makes_get: "(\<And>w. Q (f w)) \<Longrightarrow> makes g nm 0 Q (io_get f)"
  by (simp add: makes_def)

lemma makes_mod: "(\<And>w. g (f w) = g w \<and> w_trace (f w) = w_trace w) \<Longrightarrow> Q () \<Longrightarrow> makes g nm 0 Q (io_mod f)"
  by (simp add: makes_def)

lemma makes_bind:
  assumes "makes g nm n1 Q1 m" "\<And>a. Q1 a \<Longrightarrow> makes g nm n2 Q (f a)"
  shows "makes g nm (n1 + n2) Q (io_bind m f)"
  unfolding makes_def
proof
  fix w
  obtain a w1 where 1: "m w = (Ok a, w1)" "Q1 a" "g w1 = g w"
    "calls_of nm (w_trace w1) = calls_of nm (w_trace w) + n1"
    using assms(1) unfolding makes_def by metis
  obtain b w2 where "f a w1 = (Ok b, w2)" "Q b" "g w2 = g w1"
    "calls_of nm (w_trace w2) = calls_of nm (w_trace w1) + n2"
    using assms(2) [OF 1(2)] unfolding makes_def by metis
  with 1 show "\<exists>b w'. io_bind m f w = (Ok b, w') \<and> Q b \<and> g w' = g w \<and>
      calls_of nm (w_trace w') = calls_of nm (w_trace w) + (n1 + n2)"
    by (simp add: io_bind_def)
qed

lemma makes_then:
  "makes g nm n1 Q1 m \<Longrightarrow> makes g nm n2 Q n \<Longrightarrow> makes g nm (n1 + n2) Q (io_then m n)"
  unfolding io_then_def by (rule makes_bind)

lemma makes_sys_r:
  assumes "global g" "\<And>k. Q (fst (K (nm', args) k))"
  shows "makes g nm (if nm' = nm then 1 else 0) Q (sys_r K nm' args)"
  using assms by (simp add: makes_def sys_r_run global_def)

lemma makes_weaken: "makes g nm n Q m \<Longrightarrow> (\<And>a. Q a \<Longrightarrow> Q' a) \<Longrightarrow> n = n' \<Longrightarrow> makes g nm n' Q' m"
  unfolding makes_def by blast

lemma makes_sys:
  assumes "global g" "\<And>k. Q (r_ret (fst (K (nm', args) k)))"
  shows "makes g nm (if nm' = nm then 1 else 0) Q (sys K nm' args)"
  unfolding sys_def
  by (rule makes_weaken [OF makes_bind [OF makes_sys_r [OF assms(1)] makes_return]])
    (use assms(2) in auto)

lemma makes_call: "global g \<Longrightarrow> makes g nm (if nm' = nm then 1 else 0) (\<lambda>_. True) (do_call K nm' args)"
  unfolding do_call_def
  by (rule makes_weaken [OF makes_bind [OF makes_sys_r makes_return], where Q' = "\<lambda>_. True"]) auto

lemma makes_when: "(c \<Longrightarrow> makes g nm 0 (\<lambda>_. True) m) \<Longrightarrow> makes g nm 0 (\<lambda>_. True) (io_when c m)"
  by (simp add: io_when_def makes_return)

section \<open>What a returned value satisfies\<close>

definition returns :: "('a \<Rightarrow> bool) \<Rightarrow> ('w, 'a) io \<Rightarrow> bool" where
  "returns Q m \<longleftrightarrow> (\<forall>w a w'. m w = (Ok a, w') \<longrightarrow> Q a)"

lemma returns_return: "Q a \<Longrightarrow> returns Q (io_return a)"
  by (simp add: returns_def)

lemma returns_bind: "returns Q1 m \<Longrightarrow> (\<And>a. Q1 a \<Longrightarrow> returns Q (f a)) \<Longrightarrow> returns Q (io_bind m f)"
  unfolding returns_def io_bind_eq_Ok by blast

lemma returns_any: "returns (\<lambda>_. True) m"
  by (simp add: returns_def)

lemma returns_bind_any: "(\<And>a. returns Q (f a)) \<Longrightarrow> returns Q (io_bind m f)"
  by (rule returns_bind [OF returns_any])

lemma returns_then: "returns Q n \<Longrightarrow> returns Q (io_then m n)"
  unfolding io_then_def by (rule returns_bind_any)

lemma returns_exit: "returns Q (io_exit n)"
  by (simp add: returns_def)

lemma returns_fault: "returns Q (io_fault e)"
  by (simp add: returns_def)

lemma returns_weaken: "returns Q m \<Longrightarrow> (\<And>a. Q a \<Longrightarrow> Q' a) \<Longrightarrow> returns Q' m"
  by (auto simp: returns_def)

lemma returns_loop:
  assumes "\<And>s. I s \<Longrightarrow> returns (case_sum I Q) (body s)" "I s"
  shows "returns Q (io_loop n body s)"
  using assms(2)
proof (induction n arbitrary: s)
  case 0
  then show ?case by (simp add: returns_def)
next
  case (Suc n)
  show ?case
    unfolding io_loop.simps
    by (rule returns_bind [OF assms(1) [OF Suc.prems]])
      (auto split: sum.splits intro!: Suc.IH returns_return)
qed

section \<open>Preconditions and postconditions\<close>

text \<open>\<open>total P m Q\<close>: from a world in \<open>P\<close>, \<open>m\<close> returns a value and a world that satisfy \<open>Q\<close>.\<close>

definition total :: "('w \<Rightarrow> bool) \<Rightarrow> ('w, 'a) io \<Rightarrow> ('a \<Rightarrow> 'w \<Rightarrow> bool) \<Rightarrow> bool" where
  "total P m Q \<longleftrightarrow> (\<forall>w. P w \<longrightarrow> (\<exists>a w'. m w = (Ok a, w') \<and> Q a w'))"

lemma totalD: "total P m Q \<Longrightarrow> P w \<Longrightarrow> \<exists>a w'. m w = (Ok a, w') \<and> Q a w'"
  by (simp add: total_def)

lemma total_return: "(\<And>w. P w \<Longrightarrow> Q a w) \<Longrightarrow> total P (io_return a) Q"
  by (simp add: total_def)

lemma total_mod: "(\<And>w. P w \<Longrightarrow> Q () (f w)) \<Longrightarrow> total P (io_mod f) Q"
  by (simp add: total_def)

lemma total_bind:
  assumes "total P m R" "\<And>a. total (R a) (f a) Q"
  shows "total P (io_bind m f) Q"
  unfolding total_def
proof (intro allI impI)
  fix w assume "P w"
  with assms(1) obtain a w1 where 1: "m w = (Ok a, w1)" "R a w1" unfolding total_def by blast
  with assms(2) [of a] obtain b w2 where "f a w1 = (Ok b, w2)" "Q b w2" unfolding total_def by blast
  with 1 show "\<exists>b w'. io_bind m f w = (Ok b, w') \<and> Q b w'" by (simp add: io_bind_def)
qed

lemma total_then: "total P m (\<lambda>_. R) \<Longrightarrow> total R n Q \<Longrightarrow> total P (io_then m n) Q"
  unfolding io_then_def by (rule total_bind)

lemma total_bind_get: "(\<And>w. P w \<Longrightarrow> total (\<lambda>v. v = w) (f (g w)) Q) \<Longrightarrow> total P (io_bind (io_get g) f) Q"
  by (simp add: total_def)

lemma total_bind_lift: "total P (f a) Q \<Longrightarrow> total P (io_bind (io_lift (Inr a)) f) Q"
  by (simp add: total_def)

lemma total_weaken: "total P m Q \<Longrightarrow> (\<And>w. P' w \<Longrightarrow> P w) \<Longrightarrow> (\<And>a w. Q a w \<Longrightarrow> Q' a w) \<Longrightarrow> total P' m Q'"
  unfolding total_def by meson

lemma total_if:
  "(c \<Longrightarrow> total P m Q) \<Longrightarrow> (\<not> c \<Longrightarrow> total P n Q) \<Longrightarrow> total P (if c then m else n) Q"
  by simp

lemma total_split: "(\<And>a b. x = (a, b) \<Longrightarrow> total P (f a b) Q) \<Longrightarrow> total P (case x of (a, b) \<Rightarrow> f a b) Q"
  by (cases x) simp

lemma total_when: "total P m (\<lambda>_. P) \<Longrightarrow> total P (io_when c m) (\<lambda>_. P)"
  by (simp add: io_when_def total_return)

text \<open>Conditions that calls do not change.\<close>

definition stable :: "(('k, 'z) world_scheme \<Rightarrow> bool) \<Rightarrow> bool" where
  "stable P \<longleftrightarrow> (\<forall>w k e t. P w \<longrightarrow> P (w\<lparr>w_kern := k, w_errno := e, w_trace := t\<rparr>))"

lemma total_sys_r: "stable P \<Longrightarrow> total P (sys_r K nm args) (\<lambda>_. P)"
  by (simp add: total_def stable_def sys_r_run)

lemma total_sys: "stable P \<Longrightarrow> total P (sys K nm args) (\<lambda>_. P)"
  unfolding sys_def by (rule total_bind [OF total_sys_r]) (auto intro: total_return simp del: io_return_run)

lemma total_call: "stable P \<Longrightarrow> total P (do_call K nm args) (\<lambda>_. P)"
  unfolding do_call_def by (rule total_bind [OF total_sys_r]) (auto intro: total_return simp del: io_return_run)

lemma total_printf: "stable P \<Longrightarrow> total P (printf K fmt args) (\<lambda>_. P)"
  unfolding printf_def by (rule total_call)

lemma total_eprintf: "stable P \<Longrightarrow> total P (eprintf K fmt args) (\<lambda>_. P)"
  unfolding eprintf_def by (rule total_call)

lemma stable_conj: "stable P \<Longrightarrow> stable Q \<Longrightarrow> stable (\<lambda>w. P w \<and> Q w)"
  by (simp add: stable_def)

section \<open>With what status a program leaves\<close>

definition leaves :: "int set \<Rightarrow> ('w, 'a) io \<Rightarrow> bool" where
  "leaves S m \<longleftrightarrow> (\<forall>w n w'. m w = (Exited n, w') \<longrightarrow> n \<in> S)"

named_theorems leaves \<open>statuses of the parts of a program\<close>

lemma leaves_simple [leaves]:
  "leaves S (io_return a)" "leaves S (io_fault e)" "leaves S (io_get g)" "leaves S (io_mod h)" "leaves S (io_kill s)"
  by (simp_all add: leaves_def)

lemma leaves_exit [leaves]: "n \<in> S \<Longrightarrow> leaves S (io_exit n)"
  by (simp add: leaves_def)

lemma leaves_bind [leaves]: "leaves S m \<Longrightarrow> (\<And>a. leaves S (f a)) \<Longrightarrow> leaves S (io_bind m f)"
  unfolding leaves_def by (fastforce simp: io_bind_def split: prod.splits outcome.splits)

lemma leaves_then [leaves]: "leaves S m \<Longrightarrow> leaves S n \<Longrightarrow> leaves S (io_then m n)"
  unfolding io_then_def by (rule leaves_bind)

lemma leaves_when [leaves]: "leaves S m \<Longrightarrow> leaves S (io_when c m)"
  by (simp add: io_when_def leaves_def)

lemma leaves_sys [leaves]: "leaves S (sys_r K nm args)" "leaves S (sys K nm args)" "leaves S (do_call K nm args)"
  by (simp_all add: leaves_def sys_def do_call_def io_bind_def sys_r_run)

lemma leaves_print [leaves]: "leaves S (printf K fmt args)" "leaves S (eprintf K fmt args)"
  by (simp_all add: printf_def eprintf_def leaves_sys)

lemma leaves_errno [leaves]: "leaves S get_errno" "leaves S (set_errno e)"
  by (simp_all add: get_errno_def set_errno_def leaves_simple)

lemma leaves_lift [leaves]: "leaves S (io_lift r)"
  by (cases r) (simp_all add: leaves_def)

lemma leaves_if [leaves]: "(c \<Longrightarrow> leaves S m) \<Longrightarrow> (\<not> c \<Longrightarrow> leaves S n) \<Longrightarrow> leaves S (if c then m else n)"
  by simp

lemma leaves_seq [leaves]: "(\<And>m. m \<in> set ms \<Longrightarrow> leaves S m) \<Longrightarrow> leaves S (io_seq ms)"
  by (induction ms) (auto intro: leaves)

lemma leaves_each [leaves]: "(\<And>x. leaves S (f x)) \<Longrightarrow> leaves S (io_each f xs)"
  by (induction xs) (auto intro: leaves)

lemma leaves_loop [leaves]: "(\<And>s. leaves S (body s)) \<Longrightarrow> leaves S (io_loop n body s)"
  by (induction n arbitrary: s) (auto intro!: leaves split: sum.split)

section \<open>A kernel that follows a script\<close>

text \<open>
  Its state is the list of replies it still has to give; when they are used up it answers 0.
  Witnesses run programs on it.
\<close>

definition scripted :: "reply list kernel" where
  "scripted c ks = (case ks of [] \<Rightarrow> (ret_only 0, []) | r # ks \<Rightarrow> (r, ks))"

definition start :: "'k \<Rightarrow> 'k world" where
  "start k = \<lparr>w_kern = k, w_errno = 0, w_trace = []\<rparr>"


end
