(* ===== verification/Net.thy ===== *)
theory Net
  imports Posix CStr "HOL-Library.Signed_Division"
begin

text \<open>
  What the ping and traceroute programs share: fields of packets read from a byte buffer (with
  the buffer's bounds), network byte order, \<open>timeval\<close>s, the constants of the ICMP header, and
  names for the socket calls they make.
\<close>

section \<open>Bytes of a packet\<close>

definition u8 :: "byte list \<Rightarrow> int \<Rightarrow> int result" where
  "u8 buf i = rbind (rd i 1 buf) (\<lambda>bs. Inr (uint (hd bs)))"

text \<open>A 16-bit field in the machine's (little-endian) and in network order.\<close>

definition le16 :: "byte list \<Rightarrow> int \<Rightarrow> int result" where
  "le16 buf i = rbind (u8 buf i) (\<lambda>a. rbind (u8 buf (i + 1)) (\<lambda>b. Inr (a + 256 * b)))"

definition be16 :: "byte list \<Rightarrow> int \<Rightarrow> int result" where
  "be16 buf i = rbind (u8 buf i) (\<lambda>a. rbind (u8 buf (i + 1)) (\<lambda>b. Inr (256 * a + b)))"

definition le32 :: "byte list \<Rightarrow> int \<Rightarrow> int result" where
  "le32 buf i = rbind (le16 buf i) (\<lambda>a. rbind (le16 buf (i + 2)) (\<lambda>b. Inr (a + 65536 * b)))"

definition bytes16 :: "int \<Rightarrow> byte list" where
  "bytes16 v = [word_of_int v, word_of_int (v div 256)]"

definition bytes16_be :: "int \<Rightarrow> byte list" where
  "bytes16_be v = [word_of_int (v div 256), word_of_int v]"

definition bytes32 :: "int \<Rightarrow> byte list" where
  "bytes32 v = bytes16 v @ bytes16 (v div 65536)"

definition u16 :: "int \<Rightarrow> int" where
  "u16 v = v mod 65536"

definition u32 :: "int \<Rightarrow> int" where
  "u32 v = v mod 4294967296"

text \<open>Swapping the bytes of a 16-bit and of a 32-bit value.\<close>

definition htons :: "int \<Rightarrow> int" where
  "htons v = (u16 v mod 256) * 256 + u16 v div 256"

definition ntohl :: "int \<Rightarrow> int" where
  "ntohl v = htons v * 65536 + htons (v div 65536)"

text \<open>\<open>ip_hl << 2\<close>: the header length, from the low half of the first byte of the header at \<open>off\<close>.\<close>

definition ip_hlen :: "byte list \<Rightarrow> int \<Rightarrow> int result" where
  "ip_hlen buf off = rbind (u8 buf off) (\<lambda>b. Inr (4 * (b mod 16)))"

lemma u8_ok: "0 \<le> i \<Longrightarrow> nat i < length buf \<Longrightarrow> u8 buf i = Inr (uint (buf ! nat i))"
  by (simp add: u8_def rd_def slice_def hd_drop_conv_nth)

lemma uint_byte_range: "0 \<le> uint (b :: byte) \<and> uint b < 256"
  using uint_lt2p [of b] by simp

lemma ip_hlen_ok:
  "0 \<le> off \<Longrightarrow> nat off < length buf \<Longrightarrow> \<exists>h. ip_hlen buf off = Inr h \<and> 0 \<le> h \<and> h \<le> 60"
  using pos_mod_bound [of 16 "uint (buf ! nat off)"] pos_mod_sign [of 16 "uint (buf ! nat off)"]
  by (simp add: ip_hlen_def u8_ok)

section \<open>Times\<close>

record timeval =
  tv_sec :: int
  tv_usec :: int

definition gettimeofday :: "'k kernel \<Rightarrow> (('k, 'z) world_scheme, timeval) io" where
  "gettimeofday K =
     io_bind (sys_r K ''gettimeofday'' []) (\<lambda>r.
     io_return \<lparr>tv_sec = int_at r 0, tv_usec = int_at r 1\<rparr>)"

definition zero_time :: timeval where
  "zero_time = \<lparr>tv_sec = 0, tv_usec = 0\<rparr>"

section \<open>Constants\<close>

definition AF_INET :: int where "AF_INET = 2"
definition SOCK_RAW :: int where "SOCK_RAW = 3"
definition SOL_SOCKET :: int where "SOL_SOCKET = 1"
definition SO_DEBUG :: int where "SO_DEBUG = 1"
definition SO_DONTROUTE :: int where "SO_DONTROUTE = 5"
definition SO_SNDBUF :: int where "SO_SNDBUF = 7"
definition SO_RCVBUF :: int where "SO_RCVBUF = 8"
definition IPPROTO_IP :: int where "IPPROTO_IP = 0"
definition IPPROTO_UDP :: int where "IPPROTO_UDP = 17"
definition IPPROTO_RAW :: int where "IPPROTO_RAW = 255"
definition IP_TTL :: int where "IP_TTL = 2"
definition IP_HDRINCL :: int where "IP_HDRINCL = 3"
definition IPVERSION :: int where "IPVERSION = 4"
definition INADDR_NONE :: int where "INADDR_NONE = 4294967295"

definition ICMP_ECHOREPLY :: int where "ICMP_ECHOREPLY = 0"
definition ICMP_UNREACH :: int where "ICMP_UNREACH = 3"
definition ICMP_ECHO :: int where "ICMP_ECHO = 8"
definition ICMP_TIMXCEED :: int where "ICMP_TIMXCEED = 11"
definition ICMP_TIMXCEED_INTRANS :: int where "ICMP_TIMXCEED_INTRANS = 0"
definition ICMP_UNREACH_NET :: int where "ICMP_UNREACH_NET = 0"
definition ICMP_UNREACH_HOST :: int where "ICMP_UNREACH_HOST = 1"
definition ICMP_UNREACH_PROTOCOL :: int where "ICMP_UNREACH_PROTOCOL = 2"
definition ICMP_UNREACH_PORT :: int where "ICMP_UNREACH_PORT = 3"
definition ICMP_UNREACH_NEEDFRAG :: int where "ICMP_UNREACH_NEEDFRAG = 4"
definition ICMP_UNREACH_SRCFAIL :: int where "ICMP_UNREACH_SRCFAIL = 5"
definition ICMP_MINLEN :: int where "ICMP_MINLEN = 8"

lemmas icmp_consts =
  ICMP_ECHOREPLY_def ICMP_UNREACH_def ICMP_ECHO_def ICMP_TIMXCEED_def ICMP_TIMXCEED_INTRANS_def
  ICMP_UNREACH_NET_def ICMP_UNREACH_HOST_def ICMP_UNREACH_PROTOCOL_def ICMP_UNREACH_PORT_def
  ICMP_UNREACH_NEEDFRAG_def ICMP_UNREACH_SRCFAIL_def ICMP_MINLEN_def

section \<open>Socket calls\<close>

definition socket :: "'k kernel \<Rightarrow> int \<Rightarrow> int \<Rightarrow> int \<Rightarrow> (('k, 'z) world_scheme, int) io" where
  "socket K af ty proto = sys K ''socket'' [AInt af, AInt ty, AInt proto]"

definition setsockopt :: "'k kernel \<Rightarrow> int \<Rightarrow> int \<Rightarrow> int \<Rightarrow> int \<Rightarrow> (('k, 'z) world_scheme, int) io" where
  "setsockopt K fd level opt v = sys K ''setsockopt'' [AInt fd, AInt level, AInt opt, AInt v]"

text \<open>
  \<open>select\<close> for one descriptor to become readable; Linux updates the time that is left, which the
  reply then carries.
\<close>

definition select1 :: "'k kernel \<Rightarrow> int \<Rightarrow> timeval \<Rightarrow> (('k, 'z) world_scheme, int \<times> timeval) io" where
  "select1 K fd tv =
     io_bind (sys_r K ''select'' [AInt (fd + 1), AInt fd, AInt (tv_sec tv), AInt (tv_usec tv)]) (\<lambda>r.
     io_return (r_ret r,
       if r_ints r = [] then tv else \<lparr>tv_sec = int_at r 0, tv_usec = int_at r 1\<rparr>))"

text \<open>
  \<open>recvfrom\<close> and \<open>recv\<close> into a buffer: at most the buffer's length of bytes replace its front;
  the first number of the reply is the sender's address.
\<close>

definition recvfrom ::
  "'k kernel \<Rightarrow> int \<Rightarrow> byte list \<Rightarrow> (('k, 'z) world_scheme, int \<times> byte list \<times> int) io" where
  "recvfrom K fd buf =
     io_bind (sys_r K ''recvfrom'' [AInt fd, AInt (int (length buf)), AInt 0]) (\<lambda>r.
     io_return (r_ret r, overwrite 0 (take (length buf) (r_bytes r)) buf, int_at r 0))"

definition recv :: "'k kernel \<Rightarrow> int \<Rightarrow> byte list \<Rightarrow> (('k, 'z) world_scheme, int \<times> byte list) io" where
  "recv K fd buf =
     io_bind (sys_r K ''recv'' [AInt fd, AInt (int (length buf)), AInt 0]) (\<lambda>r.
     io_return (r_ret r, overwrite 0 (take (length buf) (r_bytes r)) buf))"

end
