(* ===== verification/TracerouteStd.thy ===== *)
theory TracerouteStd
  imports Net
begin

text \<open>
  traceroute_std.c (Van Jacobson's traceroute, adapted). Its global variables extend the world;
  the received packet is a block of 512 bytes with checked accesses, the probe a record of the
  header fields in the form they have in memory (so a field the code passes through \<open>htons\<close> holds
  the swapped value). \<open>getopt\<close> is given by the options it delivers, in order, and the operands it
  leaves. The variants of the code for other systems (\<open>ARCHAIC\<close>, no \<open>IP_HDRINCL\<close>, \<open>notyet\<close>) are
  not modelled. The wait for a reply may go on for ever when other packets keep arriving; its
  loop takes fuel. Addresses are 32-bit values in memory order; \<open>inet_ntoa\<close> only prints them.

  The lemmas: which packets \<open>packet_ok\<close> accepts, that it accepts the answers to a probe and to no
  other, that a silent network ends the program after the last hop, and what stops it earlier.
\<close>

section \<open>State\<close>

record opacket =
  ip_v :: int
  ip_hl :: int
  ip_tos :: int
  ip_len :: int
  ip_id :: int
  ip_off :: int
  ip_ttl :: int
  ip_p :: int
  ip_src :: int
  ip_dst :: int
  uh_sport :: int
  uh_dport :: int
  uh_ulen :: int
  uh_sum :: int
  op_seq :: int
  op_ttl :: int
  op_tv :: timeval

definition zero_opacket :: opacket where
  "zero_opacket = \<lparr>ip_v = 0, ip_hl = 0, ip_tos = 0, ip_len = 0, ip_id = 0, ip_off = 0, ip_ttl = 0,
     ip_p = 0, ip_src = 0, ip_dst = 0, uh_sport = 0, uh_dport = 0, uh_ulen = 0, uh_sum = 0,
     op_seq = 0, op_ttl = 0, op_tv = zero_time\<rparr>"

definition sizeof_opacket :: int where "sizeof_opacket = 48"
definition sizeof_ip :: int where "sizeof_ip = 20"

text \<open>The bytes of the packet: headers, sequence number, ttl, padding, time, data.\<close>

definition ip_bytes :: "opacket \<Rightarrow> byte list" where
  "ip_bytes op =
     [word_of_int (16 * ip_v op + ip_hl op), word_of_int (ip_tos op)] @ bytes16 (ip_len op) @
     bytes16 (ip_id op) @ bytes16 (ip_off op) @ [word_of_int (ip_ttl op), word_of_int (ip_p op)] @
     bytes16 0 @ bytes32 (ip_src op) @ bytes32 (ip_dst op)"

definition udp_bytes :: "opacket \<Rightarrow> byte list" where
  "udp_bytes op = bytes16 (uh_sport op) @ bytes16 (uh_dport op) @ bytes16 (uh_ulen op) @ bytes16 (uh_sum op)"

definition opacket_bytes :: "opacket \<Rightarrow> int \<Rightarrow> byte list" where
  "opacket_bytes op len =
     ip_bytes op @ udp_bytes op @ [word_of_int (op_seq op), word_of_int (op_ttl op), 0, 0] @
     bytes32 (tv_sec (op_tv op)) @ bytes32 (tv_sec (op_tv op) div 2 ^ 32) @
     bytes32 (tv_usec (op_tv op)) @ bytes32 (tv_usec (op_tv op) div 2 ^ 32) @
     replicate (nat (len - sizeof_opacket)) 0"

record 'k tr = "'k world" +
  t_packet :: "byte list"
  t_outpacket :: opacket
  t_s :: int
  t_sndsock :: int
  t_whereto :: "int \<times> int"
  t_datalen :: int
  t_source :: "string option"
  t_hostname :: string
  t_nprobes :: int
  t_max_ttl :: int
  t_ident :: int
  t_port :: int
  t_options :: int
  t_verbose :: int
  t_waittime :: int
  t_nflag :: int
  t_first :: bool
  t_domain :: string

definition tr_start :: "'k \<Rightarrow> 'k tr" where
  "tr_start k = \<lparr>w_kern = k, w_errno = 0, w_trace = [], t_packet = replicate 512 0,
     t_outpacket = zero_opacket, t_s = 0, t_sndsock = 0, t_whereto = (0, 0), t_datalen = 0,
     t_source = None, t_hostname = [], t_nprobes = 3, t_max_ttl = 30, t_ident = 0,
     t_port = 32768 + 666, t_options = 0, t_verbose = 0, t_waittime = 5, t_nflag = 0,
     t_first = True, t_domain = []\<rparr>"

section \<open>Options and set-up\<close>

definition usage :: "'k kernel \<Rightarrow> ('k tr, 'a) io" where
  "usage K = io_then (eprintf K ''usage: traceroute [-dnrv] [-m max_ttl] [-p port#] [-q nqueries] [-s src_addr] [-t tos] [-w wait] host [data size]'' [])
     (io_exit 1)"

text \<open>Set a global to a number and leave the program if the number is not acceptable.\<close>

definition set_or_exit ::
  "'k kernel \<Rightarrow> ('k tr \<Rightarrow> 'k tr) \<Rightarrow> bool \<Rightarrow> string \<Rightarrow> ('k tr, unit) io" where
  "set_or_exit K f bad msg = io_then (io_mod f) (if bad then io_then (eprintf K msg []) (io_exit 1) else io_return ())"

text \<open>The cases of the option loop; \<open>tos\<close> is a local variable of \<open>main\<close>.\<close>

definition option_step :: "'k kernel \<Rightarrow> int \<Rightarrow> char \<Rightarrow> string \<Rightarrow> ('k tr, int) io" where
  "option_step K tos ch optarg =
     (let n = atoi optarg in
      if ch = CHR ''d'' then io_then (io_mod (\<lambda>w. w\<lparr>t_options := or (t_options w) SO_DEBUG\<rparr>)) (io_return tos)
      else if ch = CHR ''m'' then
        io_then (set_or_exit K (\<lambda>w. w\<lparr>t_max_ttl := n\<rparr>) (n \<le> 1) ''traceroute: max ttl must be >1.'') (io_return tos)
      else if ch = CHR ''n'' then io_then (io_mod (\<lambda>w. w\<lparr>t_nflag := t_nflag w + 1\<rparr>)) (io_return tos)
      else if ch = CHR ''p'' then
        io_then (set_or_exit K (\<lambda>w. w\<lparr>t_port := u16 n\<rparr>) (u16 n < 1) ''traceroute: port must be >0.'') (io_return tos)
      else if ch = CHR ''q'' then
        io_then (set_or_exit K (\<lambda>w. w\<lparr>t_nprobes := n\<rparr>) (n < 1) ''traceroute: nprobes must be >0.'') (io_return tos)
      else if ch = CHR ''r'' then
        io_then (io_mod (\<lambda>w. w\<lparr>t_options := or (t_options w) SO_DONTROUTE\<rparr>)) (io_return tos)
      else if ch = CHR ''s'' then io_then (io_mod (\<lambda>w. w\<lparr>t_source := Some optarg\<rparr>)) (io_return tos)
      else if ch = CHR ''t'' then
        (if n < 0 \<or> n > 255 then io_then (eprintf K ''traceroute: tos must be 0 to 255.'' []) (io_exit 1)
         else io_return n)
      else if ch = CHR ''v'' then io_then (io_mod (\<lambda>w. w\<lparr>t_verbose := t_verbose w + 1\<rparr>)) (io_return tos)
      else if ch = CHR ''w'' then
        io_then (set_or_exit K (\<lambda>w. w\<lparr>t_waittime := n\<rparr>) (n \<le> 1) ''traceroute: wait must be >1 sec.'') (io_return tos)
      else usage K)"

fun options_loop :: "'k kernel \<Rightarrow> int \<Rightarrow> (char \<times> string) list \<Rightarrow> ('k tr, int) io" where
  "options_loop K tos [] = io_return tos"
| "options_loop K tos ((ch, optarg) # opts) =
     io_bind (option_step K tos ch optarg) (\<lambda>tos. options_loop K tos opts)"

text \<open>The destination: its address, or that of the host of that name.\<close>

definition find_host :: "'k kernel \<Rightarrow> string \<Rightarrow> ('k tr, unit) io" where
  "find_host K arg =
     io_then (io_mod (\<lambda>w. w\<lparr>t_whereto := (0, 0)\<rparr>))
     (io_bind (sys K ''inet_addr'' [AStr arg]) (\<lambda>a.
      let addr = u32 a in
      if addr \<noteq> u32 (- 1) then io_mod (\<lambda>w. w\<lparr>t_whereto := (AF_INET, addr), t_hostname := arg\<rparr>)
      else
        io_bind (sys_r K ''gethostbyname'' [AStr arg]) (\<lambda>hp.
        if r_ret hp \<noteq> 0 then
          io_mod (\<lambda>w. w\<lparr>t_whereto := (int_at hp 0, u32 (int_at hp 1)), t_hostname := r_str hp\<rparr>)
        else io_then (eprintf K ''traceroute: unknown host %s'' [AStr arg]) (io_exit 1))))"

definition MAXPACKET :: int where "MAXPACKET = 65535"

definition make_outpacket :: "'k kernel \<Rightarrow> int \<Rightarrow> ('k tr, unit) io" where
  "make_outpacket K tos =
     io_bind (io_get t_datalen) (\<lambda>datalen.
     if datalen < 0 \<or> datalen \<ge> MAXPACKET - sizeof_opacket then
       io_then (eprintf K ''traceroute: packet size must be 0 <= s < %ld.'' [AInt (MAXPACKET - sizeof_opacket)])
         (io_exit 1)
     else
       io_then (io_mod (\<lambda>w. w\<lparr>t_datalen := datalen + sizeof_opacket\<rparr>))
       (io_bind (sys K ''malloc'' [AInt (datalen + sizeof_opacket)]) (\<lambda>p.
        if p = 0 then io_then (perror K ''traceroute: malloc'') (io_exit 1)
        else
          io_mod (\<lambda>w. w\<lparr>t_outpacket := zero_opacket\<lparr>ip_dst := snd (t_whereto w), ip_tos := tos,
                         ip_v := IPVERSION, ip_id := 0\<rparr>\<rparr>))))"

definition set_debug_route :: "'k kernel \<Rightarrow> int \<Rightarrow> int \<Rightarrow> ('k tr, unit) io" where
  "set_debug_route K fd options =
     io_then (io_when (and options SO_DEBUG \<noteq> 0) (do_call K ''setsockopt'' [AInt fd, AInt SOL_SOCKET, AInt SO_DEBUG, AInt 1]))
       (io_when (and options SO_DONTROUTE \<noteq> 0) (do_call K ''setsockopt'' [AInt fd, AInt SOL_SOCKET, AInt SO_DONTROUTE, AInt 1]))"

definition die :: "'k kernel \<Rightarrow> string \<Rightarrow> int \<Rightarrow> ('k tr, 'a) io" where
  "die K msg n = io_then (perror K msg) (io_exit n)"

text \<open>Opening the sockets; \<open>from\<close> is the address the probes are to come from, when given.\<close>

definition open_sockets :: "'k kernel \<Rightarrow> ('k tr, unit) io" where
  "open_sockets K =
     io_bind (sys K ''getpid'' []) (\<lambda>pid.
     io_then (io_mod (\<lambda>w. w\<lparr>t_ident := or (and pid 65535) 32768\<rparr>))
     (io_bind (sys_r K ''getprotobyname'' [AStr ''icmp'']) (\<lambda>pe.
     if r_ret pe = 0 then io_then (eprintf K ''icmp: unknown protocol'' []) (io_exit 10)
     else
       io_bind (socket K AF_INET SOCK_RAW (int_at pe 0)) (\<lambda>s.
       io_then (io_mod (\<lambda>w. w\<lparr>t_s := s\<rparr>))
       (if s < 0 then die K ''traceroute: icmp socket'' 5
        else
          io_bind (io_get t_options) (\<lambda>options.
          io_then (set_debug_route K s options)
          (io_bind (socket K AF_INET SOCK_RAW IPPROTO_RAW) (\<lambda>sndsock.
           io_then (io_mod (\<lambda>w. w\<lparr>t_sndsock := sndsock\<rparr>))
           (if sndsock < 0 then die K ''traceroute: raw socket'' 5
            else
              io_bind (io_get t_datalen) (\<lambda>datalen.
              io_bind (setsockopt K sndsock SOL_SOCKET SO_SNDBUF datalen) (\<lambda>r.
              if r < 0 then die K ''traceroute: SO_SNDBUF'' 6
              else
                io_bind (setsockopt K sndsock IPPROTO_IP IP_HDRINCL 1) (\<lambda>r.
                if r < 0 then die K ''traceroute: IP_HDRINCL'' 6
                else set_debug_route K sndsock options))))))))))))"

definition set_source :: "'k kernel \<Rightarrow> ('k tr, unit) io" where
  "set_source K =
     io_bind (io_get t_source) (\<lambda>source.
     case source of
       None \<Rightarrow> io_return ()
     | Some src \<Rightarrow>
         io_bind (sys K ''inet_addr'' [AStr src]) (\<lambda>a.
         if u32 a = u32 (- 1) then io_then (printf K ''traceroute: unknown host %s'' [AStr src]) (io_exit 1)
         else io_mod (\<lambda>w. w\<lparr>t_outpacket := (t_outpacket w)\<lparr>ip_src := u32 a\<rparr>\<rparr>)))"

definition print_header :: "'k kernel \<Rightarrow> ('k tr, unit) io" where
  "print_header K =
     io_bind (io_get id) (\<lambda>w.
     io_then (eprintf K ''traceroute to %s (%s)'' [AStr (t_hostname w), AInt (snd (t_whereto w))])
     (io_then (case t_source w of None \<Rightarrow> io_return () | Some src \<Rightarrow> eprintf K '' from %s'' [AStr src])
     (io_then (eprintf K '', %d hops max, %d byte packets'' [AInt (t_max_ttl w), AInt (t_datalen w)])
       (do_call K ''fflush'' [AStr ''stderr'']))))"

definition set_up :: "'k kernel \<Rightarrow> (char \<times> string) list \<Rightarrow> string list \<Rightarrow> ('k tr, unit) io" where
  "set_up K opts args =
     io_bind (options_loop K 0 opts) (\<lambda>tos.
     if length args < 1 then usage K
     else
       io_then (do_call K ''setlinebuf'' [AStr ''stdout''])
       (io_then (find_host K (args ! 0))
       (io_then (io_when (length args > 1) (io_mod (\<lambda>w. w\<lparr>t_datalen := atoi (args ! 1)\<rparr>)))
       (io_then (make_outpacket K tos)
       (io_then (open_sockets K)
       (io_then (set_source K) (print_header K)))))))"
section \<open>Sending a probe\<close>

definition filled :: "opacket \<Rightarrow> int \<Rightarrow> int \<Rightarrow> int \<Rightarrow> int \<Rightarrow> int \<Rightarrow> opacket" where
  "filled op datalen ident port seq ttl =
     op\<lparr>ip_off := 0, ip_hl := sizeof_ip div 4, ip_p := IPPROTO_UDP, ip_len := u16 datalen,
        ip_ttl := ttl mod 256, ip_v := IPVERSION, ip_id := htons (ident + seq),
        uh_sport := htons ident, uh_dport := htons (port + seq),
        uh_ulen := htons (u16 (datalen - sizeof_ip)), uh_sum := 0,
        op_seq := seq mod 256, op_ttl := ttl mod 256\<rparr>"

definition send_probe :: "'k kernel \<Rightarrow> int \<Rightarrow> int \<Rightarrow> ('k tr, unit) io" where
  "send_probe K seq ttl =
     io_then (io_mod (\<lambda>w. w\<lparr>t_outpacket := filled (t_outpacket w) (t_datalen w) (t_ident w) (t_port w) seq ttl\<rparr>))
     (io_bind (gettimeofday K) (\<lambda>tv.
      io_then (io_mod (\<lambda>w. w\<lparr>t_outpacket := (t_outpacket w)\<lparr>op_tv := tv\<rparr>\<rparr>))
      (io_bind (io_get id) (\<lambda>w.
       io_bind (sys K ''sendto'' [AInt (t_sndsock w), ABytes (opacket_bytes (t_outpacket w) (t_datalen w)),
                  AInt 0, AInt (fst (t_whereto w)), AInt (snd (t_whereto w))]) (\<lambda>i.
       io_when (i < 0 \<or> i \<noteq> t_datalen w)
         (io_then (io_when (i < 0) (perror K ''sendto''))
         (io_then (printf K ''traceroute: wrote %s %d chars, ret=%d''
                     [AStr (t_hostname w), AInt (t_datalen w), AInt i])
           (do_call K ''fflush'' [AStr ''stdout''])))))))) "

section \<open>Receiving\<close>

text \<open>The sender's address is only changed when a packet is read.\<close>

definition wait_for_reply :: "'k kernel \<Rightarrow> int \<Rightarrow> ('k tr, int \<times> int) io" where
  "wait_for_reply K from_addr =
     io_bind (io_get id) (\<lambda>w.
     io_bind (select1 K (t_s w) \<lparr>tv_sec = t_waittime w, tv_usec = 0\<rparr>) (\<lambda>(n, left).
     if n > 0 then
       io_bind (recvfrom K (t_s w) (t_packet w)) (\<lambda>(cc, pk, a).
       io_then (io_mod (\<lambda>w. w\<lparr>t_packet := pk\<rparr>)) (io_return (cc, if cc < 0 then from_addr else a)))
     else io_return (0, from_addr)))"

definition deltaT :: "timeval \<Rightarrow> timeval \<Rightarrow> rat" where
  "deltaT t1 t2 =
     of_int (tv_sec t2 - tv_sec t1) * 1000 + of_int (tv_usec t2 - tv_usec t1) / 1000"

definition ttab :: "string list" where
  "ttab = [''Echo Reply'', ''ICMP 1'', ''ICMP 2'', ''Dest Unreachable'', ''Source Quench'', ''Redirect'',
     ''ICMP 6'', ''ICMP 7'', ''Echo'', ''ICMP 9'', ''ICMP 10'', ''Time Exceeded'', ''Param Problem'',
     ''Timestamp'', ''Timestamp Reply'', ''Info Request'', ''Info Reply'']"

definition pr_type :: "int \<Rightarrow> string" where
  "pr_type t = (if t > 16 then ''OUT-OF-RANGE'' else ttab ! nat t)"

text \<open>
  The decision of \<open>packet_ok\<close>: 0 when the packet is not for this probe (the second result tells
  whether it was too short), -1 for a time exceeded, the unreachable code plus 1 otherwise.
\<close>

definition packet_match :: "byte list \<Rightarrow> int \<Rightarrow> int \<Rightarrow> int \<Rightarrow> int \<Rightarrow> (int \<times> bool) result" where
  "packet_match buf cc ident port seq =
     rbind (ip_hlen buf 0) (\<lambda>hlen.
     if cc < hlen + ICMP_MINLEN then Inr (0, True)
     else
       let cc = cc - hlen; icp = hlen in
       rbind (u8 buf icp) (\<lambda>type.
       rbind (u8 buf (icp + 1)) (\<lambda>code.
       if (type = ICMP_TIMXCEED \<and> code = ICMP_TIMXCEED_INTRANS) \<or> type = ICMP_UNREACH then
         let hip = icp + 8 in
         rbind (ip_hlen buf hip) (\<lambda>hlen.
         let up = hip + hlen in
         if hlen + 12 \<le> cc then
           rbind (u8 buf (hip + 9)) (\<lambda>hip_p.
           rbind (le16 buf up) (\<lambda>sport.
           rbind (le16 buf (up + 2)) (\<lambda>dport.
           if hip_p = IPPROTO_UDP \<and> sport = htons ident \<and> dport = htons (port + seq) then
             Inr (if type = ICMP_TIMXCEED then - 1 else code + 1, False)
           else Inr (0, False))))
         else Inr (0, False))
       else Inr (0, False))))"

text \<open>The dump of the verbose mode: the \<open>long\<close>s from the quoted header on, while \<open>i < cc\<close>.\<close>

function dump_loop :: "'k kernel \<Rightarrow> byte list \<Rightarrow> int \<Rightarrow> int \<Rightarrow> int \<Rightarrow> ('k tr, unit) io" where
  "dump_loop K buf lp i cc =
     (if i < cc then
        io_bind (io_lift (rd lp 8 buf)) (\<lambda>bs.
        io_then (printf K ''%2d: x%8.8lx'' [AInt i, ABytes bs]) (dump_loop K buf (lp + 8) (i + 8) cc))
      else io_return ())"
  by pat_completeness auto
termination
  by (relation "measure (\<lambda>(K, buf, lp, i, cc). nat (cc - i))") auto

declare dump_loop.simps [simp del]

definition packet_ok :: "'k kernel \<Rightarrow> int \<Rightarrow> int \<Rightarrow> int \<Rightarrow> ('k tr, int) io" where
  "packet_ok K cc from_addr seq =
     io_bind (io_get id) (\<lambda>w.
     let buf = t_packet w in
     io_bind (io_lift (packet_match buf cc (t_ident w) (t_port w) seq)) (\<lambda>(r, short).
     if r \<noteq> 0 \<or> t_verbose w = 0 then io_return r
     else if short then
       io_then (printf K ''packet too short (%d bytes) from %s'' [AInt cc, AInt from_addr]) (io_return 0)
     else
       io_bind (io_lift (ip_hlen buf 0)) (\<lambda>hlen.
       io_bind (io_lift (le32 buf 16)) (\<lambda>ip_dst.
       io_bind (io_lift (u8 buf hlen)) (\<lambda>type.
       io_bind (io_lift (u8 buf (hlen + 1))) (\<lambda>code.
       io_then (printf K ''%d bytes from %s to %s'' [AInt (cc - hlen), AInt from_addr, AInt ip_dst])
       (io_then (printf K '': icmp type %d (%s) code %d'' [AInt type, AStr (pr_type type), AInt code])
       (io_then (dump_loop K buf (hlen + 8) 4 (cc - hlen)) (io_return 0)))))))))"

text \<open>The part of a name after its first dot, if it has one.\<close>

definition after_dot :: "string \<Rightarrow> string option" where
  "after_dot s = (case dropWhile (\<lambda>c. c \<noteq> CHR ''.'') s of [] \<Rightarrow> None | d # rest \<Rightarrow> Some rest)"

definition dotted :: "int \<Rightarrow> string" where
  "dotted a = (let a = ntohl a in
     dec_string (nat (a div 16777216 mod 256)) @ ''.'' @ dec_string (nat (a div 65536 mod 256)) @ ''.'' @
     dec_string (nat (a div 256 mod 256)) @ ''.'' @ dec_string (nat (a mod 256)))"

text \<open>The buffer \<open>line\<close> has 50 characters.\<close>

definition inetname :: "'k kernel \<Rightarrow> int \<Rightarrow> ('k tr, string) io" where
  "inetname K addr =
     io_bind (io_get id) (\<lambda>w.
     io_then
       (if t_first w \<and> t_nflag w = 0 then
          io_then (io_mod (\<lambda>w. w\<lparr>t_first := False\<rparr>))
          (io_bind (sys_r K ''gethostname'' [AInt 64]) (\<lambda>r.
           io_mod (\<lambda>w. w\<lparr>t_domain := (if r_ret r = 0 then (case after_dot (r_str r) of None \<Rightarrow> [] | Some d \<Rightarrow> d) else [])\<rparr>)))
        else io_return ())
     (io_bind (io_get id) (\<lambda>w.
      io_bind (if t_nflag w = 0 \<and> addr \<noteq> 0 then
                 io_bind (sys_r K ''gethostbyaddr'' [AInt addr, AInt 4, AInt AF_INET]) (\<lambda>hp.
                 if r_ret hp \<noteq> 0 then
                   io_return (Some (if after_dot (r_str hp) = Some (t_domain w)
                                    then takeWhile (\<lambda>c. c \<noteq> CHR ''.'') (r_str hp) else r_str hp))
                 else io_return None)
               else io_return None) (\<lambda>cp.
      case cp of
        Some name \<Rightarrow> if length name < 50 then io_return name else io_fault OutOfBounds
      | None \<Rightarrow> io_return (dotted addr)))))"

definition print_from :: "'k kernel \<Rightarrow> int \<Rightarrow> int \<Rightarrow> ('k tr, unit) io" where
  "print_from K cc from_addr =
     io_bind (io_get id) (\<lambda>w.
     io_bind (io_lift (ip_hlen (t_packet w) 0)) (\<lambda>hlen.
     io_then
       (if t_nflag w \<noteq> 0 then printf K '' %s'' [AInt from_addr]
        else io_bind (inetname K from_addr) (\<lambda>name. printf K '' %s (%s)'' [AStr name, AInt from_addr]))
       (io_when (t_verbose w \<noteq> 0)
         (io_bind (io_lift (le32 (t_packet w) 16)) (\<lambda>ip_dst.
          printf K '' %d bytes to %s'' [AInt (cc - hlen), AInt ip_dst])))))"

section \<open>The hops\<close>

text \<open>The local variables of \<open>main\<close> that live across probes.\<close>

record hop =
  h_seq :: int
  h_from :: int
  h_lastaddr :: int
  h_got_there :: int
  h_unreachable :: int

text \<open>The switch on the answer: which counter it raises and the mark it prints.\<close>

definition answer :: "'k kernel \<Rightarrow> int \<Rightarrow> hop \<Rightarrow> ('k tr, hop) io" where
  "answer K i h =
     (let there = io_return (h\<lparr>h_got_there := h_got_there h + 1\<rparr>);
          unre = (\<lambda>mark. io_then (printf K mark []) (io_return (h\<lparr>h_unreachable := h_unreachable h + 1\<rparr>)))
      in
      if i - 1 = ICMP_UNREACH_PORT then
        io_bind (io_get id) (\<lambda>w.
        io_bind (io_lift (u8 (t_packet w) 8)) (\<lambda>ttl.
        io_then (io_when (ttl \<le> 1) (printf K '' !'' [])) there))
      else if i - 1 = ICMP_UNREACH_NET then unre '' !N''
      else if i - 1 = ICMP_UNREACH_HOST then unre '' !H''
      else if i - 1 = ICMP_UNREACH_PROTOCOL then io_then (printf K '' !P'' []) there
      else if i - 1 = ICMP_UNREACH_NEEDFRAG then unre '' !F''
      else if i - 1 = ICMP_UNREACH_SRCFAIL then unre '' !S''
      else io_return h)"

text \<open>One turn of the loop that waits for the answer to a probe; it ends with \<open>cc\<close>.\<close>

definition reply_turn :: "'k kernel \<Rightarrow> timeval \<Rightarrow> hop \<Rightarrow> ('k tr, hop + int \<times> hop) io" where
  "reply_turn K t1 h =
     io_bind (wait_for_reply K (h_from h)) (\<lambda>(cc, from_addr).
     let h = h\<lparr>h_from := from_addr\<rparr> in
     if cc = 0 then io_return (Inr (0, h))
     else
       io_bind (gettimeofday K) (\<lambda>t2.
       io_bind (packet_ok K cc from_addr (h_seq h)) (\<lambda>i.
       if i \<noteq> 0 then
         io_bind (if from_addr \<noteq> h_lastaddr h then
                    io_then (print_from K cc from_addr) (io_return (h\<lparr>h_lastaddr := from_addr\<rparr>))
                  else io_return h) (\<lambda>h.
         io_then (printf K ''  %g ms'' [ARat (deltaT t1 t2)])
         (io_bind (answer K i h) (\<lambda>h. io_return (Inr (cc, h)))))
       else io_return (Inl h))))"

definition probe_once :: "'k kernel \<Rightarrow> nat \<Rightarrow> int \<Rightarrow> hop \<Rightarrow> ('k tr, hop) io" where
  "probe_once K fuel ttl h =
     io_bind (gettimeofday K) (\<lambda>t1.
     let h = h\<lparr>h_seq := h_seq h + 1\<rparr> in
     io_then (send_probe K (h_seq h) ttl)
     (io_bind (io_loop fuel (reply_turn K t1) h) (\<lambda>(cc, h).
      io_then (io_when (cc = 0) (printf K '' *'' []))
      (io_then (do_call K ''fflush'' [AStr ''stdout'']) (io_return h)))))"

fun probes :: "'k kernel \<Rightarrow> nat \<Rightarrow> int \<Rightarrow> nat \<Rightarrow> hop \<Rightarrow> ('k tr, hop) io" where
  "probes K fuel ttl 0 h = io_return h"
| "probes K fuel ttl (Suc n) h = io_bind (probe_once K fuel ttl h) (\<lambda>h. probes K fuel ttl n h)"

text \<open>The hops from \<open>ttl\<close> on; \<open>n\<close> is how many are left.\<close>

fun hops :: "'k kernel \<Rightarrow> nat \<Rightarrow> int \<Rightarrow> nat \<Rightarrow> hop \<Rightarrow> ('k tr, unit) io" where
  "hops K fuel ttl 0 h = io_return ()"
| "hops K fuel ttl (Suc n) h =
     io_then (printf K ''%2d '' [AInt ttl])
     (io_bind (io_get t_nprobes) (\<lambda>nprobes.
      io_bind (probes K fuel ttl (nat nprobes) (h\<lparr>h_lastaddr := 0, h_got_there := 0, h_unreachable := 0\<rparr>)) (\<lambda>h.
      io_then (do_call K ''putchar'' [AInt 10])
      (if h_got_there h \<noteq> 0 \<or> h_unreachable h \<ge> nprobes - 1 then io_exit 0
       else hops K fuel (ttl + 1) n h))))"

definition hop_start :: hop where
  "hop_start = \<lparr>h_seq = 0, h_from = 0, h_lastaddr = 0, h_got_there = 0, h_unreachable = 0\<rparr>"

definition main :: "'k kernel \<Rightarrow> nat \<Rightarrow> (char \<times> string) list \<Rightarrow> string list \<Rightarrow> ('k tr, unit) io" where
  "main K fuel opts args =
     io_then (set_up K opts args)
     (io_bind (io_get t_max_ttl) (\<lambda>max_ttl. hops K fuel 1 (nat max_ttl) hop_start))"
section \<open>Which packets are accepted\<close>

lemma htons_range: "0 \<le> htons v \<and> htons v < 65536"
proof -
  have "0 \<le> u16 v" "u16 v < 65536" by (simp_all add: u16_def)
  then have "0 \<le> u16 v mod 256" "u16 v mod 256 \<le> 255" "0 \<le> u16 v div 256" "u16 v div 256 < 256"
    by (auto simp: div_less_iff_less_mult zdiv_mono1)
  then show ?thesis unfolding htons_def by linarith
qed

lemma htons_swap: "htons (htons v) = u16 v"
proof -
  have r: "0 \<le> u16 v" "u16 v < 65536" by (simp_all add: u16_def)
  then have d: "0 \<le> u16 v div 256" "u16 v div 256 < 256" by auto
  have "u16 (htons v) = htons v" using htons_range [of v] by (simp add: u16_def)
  moreover have "htons v mod 256 = u16 v div 256" "htons v div 256 = u16 v mod 256"
    using d by (simp_all add: htons_def)
  ultimately have "htons (htons v) = u16 v div 256 * 256 + u16 v mod 256" by (simp add: htons_def)
  then show ?thesis by simp
qed

lemma htons_eq_iff: "htons a = htons b \<longleftrightarrow> u16 a = u16 b"
proof
  assume "htons a = htons b"
  then have "htons (htons a) = htons (htons b)" by simp
  then show "u16 a = u16 b" by (simp only: htons_swap)
qed (simp add: htons_def)

lemma port_eq_iff: "u16 (port + seq) = u16 (port + seq') \<longleftrightarrow> (seq' - seq) mod 65536 = 0"
proof -
  have "u16 (port + seq) = u16 (port + seq') \<longleftrightarrow> 65536 dvd (port + seq') - (port + seq)"
    unfolding u16_def by (metis mod_eq_dvd_iff)
  then show ?thesis by (simp add: dvd_eq_mod_eq_0)
qed

lemma le16_nth:
  "nat i + 1 < length buf \<Longrightarrow> 0 \<le> i \<Longrightarrow> buf ! nat i = word_of_int v \<Longrightarrow> buf ! Suc (nat i) = word_of_int (v div 256) \<Longrightarrow>
   le16 buf i = Inr (u16 v)"
proof -
  assume a: "nat i + 1 < length buf" "0 \<le> i" "buf ! nat i = word_of_int v" "buf ! Suc (nat i) = word_of_int (v div 256)"
  have "v mod (256 * 256) = 256 * (v div 256 mod 256) + v mod 256" by (rule zmod_zmult2_eq) simp
  with a show "le16 buf i = Inr (u16 v)"
    by (simp add: le16_def u8_ok nat_add_distrib u16_def uint_word_of_int)
qed

text \<open>
  An ICMP answer as it arrives: an IP header \<open>ih\<close>, type, code, six more bytes, then the IP header
  \<open>q\<close> of the probe it answers (of 20 bytes, for UDP) and its UDP header.
\<close>

definition icmp_answer :: "byte list \<Rightarrow> byte \<Rightarrow> byte \<Rightarrow> byte list \<Rightarrow> byte list \<Rightarrow> opacket \<Rightarrow> byte list \<Rightarrow> byte list" where
  "icmp_answer ih type code x q op rest = ih @ [type, code] @ x @ q @ udp_bytes op @ rest"

definition answer_shape :: "byte list \<Rightarrow> byte list \<Rightarrow> byte list \<Rightarrow> bool" where
  "answer_shape ih x q \<longleftrightarrow> 0 < length ih \<and> int (length ih) = 4 * (uint (ih ! 0) mod 16) \<and> length x = 6 \<and>
     length q = 20 \<and> uint (q ! 0) mod 16 = 5 \<and> uint (q ! 9) = IPPROTO_UDP"

lemma answer_at:
  fixes type code op rest
  assumes "answer_shape ih x q"
  defines "buf \<equiv> icmp_answer ih type code x q op rest" and "n \<equiv> int (length ih)"
  shows "ip_hlen buf 0 = Inr n" "u8 buf n = Inr (uint type)" "u8 buf (n + 1) = Inr (uint code)"
    "ip_hlen buf (n + 8) = Inr 20" "u8 buf (n + 8 + 9) = Inr IPPROTO_UDP"
    "le16 buf (n + 8 + 20) = Inr (u16 (uh_sport op))" "le16 buf (n + 8 + 20 + 2) = Inr (u16 (uh_dport op))"
proof -
  have s: "0 < length ih" "n = 4 * (uint (ih ! 0) mod 16)" "length x = 6" "length q = 20"
    "uint (q ! 0) mod 16 = 5" "uint (q ! 9) = IPPROTO_UDP" "0 \<le> n" "nat n = length ih"
    using assms(1) by (auto simp: answer_shape_def n_def)
  have len: "length buf = length ih + 36 + length rest"
    using s by (simp add: buf_def icmp_answer_def udp_bytes_def bytes16_def)
  have at: "buf ! (length ih + j) = ([type, code] @ x @ q @ udp_bytes op @ rest) ! j" for j
    by (simp add: buf_def icmp_answer_def)
  have h: "buf ! 0 = ih ! 0" using s(1) by (simp add: buf_def icmp_answer_def nth_append)
  show "ip_hlen buf 0 = Inr n" using s h len by (simp add: ip_hlen_def u8_ok)
  show "u8 buf n = Inr (uint type)" using s(8) at [of 0] len by (simp add: u8_ok n_def)
  show "u8 buf (n + 1) = Inr (uint code)" using s(8) at [of 1] len by (simp add: u8_ok n_def nat_add_distrib)
  show "ip_hlen buf (n + 8) = Inr 20"
    using s at [of 8] len by (simp add: ip_hlen_def u8_ok n_def nat_add_distrib nth_append)
  show "u8 buf (n + 8 + 9) = Inr IPPROTO_UDP"
    using s at [of 17] len by (simp add: u8_ok n_def nat_add_distrib nth_append add.commute)
  show "le16 buf (n + 8 + 20) = Inr (u16 (uh_sport op))"
    using s at [of 28] at [of 29] len
    by (intro le16_nth) (simp_all add: n_def nat_add_distrib nth_append udp_bytes_def bytes16_def add.commute)
  show "le16 buf (n + 8 + 20 + 2) = Inr (u16 (uh_dport op))"
    using s at [of 30] at [of 31] len
    by (intro le16_nth) (simp_all add: n_def nat_add_distrib nth_append udp_bytes_def bytes16_def add.commute)
qed

text \<open>
  Claim C5. The probes and their answers match: a time exceeded (in transit) or an unreachable that
  quotes the UDP header \<open>send_probe\<close> made for probe number \<open>seq\<close> is accepted by \<open>packet_ok\<close> when it
  waits for probe \<open>seq'\<close> exactly if the two numbers agree modulo 65536; the value is -1 for a time
  exceeded and the code plus 1 for an unreachable.
\<close>

theorem packet_match_own_probe:
  assumes "answer_shape ih x q" and "int (length ih) + 36 \<le> cc"
    and "(uint type = ICMP_TIMXCEED \<and> uint code = ICMP_TIMXCEED_INTRANS) \<or> uint type = ICMP_UNREACH"
  shows "packet_match (icmp_answer ih type code x q (filled op datalen ident port seq ttl) rest) cc ident port seq' =
    Inr (if (seq' - seq) mod 65536 = 0 then (if uint type = ICMP_TIMXCEED then - 1 else uint code + 1) else 0, False)"
proof -
  let ?op = "filled op datalen ident port seq ttl"
  have p: "u16 (uh_sport ?op) = htons ident" "u16 (uh_dport ?op) = htons (port + seq)"
    using htons_range [of ident] htons_range [of "port + seq"] by (simp_all add: filled_def u16_def)
  have eq: "htons (port + seq) = htons (port + seq') \<longleftrightarrow> (seq' - seq) mod 65536 = 0"
    unfolding htons_eq_iff port_eq_iff ..
  note at = answer_at [OF assms(1), of type code ?op rest, unfolded p]
  show ?thesis
    using assms(2,3) eq
    unfolding packet_match_def Let_def at rbind_Inr
    by (simp add: at ICMP_MINLEN_def split: if_splits)
qed

section \<open>How the program ends\<close>

text \<open>A network from which nothing arrives in time.\<close>

definition silent :: "'k kernel \<Rightarrow> bool" where
  "silent K \<longleftrightarrow> (\<forall>args k. r_ret (fst (K (''select'', args) k)) \<le> 0)"

definition sends :: "nat \<Rightarrow> ('a \<Rightarrow> bool) \<Rightarrow> ('k tr, 'a) io \<Rightarrow> bool" where
  "sends n Q m \<longleftrightarrow> makes t_nprobes ''sendto'' n Q m"

lemma global_nprobes: "global (t_nprobes :: 'k tr \<Rightarrow> int)"
  by (simp add: global_def)

lemma sends_return: "Q a \<Longrightarrow> sends 0 Q (io_return a)"
  unfolding sends_def by (rule makes_return)

lemma sends_bind: "sends n1 Q1 m \<Longrightarrow> (\<And>a. Q1 a \<Longrightarrow> sends n2 Q (f a)) \<Longrightarrow> sends (n1 + n2) Q (io_bind m f)"
  unfolding sends_def by (rule makes_bind)

lemma sends_then: "sends n1 Q1 m \<Longrightarrow> sends n2 Q n \<Longrightarrow> sends (n1 + n2) Q (io_then m n)"
  unfolding sends_def by (rule makes_then)

lemma sends_sys: "(\<And>k. Q (r_ret (fst (K (nm, args) k)))) \<Longrightarrow> sends (if nm = ''sendto'' then 1 else 0) Q (sys K nm args)"
  unfolding sends_def by (rule makes_sys [OF global_nprobes])

lemma sends_call: "sends (if nm = ''sendto'' then 1 else 0) (\<lambda>_. True) (do_call K nm args)"
  unfolding sends_def by (rule makes_call [OF global_nprobes])

lemma sends_when: "(c \<Longrightarrow> sends 0 (\<lambda>_. True) m) \<Longrightarrow> sends 0 (\<lambda>_. True) (io_when c m)"
  unfolding sends_def by (rule makes_when)

lemma sends_get: "sends 0 (\<lambda>_. True) (io_get f)"
  unfolding sends_def by (rule makes_get) simp

lemma sends_mod: "(\<And>w. t_nprobes (f w) = t_nprobes w \<and> w_trace (f w) = w_trace w) \<Longrightarrow> sends 0 (\<lambda>_. True) (io_mod f)"
  unfolding sends_def by (rule makes_mod) simp_all

lemma sends_weaken: "sends n Q m \<Longrightarrow> (\<And>a. Q a \<Longrightarrow> Q' a) \<Longrightarrow> n = n' \<Longrightarrow> sends n' Q' m"
  unfolding sends_def by (rule makes_weaken)

lemma sends_quiet_call: "nm \<noteq> ''sendto'' \<Longrightarrow> sends 0 (\<lambda>_. True) (do_call K nm args)"
  using sends_call [of nm K args] by simp

lemma sends_printf: "sends 0 (\<lambda>_. True) (printf K fmt args)"
  unfolding printf_def by (rule sends_quiet_call) simp

lemma sends_gettimeofday: "sends 0 (\<lambda>_. True) (gettimeofday K)"
proof -
  have "sends (0 + 0) (\<lambda>_. True) (gettimeofday K)"
    unfolding gettimeofday_def
  proof (rule sends_bind)
    show "sends 0 (\<lambda>_. True) (sys_r K ''gettimeofday'' [] :: ('k tr, reply) io)" for K :: "'k kernel"
      using makes_sys_r [OF global_nprobes, where K = K and nm' = "''gettimeofday''" and nm = "''sendto''" and Q = "\<lambda>_. True"]
      by (simp add: sends_def)
  qed (rule sends_return, simp)
  then show ?thesis by simp
qed

lemma send_probe_sends: "sends 1 (\<lambda>_. True) (send_probe K seq ttl)"
proof -
  have "sends (0 + (0 + (0 + (0 + (1 + 0))))) (\<lambda>_. True) (send_probe K seq ttl)"
    unfolding send_probe_def perror_def
    by (rule sends_then sends_bind sends_mod sends_gettimeofday sends_get)+
      (simp, (rule sends_then sends_bind sends_mod sends_gettimeofday sends_get)+, simp,
       rule sends_bind, rule sends_get, rule sends_bind,
       rule sends_weaken [OF sends_sys [where Q = "\<lambda>_. True"]], simp_all,
       intro sends_when, rule sends_weaken [OF sends_then [OF sends_when
         [OF sends_quiet_call] sends_then [OF sends_printf sends_quiet_call]]], simp_all)
  then show ?thesis by simp
qed

lemma wait_silent:
  fixes K :: "'k kernel"
  assumes s: "silent K"
  shows "sends 0 (\<lambda>r. fst r = 0) (wait_for_reply K a)"
proof -
  have sel: "sends (0 + 0) (\<lambda>r. fst r \<le> 0) (select1 K fd tv :: ('k tr, int \<times> timeval) io)" for fd tv
    unfolding select1_def
  proof (rule sends_bind)
    let ?args = "[AInt (fd + 1), AInt fd, AInt (tv_sec tv), AInt (tv_usec tv)]"
    show "sends 0 (\<lambda>r. r_ret r \<le> 0) (sys_r K ''select'' ?args :: ('k tr, reply) io)"
      using makes_sys_r [OF global_nprobes, where K = K and nm' = "''select''" and args = ?args
          and nm = "''sendto''" and Q = "\<lambda>r. r_ret r \<le> 0"] s
      by (simp add: sends_def silent_def)
  qed (rule sends_return, simp)
  have "sends (0 + (0 + 0 + 0)) (\<lambda>r. fst r = 0) (wait_for_reply K a)"
    unfolding wait_for_reply_def
    by (rule sends_bind [OF sends_get], rule sends_bind [OF sel], clarsimp, rule sends_return, simp)
  then show ?thesis by simp
qed

lemma loop_silent:
  assumes "silent K" "0 < fuel"
  shows "sends 0 (\<lambda>r. fst r = 0 \<and> h_got_there (snd r) = h_got_there h \<and> h_unreachable (snd r) = h_unreachable h)
    (io_loop fuel (reply_turn K t1) h)" (is "sends 0 ?Q _")
proof -
  obtain n where n: "fuel = Suc n" using assms(2) by (cases fuel) auto
  have turn: "sends (0 + 0) (\<lambda>r. \<exists>x. r = Inr x \<and> ?Q x) (reply_turn K t1 h)"
    unfolding reply_turn_def
    by (rule sends_bind [OF wait_silent [OF assms(1)]], clarsimp, rule sends_return, simp)
  have "sends (0 + 0 + 0) ?Q (io_loop fuel (reply_turn K t1) h)"
    unfolding n io_loop.simps by (rule sends_bind [OF turn], clarsimp, rule sends_return, simp)
  then show ?thesis by simp
qed

lemma probe_silent:
  assumes "silent K" "0 < fuel"
  shows "sends 1 (\<lambda>h'. h_got_there h' = h_got_there h \<and> h_unreachable h' = h_unreachable h)
    (probe_once K fuel ttl h)" (is "sends 1 ?Q _")
proof -
  have "sends (0 + (1 + (0 + (0 + (0 + 0))))) ?Q (probe_once K fuel ttl h)"
    unfolding probe_once_def Let_def
    apply (rule sends_bind [OF sends_gettimeofday])
    apply (rule sends_then [OF send_probe_sends])
    apply (rule sends_bind [OF loop_silent [OF assms]])
    apply (clarsimp simp only: split_beta)
    apply (rule sends_then [OF sends_when [OF sends_printf]])
    apply (rule sends_then [OF sends_quiet_call])
     apply simp
    apply (rule sends_return)
    apply auto
    done
  then show ?thesis by simp
qed

lemma probes_silent:
  assumes "silent K" "0 < fuel"
  shows "sends n (\<lambda>h'. h_got_there h' = h_got_there h \<and> h_unreachable h' = h_unreachable h)
    (probes K fuel ttl n h)"
proof (induction n arbitrary: h)
  case 0
  then show ?case by (simp add: sends_return del: io_return_run)
next
  case (Suc n)
  have "sends (1 + n) (\<lambda>h'. h_got_there h' = h_got_there h \<and> h_unreachable h' = h_unreachable h)
      (probes K fuel ttl (Suc n) h)"
    unfolding probes.simps
    by (rule sends_bind [OF probe_silent [OF assms]], rule sends_weaken [OF Suc.IH]) auto
  then show ?case by simp
qed

lemma answer_counts: "returns (\<lambda>h'. h_unreachable h \<le> h_unreachable h') (answer K i h)"
  unfolding answer_def Let_def
  by (auto intro!: returns_then returns_return returns_bind_any)

lemma turn_counts:
  assumes h: "0 \<le> h_unreachable h"
  shows "returns (case_sum (\<lambda>h. 0 \<le> h_unreachable h) (\<lambda>(cc, h). 0 \<le> h_unreachable h)) (reply_turn K t1 h)"
    (is "returns ?Q _")
proof -
  have shown: "returns (\<lambda>h'. 0 \<le> h_unreachable h')
      (if a \<noteq> h_lastaddr h' then io_then (print_from K cc a) (io_return (h'\<lparr>h_lastaddr := a\<rparr>)) else io_return h')"
    if "0 \<le> h_unreachable h'" for cc a and h' :: hop
    using that by (simp add: returns_then returns_return del: io_return_run)
  have "returns ?Q (io_then (printf K f args) (io_bind (answer K i h') (\<lambda>h. io_return (Inr (cc, h)))))"
    if "0 \<le> h_unreachable h'" for h' :: hop and f args i cc
  proof (rule returns_then, rule returns_bind [OF answer_counts])
    fix a :: hop assume "h_unreachable h' \<le> h_unreachable a"
    with that show "returns ?Q (io_return (Inr (cc, a)))" by (intro returns_return) auto
  qed
  note printed = this
  have more: "returns ?Q (if i \<noteq> 0 then io_bind (if a \<noteq> h_lastaddr h' then io_then (print_from K cc a)
        (io_return (h'\<lparr>h_lastaddr := a\<rparr>)) else io_return h') (\<lambda>h.
        io_then (printf K f args) (io_bind (answer K i h) (\<lambda>h. io_return (Inr (cc, h)))))
      else io_return (Inl h'))"
    if "0 \<le> h_unreachable h'" for i cc a f args and h' :: hop
  proof (cases "i = 0")
    case True
    with that show ?thesis by (simp add: returns_return del: io_return_run)
  next
    case False
    then show ?thesis by (simp only: not_False_eq_True if_True) (rule returns_bind [OF shown [OF that] printed])
  qed
  show ?thesis
    unfolding reply_turn_def Let_def
  proof (rule returns_bind_any, clarify, goal_cases)
    case (1 cc a)
    show ?case
    proof (cases "cc = 0")
      case True
      with h show ?thesis by (simp add: returns_return del: io_return_run)
    next
      case False
      have "0 \<le> h_unreachable (h\<lparr>h_from := a\<rparr>)" using h by simp
      with False show ?thesis
        by (simp only: if_False) (intro returns_bind_any more)
    qed
  qed
qed

lemma probe_counts:
  "0 \<le> h_unreachable h \<Longrightarrow> returns (\<lambda>h'. 0 \<le> h_unreachable h') (probe_once K fuel ttl h)"
  unfolding probe_once_def Let_def
  apply (rule returns_bind_any, rule returns_then)
  apply (rule returns_bind [where ?Q1.0 = "\<lambda>(cc, h). 0 \<le> h_unreachable h"])
   apply (rule returns_loop [where I = "\<lambda>h. 0 \<le> h_unreachable h"], erule turn_counts, simp)
  apply (clarsimp intro!: returns_then returns_return)
  done

lemma probes_count:
  "0 \<le> h_unreachable h \<Longrightarrow> returns (\<lambda>h'. 0 \<le> h_unreachable h') (probes K fuel ttl n h)"
proof (induction n arbitrary: h)
  case 0
  then show ?case by (simp add: returns_def)
next
  case (Suc n)
  show ?case
    unfolding probes.simps by (rule returns_bind [OF probe_counts [OF Suc.prems]], rule Suc.IH)
qed

text \<open>
  With one probe per hop (\<open>-q 1\<close>) the test \<open>unreachable >= nprobes-1\<close> always holds: the
  program never goes on to a second hop, whatever the network answers.
\<close>

theorem one_probe_stops_after_first_hop:
  assumes "t_nprobes (snd (printf K ''%2d '' [AInt ttl] w)) = 1"
  shows "fst (hops K fuel ttl (Suc n) h w) \<noteq> Ok () \<and>
    hops K fuel ttl (Suc n) h w = hops K fuel ttl (Suc 0) h w"
proof -
  let ?h = "h\<lparr>h_lastaddr := 0, h_got_there := 0, h_unreachable := 0\<rparr>"
  obtain w1 where w1: "printf K ''%2d '' [AInt ttl] w = (Ok (), w1)"
    using sends_printf [of K "''%2d ''" "[AInt ttl]"] unfolding sends_def makes_def by fastforce
  with assms have p: "t_nprobes w1 = 1" by simp
  have c: "returns (\<lambda>h'. 0 \<le> h_unreachable h') (probes K fuel ttl (nat 1) ?h)"
    by (rule probes_count) simp
  have "hops K fuel ttl (Suc n) h w =
      (case probes K fuel ttl (nat 1) ?h w1 of
         (Ok h, w) \<Rightarrow> io_then (do_call K ''putchar'' [AInt 10]) (io_exit 0) w
       | (Exited k, w) \<Rightarrow> (Exited k, w) | (Killed s, w) \<Rightarrow> (Killed s, w)
       | (Replaced, w) \<Rightarrow> (Replaced, w) | (Faulted e, w) \<Rightarrow> (Faulted e, w))" for n
    using w1 p c
    by (auto simp: io_then_def io_bind_def returns_def split: prod.splits outcome.splits)
  then show ?thesis
    by (auto simp: io_then_def io_bind_def split: prod.splits outcome.splits)
qed
section \<open>Witnesses\<close>

definition quiet :: "unit kernel" where
  "quiet c k = (ret_only 0, k)"

lemma quiet_silent: "silent quiet"
  by (simp add: silent_def quiet_def ret_only_def)

definition sample_header :: "byte list" where
  "sample_header = [69, 0, 0, 0, 0, 0, 0, 0, 1, 17, 0, 0, 1, 2, 3, 4, 5, 6, 7, 8]"

lemma sample_shape: "answer_shape sample_header (replicate 6 0) sample_header"
  by (simp add: answer_shape_def sample_header_def IPPROTO_UDP_def)

theorem packet_match_own_probe_witness:
  "packet_match (icmp_answer sample_header 11 0 (replicate 6 0) sample_header
      (filled zero_opacket 48 40000 33434 7 1) []) 56 40000 33434 7 = Inr (- 1, False) \<and>
   packet_match (icmp_answer sample_header 3 3 (replicate 6 0) sample_header
      (filled zero_opacket 48 40000 33434 7 1) []) 56 40000 33434 8 = Inr (0, False)"
  using packet_match_own_probe [OF sample_shape, of 56 11 0 zero_opacket 48 40000 33434 7 1 "[]" 7]
    packet_match_own_probe [OF sample_shape, of 56 3 3 zero_opacket 48 40000 33434 7 1 "[]" 8]
  by (simp add: sample_header_def icmp_consts)



theorem one_probe_stops_after_first_hop_witness:
  "fst (hops quiet 5 1 (Suc 29) hop_start ((tr_start ())\<lparr>t_nprobes := 1\<rparr>)) \<noteq> Ok ()"
proof -
  have "t_nprobes (snd (printf quiet ''%2d '' [AInt 1] ((tr_start ())\<lparr>t_nprobes := 1\<rparr>))) = 1"
    by (simp add: printf_def do_call_def io_bind_def sys_r_run)
  from one_probe_stops_after_first_hop [OF this, of 5 29 hop_start] show ?thesis by blast
qed

end
