(* ===== verification/Icmp.thy ===== *)
theory Icmp
  imports Net
begin

text \<open>
  my_icmp.c: building and reading ICMP echo packets, the raw socket, and the destination address.
  A packet is the byte block the code casts to \<open>struct icmp\<close>; a \<open>struct sockaddr_in\<close> is a block
  of 16 bytes (family at 0, address at 4). Pointers and \<open>long\<close>s have 8 bytes.

  The lemmas: the checksum loop is the sum of the 16-bit words and the checksum of a packet that
  carries its own checksum is 0; the layout \<open>icmp_pack\<close> leaves; the cases of \<open>icmp_unpack\<close>.
\<close>

section \<open>The code\<close>

record ping_packet_status =
  pk_flag :: int
  pk_seq :: int
  pk_begin_time :: timeval
  pk_end_time :: timeval

definition PACKET_SEND_MAX_NUM :: int where "PACKET_SEND_MAX_NUM = 64"

text \<open>The loop of \<open>check_sum\<close>: the sum, the position in the block and \<open>len\<close> when it stops.\<close>

function sum_loop :: "byte list \<Rightarrow> 32 word \<Rightarrow> int \<Rightarrow> int \<Rightarrow> (32 word \<times> int \<times> int) result" where
  "sum_loop buf s p len =
     (if len > 1 then rbind (le16 buf p) (\<lambda>v. sum_loop buf (s + word_of_int v) (p + 2) (len - 2))
      else Inr (s, p, len))"
  by pat_completeness auto
termination
  by (relation "measure (\<lambda>(buf, s, p, len). nat len)") auto

declare sum_loop.simps [simp del]

definition fold_sum :: "32 word \<Rightarrow> 16 word" where
  "fold_sum s =
     (let s = drop_bit 16 s + and s 0xFFFF;
          s = drop_bit 16 s + s
      in ucast (not s))"

definition check_sum :: "byte list \<Rightarrow> int \<Rightarrow> 16 word result" where
  "check_sum buf len =
     rbind (sum_loop buf 0 0 len) (\<lambda>(s, p, len).
     rbind (if len \<noteq> 0 then rbind (u8 buf p) (\<lambda>v. Inr (s + word_of_int v)) else Inr s) (\<lambda>s.
     Inr (fold_sum s)))"

text \<open>
  The length is the sum of the sizes of two pointers, which is 16. The result is the block and
  that length.
\<close>

definition icmp_pack :: "'k kernel \<Rightarrow> byte list \<Rightarrow> int \<Rightarrow> int \<Rightarrow> (('k, 'z) world_scheme, byte list \<times> int) io" where
  "icmp_pack K buf seq icmpid =
     io_bind (io_lift (wr 0 [word_of_int ICMP_ECHO] buf)) (\<lambda>buf.
     io_bind (io_lift (wr 1 [0] buf)) (\<lambda>buf.
     io_bind (io_lift (wr 2 [0, 0] buf)) (\<lambda>buf.
     io_bind (io_lift (wr 6 (bytes16 seq) buf)) (\<lambda>buf.
     io_bind (io_lift (wr 4 (bytes16 icmpid) buf)) (\<lambda>buf.
     io_bind (gettimeofday K) (\<lambda>tval.
     io_bind (io_lift (wr 8 (bytes32 (tv_sec tval) @ bytes32 (tv_sec tval div 2 ^ 32) @
                             bytes32 (tv_usec tval) @ bytes32 (tv_usec tval div 2 ^ 32)) buf)) (\<lambda>buf.
     io_bind (io_lift (check_sum buf (8 + 8))) (\<lambda>ck.
     io_bind (io_lift (wr 2 (bytes16 (uint ck)) buf)) (\<lambda>buf.
     io_return (buf, 8 + 8))))))))))"

definition time_offset :: "timeval \<Rightarrow> timeval \<Rightarrow> timeval" where
  "time_offset begin_t end_t =
     (let ans = \<lparr>tv_sec = tv_sec end_t - tv_sec begin_t,
                 tv_usec = tv_usec end_t - tv_usec begin_t\<rparr>
      in if tv_usec ans < 0 then ans\<lparr>tv_sec := tv_sec ans - 1 + 1000000\<rparr> else ans)"

text \<open>The status of the current packet is passed and returned.\<close>

definition icmp_unpack ::
  "'k kernel \<Rightarrow> byte list \<Rightarrow> int \<Rightarrow> int \<Rightarrow> ping_packet_status \<Rightarrow>
   (('k, 'z) world_scheme, int \<times> ping_packet_status) io" where
  "icmp_unpack K buf len icmpid current_packet =
     io_bind (io_lift (ip_hlen buf 0)) (\<lambda>iphdr_len.
     let len = len - iphdr_len in
     if len < 8 then
       io_then (eprintf K ''INvalid icmp packet.Its length is less than 8'' [])
         (io_return (- 1, current_packet))
     else
       io_bind (io_lift (u8 buf iphdr_len)) (\<lambda>icmp_type.
       io_bind (io_lift (le16 buf (iphdr_len + 4))) (\<lambda>icmp_id.
       io_bind (io_lift (le16 buf (iphdr_len + 6))) (\<lambda>icmp_seq.
       if icmp_type = ICMP_ECHOREPLY \<and> icmp_id = icmpid then
         if icmp_seq < 0 \<and> icmp_seq \<ge> PACKET_SEND_MAX_NUM then
           io_then (eprintf K ''icmp packet seq is out of range!'' [])
             (io_return (- 1, current_packet))
         else
           io_bind (gettimeofday K) (\<lambda>recv_time.
           let offset_time = time_offset (pk_begin_time current_packet) recv_time;
               rtt = tv_sec offset_time * 1000 + tv_usec offset_time sdiv 1000
           in
             io_bind (io_lift (u8 buf 8)) (\<lambda>ip_ttl.
             io_bind (io_lift (le32 buf 12)) (\<lambda>ip_src.
             io_then (printf K ''%d byte from %s: icmp_seq=%u ttl=%d rtt=%d ms''
                       [AInt len, AInt ip_src, AInt icmp_seq, AInt ip_ttl, AInt rtt])
               (io_return (0, current_packet\<lparr>pk_flag := 0\<rparr>)))))
       else
         io_then (eprintf K ''Invalid ICMP packet! Tts id is not matched!'' [])
           (io_return (- 1, current_packet))))))"

definition raw_sock :: "'k kernel \<Rightarrow> (('k, 'z) world_scheme, int) io" where
  "raw_sock K =
     io_bind (sys_r K ''getprotobyname'' [AStr ''icmp'']) (\<lambda>protocol.
     if r_ret protocol = 0 then io_then (printf K ''Fail to getprotocolbyname!'' []) (io_return (- 1))
     else
       io_bind (socket K AF_INET SOCK_RAW (int_at protocol 0)) (\<lambda>rawsock.
       if rawsock < 0 then io_then (printf K ''Fail to create socket!'' []) (io_return (- 1))
       else io_return rawsock))"

text \<open>
  The address is returned as \<open>unsigned int\<close>: the failure value -1 becomes the largest one. The
  second result is the destination block, which \<open>bzero\<close> clears first.
\<close>

definition set_dest :: "'k kernel \<Rightarrow> string \<Rightarrow> (('k, 'z) world_scheme, int \<times> byte list) io" where
  "set_dest K ipaddr =
     (let dest = overwrite 0 (bytes16 AF_INET) (replicate 16 0) in
      io_bind (sys K ''inet_addr'' [AStr ipaddr]) (\<lambda>inaddr.
      if u32 inaddr = INADDR_NONE then
        io_bind (sys_r K ''gethostbyname'' [AStr ipaddr]) (\<lambda>host.
        if r_ret host = 0 then
          io_then (printf K ''Fail to gethostbyname!'' []) (io_return (u32 (- 1), dest))
        else
          io_bind (io_lift (wr 4 (r_bytes host) dest)) (\<lambda>dest.
          io_bind (io_lift (le32 dest 4)) (\<lambda>inaddr. io_return (inaddr, dest))))
      else
        io_bind (io_lift (wr 4 (bytes32 inaddr) dest)) (\<lambda>dest.
        io_bind (io_lift (le32 dest 4)) (\<lambda>inaddr. io_return (inaddr, dest)))))"

section \<open>The checksum\<close>

text \<open>The sum of the little-endian 16-bit words, an odd last byte counting as a low byte.\<close>

fun words_sum :: "byte list \<Rightarrow> nat" where
  "words_sum [] = 0"
| "words_sum [b] = unat b"
| "words_sum (a # b # bs) = unat a + 256 * unat b + words_sum bs"

text \<open>Its ones-complement sum: the remainder modulo 65535 with 65535 in the place of 0.\<close>

definition fold16 :: "nat \<Rightarrow> nat" where
  "fold16 s = (let t = s div 65536 + s mod 65536 in (t div 65536 + t) mod 65536)"

lemma fold16_le: "fold16 s < 65536"
  by (simp add: fold16_def Let_def)

lemma fold16_mod:
  assumes "s < 2 ^ 32"
  shows "fold16 s mod 65535 = s mod 65535 \<and> (fold16 s = 0 \<longleftrightarrow> s = 0)"
proof -
  define a b where "a = s div 65536" and "b = s mod 65536"
  have s: "s = 65535 * a + (a + b)" unfolding a_def b_def by simp
  have ab: "a < 65536" "b < 65536" using assms by (auto simp: a_def b_def less_mult_imp_div_less)
  have t: "s mod 65535 = (a + b) mod 65535" unfolding s by (rule mod_mult_self4)
  show ?thesis
  proof (cases "a + b < 65536")
    case True
    then have "fold16 s = a + b" by (simp add: fold16_def Let_def a_def b_def)
    with t s show ?thesis by simp
  next
    case False
    with ab have d: "(a + b) div 65536 = 1" by simp
    with False ab have "fold16 s = a + b + 1 - 65536"
      unfolding fold16_def Let_def a_def [symmetric] b_def [symmetric]
      by (simp add: mod_if)
    moreover have "(a + b + 1 - 65536 + 65535) mod 65535 = (a + b + 1 - 65536) mod 65535" by simp
    moreover have "a + b + 1 - 65536 + 65535 = a + b" using False by simp
    moreover have "s \<noteq> 0" using False s by auto
    ultimately show ?thesis using t False by simp
  qed
qed

lemma uint_ucast_not:
  fixes x :: "32 word"
  shows "uint (ucast (not x) :: 16 word) = 65535 - uint x mod 65536"
proof -
  have "uint (not x) = (- uint x - 1) mod 4294967296"
    unfolding unsigned_not_eq by (simp add: not_int_def take_bit_eq_mod)
  then have "uint (ucast (not x) :: 16 word) = (- uint x - 1) mod 65536"
    unfolding unsigned_ucast_eq by (simp add: take_bit_eq_mod mod_mod_cancel)
  also have "- uint x - 1 = (65535 - uint x mod 65536) + 65536 * (- (uint x div 65536) - 1)"
  proof -
    have "u = q * 65536 + r \<Longrightarrow> - u - 1 = (65535 - r) + 65536 * (- q - 1)" for u q r :: int by simp
    then show ?thesis using div_mult_mod_eq [of "uint x" 65536] by metis
  qed
  also have "\<dots> mod 65536 = 65535 - uint x mod 65536"
    using pos_mod_bound [of 65536 "uint x"] pos_mod_sign [of 65536 "uint x"]
    by (subst mod_mult_self2) (auto intro!: mod_pos_pos_trivial)
  finally show ?thesis .
qed

lemma unat_fold_sum:
  fixes s :: "32 word"
  shows "unat (fold_sum s) = 65535 - fold16 (unat s)"
proof -
  define t where "t = drop_bit 16 s + and s 0xFFFF"
  have sp: "unat s < 2 ^ 32" using unsigned_less [of s] by simp
  have m: "and s 0xFFFF = take_bit 16 s" by (simp add: take_bit_eq_mask mask_eq_exp_minus_1)
  have dm: "unat (drop_bit 16 s) = unat s div 65536" "unat (take_bit 16 s) = unat s mod 65536"
    unfolding unsigned_drop_bit_eq unsigned_take_bit_eq
    using sp by (simp_all add: drop_bit_eq_div take_bit_eq_mod)
  have b: "unat s div 65536 < 65536" using sp by (simp add: less_mult_imp_div_less)
  then have t: "unat t = unat s div 65536 + unat s mod 65536"
    using m dm mod_less_divisor [of 65536 "unat s"] by (simp add: t_def unat_word_ariths(1))
  have tp: "unat t < 2 ^ 32" using unsigned_less [of t] by simp
  have "unat (drop_bit 16 t) = unat t div 65536"
    unfolding unsigned_drop_bit_eq using tp by (simp add: drop_bit_eq_div take_bit_eq_mod)
  then have u: "unat (drop_bit 16 t + t) = unat t div 65536 + unat t"
  proof -
    let ?t = "unat s div 65536 + unat s mod 65536"
    have "?t div 65536 + ?t < 4294967296"
      using b mod_less_divisor [of 65536 "unat s"] div_le_dividend [of ?t 65536] by linarith
    with t \<open>unat (drop_bit 16 t) = _\<close> show ?thesis by (simp add: unat_word_ariths(1))
  qed
  have "int (unat (fold_sum s)) = 65535 - int (unat (drop_bit 16 t + t) mod 65536)"
    using uint_ucast_not [of "drop_bit 16 t + t"]
    by (simp add: fold_sum_def Let_def t_def [symmetric] zmod_int)
  moreover have "unat (drop_bit 16 t + t) mod 65536 = fold16 (unat s)"
    unfolding u t fold16_def Let_def ..
  ultimately show ?thesis using fold16_le [of "unat s"] by linarith
qed
lemma le16_ok:
  "0 \<le> i \<Longrightarrow> nat i + 1 < length buf \<Longrightarrow>
   le16 buf i = Inr (uint (buf ! nat i) + 256 * uint (buf ! Suc (nat i)))"
  by (simp add: le16_def u8_ok nat_add_distrib)

lemma sum_loop_ok:
  assumes "0 \<le> p" "0 \<le> len" "nat p + nat len \<le> length buf"
  shows "rbind (sum_loop buf s p len) (\<lambda>(s, p, len).
      if len \<noteq> 0 then rbind (u8 buf p) (\<lambda>v. Inr (s + word_of_int v)) else Inr s) =
    Inr (s + of_nat (words_sum (slice (nat p) (nat len) buf)))"
  using assms
proof (induction "nat len" arbitrary: s p len rule: less_induct)
  case less
  consider "len = 0" | "len = 1" | "len > 1" using less.prems by linarith
  then show ?case
  proof cases
    case 1
    then show ?thesis by (subst sum_loop.simps) (simp add: slice_def)
  next
    case 2
    with less.prems show ?thesis
      by (subst sum_loop.simps) (simp add: slice_def u8_ok take_Suc hd_drop_conv_nth)
  next
    case 3
    let ?a = "buf ! nat p" and ?b = "buf ! Suc (nat p)"
    have n: "nat len = Suc (Suc (nat (len - 2)))" "nat (p + 2) = Suc (Suc (nat p))"
      using 3 less.prems(1) by auto
    have sl: "slice (nat p) (nat len) buf = ?a # ?b # slice (nat (p + 2)) (nat (len - 2)) buf"
    proof -
      have "drop (nat p) buf = ?a # ?b # drop (Suc (Suc (nat p))) buf"
        using less.prems 3 Cons_nth_drop_Suc [of "nat p" buf] Cons_nth_drop_Suc [of "Suc (nat p)" buf] by simp
      then show ?thesis unfolding n slice_def by simp
    qed
    have v: "le16 buf p = Inr (uint ?a + 256 * uint ?b)" using less.prems 3 by (intro le16_ok) auto
    have w: "word_of_int (uint ?a + 256 * uint ?b) = (of_nat (unat ?a + 256 * unat ?b) :: 32 word)"
    proof -
      have "uint ?a + 256 * uint ?b = int (unat ?a + 256 * unat ?b)" by simp
      then show ?thesis by (simp only: of_int_of_nat_eq)
    qed
    have "rbind (sum_loop buf (s + word_of_int (uint ?a + 256 * uint ?b)) (p + 2) (len - 2)) (\<lambda>(s, p, len).
        if len \<noteq> 0 then rbind (u8 buf p) (\<lambda>v. Inr (s + word_of_int v)) else Inr s) =
      Inr (s + word_of_int (uint ?a + 256 * uint ?b) +
        of_nat (words_sum (slice (nat (p + 2)) (nat (len - 2)) buf)))"
      using less.prems 3 by (intro less.hyps) auto
    with 3 v sl w show ?thesis by (subst sum_loop.simps) (simp add: add.assoc)
  qed
qed

lemma words_sum_bound: "words_sum bs \<le> 65535 * length bs"
proof (induction bs rule: words_sum.induct)
  case (2 b)
  then show ?case using unsigned_less [of b, where ?'a = nat] by simp
next
  case (3 a b bs)
  then show ?case using unsigned_less [of a, where ?'a = nat] unsigned_less [of b, where ?'a = nat] by simp
qed simp

lemma check_sum_ok:
  assumes "0 \<le> len" "nat len \<le> length buf" "len \<le> 65536"
  shows "\<exists>ck. check_sum buf len = Inr ck \<and> unat ck = 65535 - fold16 (words_sum (take (nat len) buf))"
proof -
  let ?n = "words_sum (take (nat len) buf)"
  have "?n \<le> 65535 * length (take (nat len) buf)" by (rule words_sum_bound)
  also have "\<dots> \<le> 65535 * 65536" using assms by simp
  finally have n: "?n < 2 ^ 32" by simp
  have "check_sum buf len = rbind (rbind (sum_loop buf 0 0 len) (\<lambda>(s, p, len).
      if len \<noteq> 0 then rbind (u8 buf p) (\<lambda>v. Inr (s + word_of_int v)) else Inr s)) (\<lambda>s. Inr (fold_sum s))"
    by (auto simp: check_sum_def rbind_def split: sum.splits)
  also have "\<dots> = Inr (fold_sum (of_nat ?n))"
    using sum_loop_ok [of 0 len buf 0] assms by (simp add: slice_def)
  finally show ?thesis using n by (simp add: unat_fold_sum unat_of_nat)
qed
lemma fold16_complement:
  assumes "s + 65535 < 2 ^ 32"
  shows "fold16 (s + (65535 - fold16 s)) = 65535"
proof -
  let ?t = "s + (65535 - fold16 s)"
  have le: "fold16 s \<le> 65535" using fold16_le [of s] by simp
  have "?t < 2 ^ 32" using assms by linarith
  from fold16_mod [OF this] have t: "fold16 ?t mod 65535 = ?t mod 65535" "fold16 ?t = 0 \<longleftrightarrow> ?t = 0" by auto
  have f: "fold16 s mod 65535 = s mod 65535" "fold16 s = 0 \<longleftrightarrow> s = 0" using fold16_mod [of s] assms by auto
  have "(?t + fold16 s) mod 65535 = s mod 65535" using le by simp
  then have "(?t + s) mod 65535 = (0 + s) mod 65535" using f(1) by (metis add_0 mod_add_right_eq)
  then have "65535 dvd (?t + s) - (0 + s)" by (intro iffD1 [OF mod_eq_dvd_iff_nat]) auto
  then have "?t mod 65535 = 0" by simp
  moreover have "?t \<noteq> 0" using f(2) le by (cases "s = 0") auto
  ultimately have "fold16 ?t mod 65535 = 0" "fold16 ?t \<noteq> 0" "fold16 ?t < 65536"
    using t fold16_le by auto
  then have "65535 dvd fold16 ?t" "0 < fold16 ?t" "fold16 ?t < 65536" by auto
  then obtain k where "fold16 ?t = 65535 * k" by blast
  with \<open>0 < fold16 ?t\<close> \<open>fold16 ?t < 65536\<close> have "k = 1" by (cases "k = 0") auto
  with \<open>fold16 ?t = 65535 * k\<close> show ?thesis by simp
qed

lemma unat_byte_of_int: "unat (word_of_int (int n) :: byte) = n mod 256"
  by (simp add: unat_of_nat)

text \<open>
  Claim C33. A packet of at most 65536 bytes whose checksum field is zero, with the value of
  \<open>check_sum\<close> then stored in that field, checks: \<open>check_sum\<close> of it is 0.
\<close>

theorem checksum_verifies:
  assumes "4 \<le> len" and "len \<le> 65536" and "nat len \<le> length buf" and "buf ! 2 = 0" and "buf ! 3 = 0"
  shows "\<exists>ck. check_sum buf len = Inr ck \<and>
    check_sum (overwrite 2 (bytes16 (uint ck)) buf) len = Inr 0"
proof -
  have "4 \<le> length buf" using assms by linarith
  then obtain a b c d rest where "buf = a # b # c # d # rest"
    by (auto simp: numeral_eq_Suc Suc_le_length_iff)
  with assms(4,5) have buf: "buf = a # b # 0 # 0 # rest" by (simp add: numeral_eq_Suc)
  define m where "m = nat len - 4"
  have m: "nat len = Suc (Suc (Suc (Suc m)))" using assms(1) unfolding m_def by linarith
  let ?r = "words_sum (take m rest)"
  let ?s = "unat a + 256 * unat b + ?r"
  obtain ck where ck: "check_sum buf len = Inr ck" "unat ck = 65535 - fold16 ?s"
    using check_sum_ok [of len buf] assms by (auto simp: buf m)
  let ?buf = "overwrite 2 (bytes16 (uint ck)) buf"
  have v: "?buf = a # b # word_of_int (uint ck) # word_of_int (uint ck div 256) # rest"
    by (simp add: buf overwrite_def bytes16_def)
  have n: "uint ck = int (unat ck)" "uint ck div 256 = int (unat ck div 256)" by (simp_all add: zdiv_int)
  have "unat ck div 256 < 256" using ck(2) by (simp add: less_mult_imp_div_less)
  then have "unat (word_of_int (uint ck div 256) :: byte) = unat ck div 256"
    unfolding n(2) unat_byte_of_int by simp
  moreover have "unat (word_of_int (uint ck) :: byte) = unat ck mod 256"
    unfolding n(1) unat_byte_of_int by simp
  ultimately have "words_sum (take (nat len) ?buf) = ?s + unat ck"
    by (simp add: v m)
  moreover have "fold16 (?s + unat ck) = 65535"
    unfolding ck(2)
  proof (rule fold16_complement)
    have "?s \<le> 65535 * length (take (nat len) buf)"
      using words_sum_bound [of "take (nat len) buf"] by (simp add: buf m)
    also have "\<dots> \<le> 65535 * 65536" using assms by simp
    finally show "?s + 65535 < 2 ^ 32" by simp
  qed
  moreover have "length ?buf = length buf" unfolding v by (simp add: buf)
  then obtain ck' where "check_sum ?buf len = Inr ck'"
    "unat ck' = 65535 - fold16 (words_sum (take (nat len) ?buf))"
    using check_sum_ok [of len ?buf] assms(1-3) by auto
  ultimately have "check_sum ?buf len = Inr 0" by (simp add: unat_eq_zero)
  with ck(1) show ?thesis by blast
qed
section \<open>Packing and unpacking\<close>

lemma uint_word_of_int_byte: "uint (word_of_int v :: byte) = v mod 256"
  by (simp add: uint_word_of_int)

lemma bytes16_value: "uint (word_of_int v :: byte) + 256 * uint (word_of_int (v div 256) :: byte) = u16 v"
proof -
  have "v mod (256 * 256) = 256 * (v div 256 mod 256) + v mod 256" by (rule zmod_zmult2_eq) simp
  then show ?thesis by (simp add: u16_def uint_word_of_int_byte)
qed

lemma length_bytes16 [simp]: "length (bytes16 v) = 2"
  by (simp add: bytes16_def)

lemma length_bytes32 [simp]: "length (bytes32 v) = 4"
  by (simp add: bytes32_def)

lemma io_bind_lift_Inr [simp]: "io_bind (io_lift (Inr a)) f = f a"
  by (simp add: io_lift_def)

lemma gettimeofday_run:
  "\<exists>t k e n. gettimeofday K w =
     (Ok t, w\<lparr>w_kern := k, w_errno := e, w_trace := w_trace w @ [((''gettimeofday'', []), n)]\<rparr>)"
  by (auto simp: gettimeofday_def io_bind_def sys_r_run)

lemma icmp_pack_ok:
  assumes "24 \<le> length buf"
  shows "\<exists>buf' k e n. icmp_pack K buf seq icmpid w =
      (Ok (buf', 16), w\<lparr>w_kern := k, w_errno := e, w_trace := w_trace w @ [((''gettimeofday'', []), n)]\<rparr>) \<and>
    length buf' = length buf \<and> drop 24 buf' = drop 24 buf \<and>
    check_sum buf' 16 = Inr 0 \<and> u8 buf' 0 = Inr ICMP_ECHO \<and> u8 buf' 1 = Inr 0 \<and>
    le16 buf' 4 = Inr (u16 icmpid) \<and> le16 buf' 6 = Inr (u16 seq)"
proof -
  obtain t k e n where t: "gettimeofday K w =
      (Ok t, w\<lparr>w_kern := k, w_errno := e, w_trace := w_trace w @ [((''gettimeofday'', []), n)]\<rparr>)"
    (is "_ = (_, ?w)") using gettimeofday_run [of K w] by blast
  define T where "T = bytes32 (tv_sec t) @ bytes32 (tv_sec t div 4294967296) @
    bytes32 (tv_usec t) @ bytes32 (tv_usec t div 4294967296)"
  have lT: "length T = 16" by (simp add: T_def)
  define b where "b = [word_of_int ICMP_ECHO, 0, 0, 0] @ bytes16 icmpid @ bytes16 seq @ T @ drop 24 buf"
  have lb: "length b = length buf" using assms by (simp add: b_def lT bytes16_def)
  have bz: "b ! 2 = 0" "b ! 3 = 0" by (simp_all add: b_def)
  obtain ck where ck: "check_sum b 16 = Inr ck" "check_sum (overwrite 2 (bytes16 (uint ck)) b) 16 = Inr 0"
    using checksum_verifies [of 16 b] bz lb assms by auto
  let ?b = "overwrite 2 (bytes16 (uint ck)) b"
  have b': "?b = [word_of_int ICMP_ECHO, 0, word_of_int (uint ck), word_of_int (uint ck div 256)] @
      bytes16 icmpid @ bytes16 seq @ T @ drop 24 buf"
    by (simp add: b_def overwrite_def bytes16_def numeral_eq_Suc)
  have steps: "overwrite 8 T (overwrite 4 (bytes16 icmpid) (overwrite 6 (bytes16 seq)
      (overwrite 2 [0, 0] (overwrite 1 [0] (overwrite 0 [word_of_int ICMP_ECHO] buf))))) = b"
  proof -
    have "8 \<le> length buf" using assms by simp
    then obtain b0 b1 b2 b3 b4 b5 b6 b7 rest where "buf = b0 # b1 # b2 # b3 # b4 # b5 # b6 # b7 # rest"
      by (auto simp: numeral_eq_Suc Suc_le_length_iff)
    then show ?thesis by (simp add: overwrite_def b_def bytes16_def lT)
  qed
  have "icmp_pack K buf seq icmpid w = (Ok (?b, 16), ?w)"
    using assms steps ck(1) lb
    by (simp add: icmp_pack_def wr_def io_bind_Ok [where m = "gettimeofday K" and w = w, OF t]
        T_def [symmetric])
  moreover have "u8 ?b 0 = Inr ICMP_ECHO" "u8 ?b 1 = Inr 0"
    by (simp_all add: b' u8_ok icmp_consts)
  moreover have "le16 ?b 4 = Inr (u16 icmpid)" "le16 ?b 6 = Inr (u16 seq)"
    using bytes16_value [of icmpid] bytes16_value [of seq]
    unfolding b' by (simp_all add: le16_ok bytes16_def)
  moreover have "length ?b = length buf" "drop 24 ?b = drop 24 buf"
    using assms unfolding b' by (simp_all add: bytes16_def lT)
  ultimately show ?thesis using ck(2) by blast
qed

text \<open>
  Claim C10. Whatever the clock says, \<open>icmp_pack\<close> on a buffer of at least 24 bytes leaves an echo
  request with the given sequence number and identifier (as 16 bits in machine order) whose 16
  bytes check, makes no other call than reading the clock, and returns the length 16.
\<close>

theorem icmp_pack_valid:
  assumes "24 \<le> length buf"
  shows "\<exists>buf' w'. icmp_pack K buf seq icmpid w = (Ok (buf', 16), w') \<and>
    length buf' = length buf \<and> drop 24 buf' = drop 24 buf \<and>
    check_sum buf' 16 = Inr 0 \<and> u8 buf' 0 = Inr ICMP_ECHO \<and> u8 buf' 1 = Inr 0 \<and>
    le16 buf' 4 = Inr (u16 icmpid) \<and> le16 buf' 6 = Inr (u16 seq) \<and>
    map fst (w_trace w') = map fst (w_trace w) @ [(''gettimeofday'', [])]"
  using icmp_pack_ok [OF assms, of K seq icmpid w] by auto

definition usecs :: "timeval \<Rightarrow> int" where
  "usecs t = 1000000 * tv_sec t + tv_usec t"

text \<open>
  \<open>time_offset\<close> of two times whose microseconds need no borrow is their difference; with
  a borrow the result is 999999 seconds too large, because the borrowed 1000000 is added to the
  seconds.
\<close>

theorem time_offset_borrow:
  "usecs (time_offset t1 t2) =
     (if tv_usec t1 \<le> tv_usec t2 then usecs t2 - usecs t1
      else usecs t2 - usecs t1 + 1000000 * 999999)"
  by (simp add: usecs_def time_offset_def Let_def)

section \<open>Witnesses\<close>

theorem checksum_verifies_witness:
  "\<exists>ck. check_sum [8, 0, 0, 0, 1, 2, 3, 4] 8 = Inr ck \<and>
    check_sum (overwrite 2 (bytes16 (uint ck)) [8, 0, 0, 0, 1, 2, 3, 4]) 8 = Inr 0"
  by (rule checksum_verifies) auto

theorem icmp_pack_valid_witness:
  "\<exists>buf' w'. icmp_pack scripted (replicate 128 0) 7 4660 (start []) = (Ok (buf', 16), w') \<and>
    check_sum buf' 16 = Inr 0 \<and> le16 buf' 6 = Inr 7"
  using icmp_pack_valid [of "replicate 128 0" scripted 7 4660 "start []"] by (auto simp: u16_def)

end
