(* ===== verification/TracerouteAux.thy ===== *)
theory TracerouteAux
  imports Icmp
begin

text \<open>
  Two routines of traceroute_std.c that its programs do not call: \<open>in_cksum\<close>, which is compiled out,
  and \<open>tvsub\<close>. The sum of \<open>in_cksum\<close> is an \<open>int\<close>, whose overflow is a fault.

  The properties: \<open>in_cksum\<close> is the \<open>check_sum\<close> of my_icmp.c on everything an IP packet can hold;
  \<open>tvsub\<close> is the exact difference, with proper microseconds.
\<close>

section \<open>The code\<close>

definition add_int :: "int \<Rightarrow> int \<Rightarrow> int result" where
  "add_int a b = cint (a + b)"

function cksum_loop :: "byte list \<Rightarrow> int \<Rightarrow> int \<Rightarrow> int \<Rightarrow> (int \<times> int \<times> int) result" where
  "cksum_loop buf s w nleft =
     (if nleft > 1 then
        rbind (le16 buf w) (\<lambda>v. rbind (add_int s v) (\<lambda>s. cksum_loop buf s (w + 2) (nleft - 2)))
      else Inr (s, w, nleft))"
  by pat_completeness auto
termination
  by (relation "measure (\<lambda>(buf, s, w, nleft). nat nleft)") auto

declare cksum_loop.simps [simp del]

definition in_cksum :: "byte list \<Rightarrow> int \<Rightarrow> 16 word result" where
  "in_cksum addr len =
     rbind (cksum_loop addr 0 0 len) (\<lambda>(s, w, nleft).
     rbind (if nleft = 1 then rbind (u8 addr w) (\<lambda>v. add_int s v) else Inr s) (\<lambda>s.
     rbind (add_int (drop_bit 16 s) (and s 0xFFFF)) (\<lambda>s.
     rbind (add_int s (drop_bit 16 s)) (\<lambda>s.
     Inr (word_of_int (not s))))))"

definition tvsub :: "timeval \<Rightarrow> timeval \<Rightarrow> timeval" where
  "tvsub out inp =
     (let u = tv_usec out - tv_usec inp;
          (s, u) = (if u < 0 then (tv_sec out - 1, u + 1000000) else (tv_sec out, u))
      in \<lparr>tv_sec = s - tv_sec inp, tv_usec = u\<rparr>)"

section \<open>The sum\<close>

lemma add_int_ok: "0 \<le> a \<Longrightarrow> 0 \<le> b \<Longrightarrow> a + b < 2 ^ 31 \<Longrightarrow> add_int a b = Inr (a + b)"
  by (simp add: add_int_def cint_def in_int_def INT_MIN_def INT_MAX_def)

lemma words_sum_half: "words_sum bs \<le> 65535 * ((length bs + 1) div 2)"
proof (induction bs rule: words_sum.induct)
  case (2 b)
  then show ?case using unsigned_less [of b, where ?'a = nat] by simp
next
  case (3 a b bs)
  then show ?case using unsigned_less [of a, where ?'a = nat] unsigned_less [of b, where ?'a = nat] by simp
qed simp

lemma cksum_loop_ok:
  assumes "0 \<le> p" "0 \<le> len" "nat p + nat len \<le> length buf" "0 \<le> s"
    "s + int (words_sum (slice (nat p) (nat len) buf)) < 2 ^ 31"
  shows "rbind (cksum_loop buf s p len) (\<lambda>(s, w, nleft).
      if nleft = 1 then rbind (u8 buf w) (\<lambda>v. add_int s v) else Inr s) =
    Inr (s + int (words_sum (slice (nat p) (nat len) buf)))"
  using assms
proof (induction "nat len" arbitrary: s p len rule: less_induct)
  case less
  consider "len = 0" | "len = 1" | "len > 1" using less.prems by linarith
  then show ?case
  proof cases
    case 1
    then show ?thesis by (subst cksum_loop.simps) (simp add: slice_def)
  next
    case 2
    with less.prems show ?thesis
      by (subst cksum_loop.simps) (simp add: slice_def u8_ok take_Suc hd_drop_conv_nth add_int_ok)
  next
    case 3
    let ?a = "buf ! nat p" and ?b = "buf ! Suc (nat p)"
    have n: "nat len = Suc (Suc (nat (len - 2)))" "nat (p + 2) = Suc (Suc (nat p))"
      using 3 less.prems(1) by auto
    have sl: "slice (nat p) (nat len) buf = ?a # ?b # slice (nat (p + 2)) (nat (len - 2)) buf"
    proof -
      have "drop (nat p) buf = ?a # ?b # drop (Suc (Suc (nat p))) buf"
        using less.prems 3 Cons_nth_drop_Suc [of "nat p" buf] Cons_nth_drop_Suc [of "Suc (nat p)" buf] by simp
      then show ?thesis unfolding n slice_def by simp
    qed
    have v: "le16 buf p = Inr (uint ?a + 256 * uint ?b)" using less.prems 3 by (intro le16_ok) auto
    have sum: "int (words_sum (slice (nat p) (nat len) buf)) =
        uint ?a + 256 * uint ?b + int (words_sum (slice (nat (p + 2)) (nat (len - 2)) buf))"
      unfolding sl by simp
    have inside: "nat (p + 2) + nat (len - 2) \<le> length buf" using n less.prems(3) by linarith
    have pos: "0 \<le> uint ?a + 256 * uint ?b" by simp
    have add: "add_int s (uint ?a + 256 * uint ?b) = Inr (s + (uint ?a + 256 * uint ?b))"
      using less.prems(4,5) pos unfolding sum by (intro add_int_ok) auto
    have "rbind (cksum_loop buf (s + (uint ?a + 256 * uint ?b)) (p + 2) (len - 2)) (\<lambda>(s, w, nleft).
        if nleft = 1 then rbind (u8 buf w) (\<lambda>v. add_int s v) else Inr s) =
      Inr (s + (uint ?a + 256 * uint ?b) + int (words_sum (slice (nat (p + 2)) (nat (len - 2)) buf)))"
      using less.prems 3 pos sum inside by (intro less.hyps) auto
    with 3 v add sum show ?thesis by (subst cksum_loop.simps) simp
  qed
qed

lemma word_not_int: "uint (word_of_int (not n) :: 16 word) = 65535 - n mod 65536"
proof -
  have "uint (word_of_int (not n) :: 16 word) = (- n - 1) mod 65536"
    unfolding uint_word_of_int not_int_def by simp
  also have "- n - 1 = (65535 - n mod 65536) + 65536 * (- (n div 65536) - 1)"
  proof -
    have "u = q * 65536 + r \<Longrightarrow> - u - 1 = (65535 - r) + 65536 * (- q - 1)" for u q r :: int by simp
    then show ?thesis using div_mult_mod_eq [of n 65536] by metis
  qed
  also have "\<dots> mod 65536 = 65535 - n mod 65536"
    using pos_mod_bound [of 65536 n] pos_mod_sign [of 65536 n]
    by (subst mod_mult_self2) (auto intro!: mod_pos_pos_trivial)
  finally show ?thesis .
qed

text \<open>The two carries.\<close>

lemma carry_fold:
  fixes n :: int
  assumes "0 \<le> n" "n < 2 ^ 31" "t = n div 65536 + n mod 65536"
  shows "rbind (add_int (drop_bit 16 n) (and n 0xFFFF)) (\<lambda>s. rbind (add_int s (drop_bit 16 s)) (\<lambda>s.
     Inr (word_of_int (not s)))) = Inr (word_of_int (not (t + t div 65536)) :: 16 word)"
proof -
  have m: "and n 0xFFFF = n mod 65536"
  proof -
    have "and n 0xFFFF = take_bit 16 n" by (simp add: take_bit_eq_mask mask_eq_exp_minus_1)
    then show ?thesis by (simp add: take_bit_eq_mod)
  qed
  have d: "drop_bit 16 k = k div 65536" for k :: int by (simp add: drop_bit_eq_div)
  have hi: "0 \<le> n div 65536" "n div 65536 < 32768" using assms(1,2) by auto
  have lo: "0 \<le> n mod 65536" "n mod 65536 < 65536" by auto
  have t: "0 \<le> t" "t < 98304" using hi lo assms(3) by linarith+
  have q: "0 \<le> t div 65536" "t div 65536 < 2" using t by auto
  have "add_int (n div 65536) (n mod 65536) = Inr t"
    using add_int_ok [OF hi(1) lo(1)] hi lo assms(3) by simp
  moreover have "add_int t (t div 65536) = Inr (t + t div 65536)"
    using t q by (intro add_int_ok) simp_all
  ultimately show ?thesis by (simp only: m d rbind_def sum.case)
qed

lemma in_cksum_ok:
  assumes "0 \<le> len" "nat len \<le> length buf" "len \<le> 65536"
  shows "\<exists>ck. in_cksum buf len = Inr ck \<and> unat ck = 65535 - fold16 (words_sum (take (nat len) buf))"
proof -
  define n where "n = words_sum (take (nat len) buf)"
  define t where "t = int n div 65536 + int n mod 65536"
  have half: "(length (take (nat len) buf) + 1) div 2 \<le> 32768" using assms by auto
  have "n \<le> 65535 * ((length (take (nat len) buf) + 1) div 2)" unfolding n_def by (rule words_sum_half)
  also have "\<dots> \<le> 65535 * 32768" using half by (rule mult_le_mono2)
  finally have n: "int n < 2 ^ 31" by simp
  have loop: "rbind (cksum_loop buf 0 0 len) (\<lambda>(s, w, nleft).
      if nleft = 1 then rbind (u8 buf w) (\<lambda>v. add_int s v) else Inr s) = Inr (int n)"
    using cksum_loop_ok [of 0 len buf 0] assms n by (simp add: slice_def n_def)
  have "in_cksum buf len = rbind (rbind (cksum_loop buf 0 0 len) (\<lambda>(s, w, nleft).
      if nleft = 1 then rbind (u8 buf w) (\<lambda>v. add_int s v) else Inr s)) (\<lambda>s.
     rbind (add_int (drop_bit 16 s) (and s 0xFFFF)) (\<lambda>s.
     rbind (add_int s (drop_bit 16 s)) (\<lambda>s. Inr (word_of_int (not s)))))"
    by (auto simp: in_cksum_def rbind_def split: sum.splits)
  also have "\<dots> = Inr (word_of_int (not (t + t div 65536)))"
    unfolding loop using carry_fold [OF _ n t_def] by (simp only: rbind_def sum.case of_nat_0_le_iff)
  finally have r: "in_cksum buf len = Inr (word_of_int (not (t + t div 65536)))" .
  have "int (fold16 n) = (t + t div 65536) mod 65536"
    unfolding fold16_def Let_def t_def by (simp add: zmod_int zdiv_int add.commute)
  then have "int (unat (word_of_int (not (t + t div 65536)) :: 16 word)) = 65535 - int (fold16 n)"
    using word_not_int [of "t + t div 65536"] by simp
  with fold16_le [of n] have "unat (word_of_int (not (t + t div 65536)) :: 16 word) = 65535 - fold16 n" by linarith
  with r show ?thesis unfolding n_def by blast
qed

text \<open>
  Claim C34. For every buffer and every length up to 65536, the length of the largest IP packet and one
  more, the checksum of traceroute_std.c, which sums in an \<open>int\<close>, overflows nothing and is the checksum
  of my_icmp.c, which sums in an \<open>unsigned int\<close>.
\<close>

theorem in_cksum_is_check_sum:
  assumes "0 \<le> len" "nat len \<le> length buf" "len \<le> 65536"
  shows "in_cksum buf len = check_sum buf len \<and> in_cksum buf len \<noteq> Inl IntOverflow"
proof -
  obtain a b where "in_cksum buf len = Inr a" "check_sum buf len = Inr b" "unat a = unat b"
    using in_cksum_ok [OF assms] check_sum_ok [OF assms] by auto
  then show ?thesis by (simp add: unsigned_word_eqI)
qed

lemma in_cksum_is_check_sum_witness: "in_cksum [8, 0, 0, 0, 1, 2, 255] 7 = check_sum [8, 0, 0, 0, 1, 2, 255] 7"
  using in_cksum_is_check_sum [of 7 "[8, 0, 0, 0, 1, 2, 255]"] by simp

text \<open>\<open>tvsub\<close> keeps the microseconds proper; \<open>time_offset\<close> of my_icmp.c does not.\<close>

definition usecs :: "timeval \<Rightarrow> int" where
  "usecs t = tv_sec t * 1000000 + tv_usec t"

lemma tvsub_exact:
  assumes "0 \<le> tv_usec out" "tv_usec out < 1000000" "0 \<le> tv_usec inp" "tv_usec inp < 1000000"
  shows "usecs (tvsub out inp) = usecs out - usecs inp \<and> 0 \<le> tv_usec (tvsub out inp) \<and>
    tv_usec (tvsub out inp) < 1000000"
  using assms by (auto simp: tvsub_def Let_def usecs_def algebra_simps)

end
