(* ===== verification/Ping.thy ===== *)
theory Ping
  imports Icmp
begin

text \<open>
  ping.c: two threads, one that sends echo requests and one that receives the replies, over
  shared global variables, and the handler of SIGINT. \<open>send_turn\<close> and \<open>recv_turn\<close> are the bodies
  of the threads' loops; the step relation \<open>ping_step\<close> interleaves whole turns of the threads with
  the signal, in any order. \<open>ping_set_up\<close> and \<open>ping_finish\<close> are the parts of \<open>main\<close> before the
  threads start and after they have been joined.

  The lemmas: in every reachable state the counters stay within the packet table and a thread
  that may take a turn takes it without leaving the table or its buffers; the statistics divide
  by the number of packets sent.
\<close>

section \<open>State\<close>

record 'k ping = "'k world" +
  ping_packet :: "ping_packet_status list"
  alive :: int
  rawsock :: int
  send_count :: int
  recv_count :: int
  pid :: int
  dest :: "byte list"
  start_time :: timeval
  end_time :: timeval
  time_interval :: timeval

definition zero_status :: ping_packet_status where
  "zero_status = \<lparr>pk_flag = 0, pk_seq = 0, pk_begin_time = zero_time, pk_end_time = zero_time\<rparr>"

definition ping_start :: "'k \<Rightarrow> 'k ping" where
  "ping_start k = \<lparr>w_kern = k, w_errno = 0, w_trace = [], ping_packet = replicate 64 zero_status,
     alive = 0, rawsock = 0, send_count = 0, recv_count = 0, pid = 0, dest = replicate 16 0,
     start_time = zero_time, end_time = zero_time, time_interval = zero_time\<rparr>"

section \<open>The code\<close>

text \<open>Updating entry \<open>i\<close> of the packet table, and reading it.\<close>

definition set_packet :: "int \<Rightarrow> (ping_packet_status \<Rightarrow> ping_packet_status) \<Rightarrow> ('k ping, unit) io" where
  "set_packet i f = (\<lambda>w.
     if 0 \<le> i \<and> nat i < length (ping_packet w)
     then (Ok (), w\<lparr>ping_packet := (ping_packet w)[nat i := f (ping_packet w ! nat i)]\<rparr>)
     else (Faulted OutOfBounds, w))"

definition get_packet :: "int \<Rightarrow> ('k ping, ping_packet_status) io" where
  "get_packet i = (\<lambda>w.
     if 0 \<le> i \<and> nat i < length (ping_packet w) then (Ok (ping_packet w ! nat i), w)
     else (Faulted OutOfBounds, w))"

definition send_guard :: "'k ping \<Rightarrow> bool" where
  "send_guard w \<longleftrightarrow> alive w \<noteq> 0 \<and> send_count w < PACKET_SEND_MAX_NUM"

definition recv_guard :: "'k ping \<Rightarrow> bool" where
  "recv_guard w \<longleftrightarrow> alive w \<noteq> 0 \<and> recv_count w < PACKET_SEND_MAX_NUM"

text \<open>The buffer of the sending thread is cleared once, before its loop.\<close>

definition send_init :: "'k kernel \<Rightarrow> ('k ping, byte list) io" where
  "send_init K =
     io_bind (gettimeofday K) (\<lambda>t.
     io_then (io_mod (\<lambda>w. w\<lparr>start_time := t\<rparr>)) (io_return (replicate 128 0)))"

definition send_turn :: "'k kernel \<Rightarrow> byte list \<Rightarrow> ('k ping, byte list) io" where
  "send_turn K send_buf =
     io_bind (gettimeofday K) (\<lambda>t.
     io_bind (io_get send_count) (\<lambda>n.
     io_then (set_packet n (\<lambda>p. p\<lparr>pk_begin_time := t, pk_flag := 1, pk_seq := n\<rparr>))
     (io_bind (io_get id) (\<lambda>w.
      io_bind (icmp_pack K send_buf n (and (pid w) 65535)) (\<lambda>(send_buf, pack_size).
      io_bind (sys K ''sendto'' [AInt (rawsock w), ABytes (take (nat pack_size) send_buf), AInt 0, ABytes (dest w)]) (\<lambda>sz.
      io_then (io_mod (\<lambda>w. w\<lparr>send_count := send_count w + 1\<rparr>))
      (if sz < 0 then io_then (eprintf K ''send icmp packet fail!'' []) (io_return send_buf)
       else io_then (do_call K ''sleep'' [AInt 1]) (io_return send_buf))))))))"

definition recv_init :: "timeval \<times> byte list" where
  "recv_init = (\<lparr>tv_sec = 0, tv_usec = 200\<rparr>, replicate 512 0)"

text \<open>
  The time limit given to \<open>select\<close> is set before the loop only; the thread's state is that limit
  and its buffer. The reply is stored in the entry of the packets received so far, whatever
  sequence number it carries.
\<close>

definition recv_turn :: "'k kernel \<Rightarrow> timeval \<times> byte list \<Rightarrow> ('k ping, timeval \<times> byte list) io" where
  "recv_turn K st =
     (case st of (tv, recv_buf) \<Rightarrow>
        io_bind (io_get rawsock) (\<lambda>sock.
        io_bind (select1 K sock tv) (\<lambda>(ret, tv).
        if ret = - 1 then io_then (eprintf K ''fail to select!'' []) (io_return (tv, recv_buf))
        else if ret = 0 then io_return (tv, recv_buf)
        else
          io_bind (recv K sock recv_buf) (\<lambda>(sz, recv_buf).
          if sz < 0 then io_then (eprintf K ''recv data fail!'' []) (io_return (tv, recv_buf))
          else
            io_bind (io_get id) (\<lambda>w.
            io_bind (get_packet (recv_count w)) (\<lambda>p.
            io_bind (icmp_unpack K recv_buf sz (and (pid w) 65535) p) (\<lambda>(ret, p).
            io_then (set_packet (recv_count w) (\<lambda>_. p))
            (if ret = - 1 then io_return (tv, recv_buf)
             else io_then (io_mod (\<lambda>w. w\<lparr>recv_count := recv_count w + 1\<rparr>)) (io_return (tv, recv_buf))))))))))"

definition icmp_sigint :: "'k kernel \<Rightarrow> ('k ping, unit) io" where
  "icmp_sigint K =
     io_then (io_mod (\<lambda>w. w\<lparr>alive := 0\<rparr>))
     (io_bind (gettimeofday K) (\<lambda>t.
      io_mod (\<lambda>w. w\<lparr>end_time := t, time_interval := time_offset (start_time w) t\<rparr>)))"

definition ping_stats_show :: "'k kernel \<Rightarrow> ('k ping, unit) io" where
  "ping_stats_show K =
     io_bind (io_get id) (\<lambda>w.
     let time = tv_sec (time_interval w) * 1000 + tv_usec (time_interval w) sdiv 1000 in
     if send_count w = 0 then io_fault DivByZero
     else printf K ''%d packets transmitted, %d recieved, %d%c packet loss, time %ldms''
            [AInt (send_count w), AInt (recv_count w),
             AInt ((send_count w - recv_count w) * 100 sdiv send_count w), AStr ''%'', AInt time])"

text \<open>\<open>Some\<close> status: \<open>main\<close> returns early; \<open>None\<close>: both threads have been created.\<close>

definition ping_set_up :: "'k kernel \<Rightarrow> string list \<Rightarrow> ('k ping, int option) io" where
  "ping_set_up K argv =
     (if length argv < 2 then io_then (printf K ''Invalid IP address!'' []) (io_return (Some (- 1)))
      else
        io_bind (raw_sock K) (\<lambda>sock.
        io_then (io_mod (\<lambda>w. w\<lparr>rawsock := sock\<rparr>))
        (if sock < 0 then io_return (Some (- 1))
         else
           io_bind (sys K ''getpid'' []) (\<lambda>p.
           io_then (io_mod (\<lambda>w. w\<lparr>pid := p\<rparr>))
           (io_then (io_bind (setsockopt K sock SOL_SOCKET SO_RCVBUF (128 * 1024)) (\<lambda>_. io_return ()))
           (io_bind (set_dest K (argv ! 1)) (\<lambda>(inaddr, d).
            io_then (io_mod (\<lambda>w. w\<lparr>dest := d\<rparr>))
            (if inaddr < 0 then io_return (Some (- 1))
             else
               io_then (printf K ''PING %s, (%d.%d.%d.%d) 8 bytes of data.''
                 [AStr (argv ! 1), AInt (inaddr mod 256), AInt (inaddr div 256 mod 256),
                  AInt (inaddr div 65536 mod 256), AInt (inaddr div 16777216)])
               (io_then (io_mod (\<lambda>w. w\<lparr>alive := 1\<rparr>))
               (io_then (do_call K ''signal'' [AStr ''SIGINT'', AStr ''icmp_sigint''])
               (io_bind (sys K ''pthread_create'' [AStr ''ping_send'']) (\<lambda>e.
                if e \<noteq> 0 then io_then (printf K ''Fail to create ping send thread!'' []) (io_return (Some (- 1)))
                else
                  io_bind (sys K ''pthread_create'' [AStr ''ping_recv'']) (\<lambda>e.
                  if e \<noteq> 0 then io_then (printf K ''Fail to create ping recv thread!'' []) (io_return (Some (- 1)))
                  else io_return None)))))))))))))"

definition ping_finish :: "'k kernel \<Rightarrow> ('k ping, int) io" where
  "ping_finish K =
     io_then (do_call K ''pthread_join'' [AStr ''ping_send''])
     (io_then (do_call K ''pthread_join'' [AStr ''ping_recv''])
     (io_then (ping_stats_show K)
     (io_bind (io_get rawsock) (\<lambda>sock. io_then (do_call K ''close'' [AInt sock]) (io_return 0)))))"

section \<open>The threads together\<close>

text \<open>
  The world and the local states of the two threads; \<open>None\<close> for a thread that has returned.
\<close>

record 'k ping_sys =
  y_world :: "'k ping"
  y_send :: "byte list option"
  y_recv :: "(timeval \<times> byte list) option"

inductive ping_step :: "'k kernel \<Rightarrow> 'k ping_sys \<Rightarrow> 'k ping_sys \<Rightarrow> bool" for K where
  send: "y_send y = Some buf \<Longrightarrow> send_guard (y_world y) \<Longrightarrow> send_turn K buf (y_world y) = (Ok buf', w) \<Longrightarrow>
    ping_step K y (y\<lparr>y_world := w, y_send := Some buf'\<rparr>)"
| send_end: "y_send y = Some buf \<Longrightarrow> \<not> send_guard (y_world y) \<Longrightarrow> ping_step K y (y\<lparr>y_send := None\<rparr>)"
| recv: "y_recv y = Some st \<Longrightarrow> recv_guard (y_world y) \<Longrightarrow> recv_turn K st (y_world y) = (Ok st', w) \<Longrightarrow>
    ping_step K y (y\<lparr>y_world := w, y_recv := Some st'\<rparr>)"
| recv_end: "y_recv y = Some st \<Longrightarrow> \<not> recv_guard (y_world y) \<Longrightarrow> ping_step K y (y\<lparr>y_recv := None\<rparr>)"
| interrupt: "icmp_sigint K (y_world y) = (Ok (), w) \<Longrightarrow> ping_step K y (y\<lparr>y_world := w\<rparr>)"

inductive_cases ping_stepE: "ping_step K y y'"
section \<open>Invariant\<close>

definition ping_inv :: "'k ping \<Rightarrow> bool" where
  "ping_inv w \<longleftrightarrow> length (ping_packet w) = 64 \<and> 0 \<le> send_count w \<and> send_count w \<le> 64 \<and>
     0 \<le> recv_count w \<and> recv_count w \<le> 64"

lemma stable_ping: "stable (\<lambda>w. ping_inv w \<and> send_count w = n \<and> recv_count w = m \<and> alive w = a)"
  by (simp add: stable_def ping_inv_def)

lemma stable_send: "stable (\<lambda>w :: 'k ping. ping_inv w \<and> send_count w < 64)"
  by (simp add: stable_def ping_inv_def)

lemma stable_recv: "stable (\<lambda>w :: 'k ping. ping_inv w \<and> recv_count w < 64)"
  by (simp add: stable_def ping_inv_def)

lemma stable_inv: "stable (ping_inv :: 'k ping \<Rightarrow> bool)"
  by (simp add: stable_def ping_inv_def)

lemma stable_at: "stable (\<lambda>w :: 'k ping. ping_inv w \<and> send_count w = n \<and> send_count w < 64)"
  "stable (\<lambda>w :: 'k ping. ping_inv w \<and> recv_count w = n \<and> recv_count w < 64)"
  by (simp_all add: stable_def ping_inv_def)

lemma total_gettimeofday: "stable P \<Longrightarrow> total P (gettimeofday K) (\<lambda>_. P)"
  unfolding gettimeofday_def
  by (rule total_bind [OF total_sys_r]) (auto intro: total_return simp del: io_return_run)

lemma total_icmp_pack:
  "stable P \<Longrightarrow> 24 \<le> length buf \<Longrightarrow>
   total P (icmp_pack K buf seq icmpid) (\<lambda>(b, n) w. P w \<and> length b = length buf)"
  using icmp_pack_ok [of buf K seq icmpid] unfolding total_def stable_def by fastforce

text \<open>One turn of the sending thread.\<close>

lemma send_turn_total:
  assumes "length buf = 128"
  shows "total (\<lambda>w. ping_inv w \<and> send_guard w) (send_turn K buf) (\<lambda>b w. ping_inv w \<and> length b = 128)"
proof -
  let ?P = "\<lambda>w :: 'a ping. ping_inv w \<and> send_count w < 64"
  let ?R = "\<lambda>n (w :: 'a ping). ping_inv w \<and> send_count w = n \<and> send_count w < 64"
  have set: "total (?R n) (set_packet n f) (\<lambda>_. ?R n)" for n f
    by (auto simp: total_def set_packet_def ping_inv_def)
  have rest: "total (?R n) (io_bind (io_get id) (\<lambda>w.
      io_bind (icmp_pack K buf n (and (pid w) 65535)) (\<lambda>(send_buf, pack_size).
      io_bind (sys K ''sendto'' [AInt (rawsock w), ABytes (take (nat pack_size) send_buf), AInt 0, ABytes (dest w)]) (\<lambda>sz.
      io_then (io_mod (\<lambda>w. w\<lparr>send_count := send_count w + 1\<rparr>))
      (if sz < 0 then io_then (eprintf K ''send icmp packet fail!'' []) (io_return send_buf)
       else io_then (do_call K ''sleep'' [AInt 1]) (io_return send_buf))))))
      (\<lambda>b w. ping_inv w \<and> length b = 128)" for n
  proof (rule total_bind_get, goal_cases)
    case (1 w)
    have "total (?R n) (icmp_pack K buf n (and (pid w) 65535)) (\<lambda>(b, m) w. ?R n w \<and> length b = 128)"
      using total_icmp_pack [OF stable_at(1), of buf n K n "and (pid w) 65535"] assms by simp
    then have pack: "total (\<lambda>v. v = w) (icmp_pack K buf n (and (pid w) 65535)) (\<lambda>(b, m) w. ?R n w \<and> length b = 128)"
      using 1 by (auto simp: total_def)
    show ?case
      unfolding id_apply
    proof (rule total_bind [OF pack], clarify, goal_cases)
      case (1 b m)
      have st: "stable (\<lambda>w :: 'a ping. ?R n w \<and> length b = 128)"
        using stable_at(1) [of n] by (auto simp: stable_def)
      have st2: "stable (\<lambda>w :: 'a ping. ping_inv w \<and> length b = 128)"
        using stable_inv by (auto simp: stable_def)
      show ?case
        unfolding prod.case
        apply (rule total_bind [OF total_sys [OF st]])
        apply (rule total_then [where R = "\<lambda>w. ping_inv w \<and> length b = 128"])
         apply (rule total_mod, simp add: ping_inv_def)
        apply (split if_split, intro conjI impI)
         apply (rule total_then [OF total_eprintf [OF st2]], rule total_return, simp)
        apply (rule total_then [OF total_call [OF st2]], rule total_return, simp)
        done
    qed
  qed
  have "total ?P (send_turn K buf) (\<lambda>b w. ping_inv w \<and> length b = 128)"
    unfolding send_turn_def
  proof (rule total_bind [OF total_gettimeofday [OF stable_send]], rule total_bind_get, goal_cases)
    case (1 t w)
    have "total (\<lambda>v. v = w) (set_packet (send_count w) (\<lambda>p. p\<lparr>pk_begin_time := t, pk_flag := 1, pk_seq := send_count w\<rparr>))
        (\<lambda>_. ?R (send_count w))"
      by (rule total_weaken [OF set [of "send_count w"]]) (use 1 in auto)
    from total_then [OF this rest] show ?case .
  qed
  then show ?thesis
    by (rule total_weaken) (auto simp: send_guard_def PACKET_SEND_MAX_NUM_def)
qed
text \<open>One turn of the receiving thread.\<close>

lemma u8_512: "length buf = 512 \<Longrightarrow> 0 \<le> i \<Longrightarrow> i < 512 \<Longrightarrow> \<exists>v. u8 buf i = Inr v"
  by (simp add: u8_ok)

lemma le16_512: "length buf = 512 \<Longrightarrow> 0 \<le> i \<Longrightarrow> i < 511 \<Longrightarrow> \<exists>v. le16 buf i = Inr v"
  using u8_512 [of buf i] u8_512 [of buf "i + 1"] by (auto simp: le16_def)

lemma icmp_unpack_total:
  assumes st: "stable P" and buf: "length buf = 512"
  shows "total P (icmp_unpack K buf len icmpid p) (\<lambda>_. P)"
proof -
  obtain h where h: "ip_hlen buf 0 = Inr h" "0 \<le> h" "h \<le> 60" using ip_hlen_ok [of 0 buf] buf by auto
  obtain ty where ty: "u8 buf h = Inr ty" using u8_512 [OF buf, of h] h by auto
  obtain i where i: "le16 buf (h + 4) = Inr i" using le16_512 [OF buf, of "h + 4"] h by auto
  obtain sq where sq: "le16 buf (h + 6) = Inr sq" using le16_512 [OF buf, of "h + 6"] h by auto
  obtain ttl where ttl: "u8 buf 8 = Inr ttl" using u8_512 [OF buf, of 8] by auto
  obtain src where src: "le32 buf 12 = Inr src"
    using le16_512 [OF buf, of 12] le16_512 [OF buf, of "12 + 2"] by (auto simp: le32_def)
  have ret: "total P (io_return a) (\<lambda>_. P)" for a :: "int \<times> ping_packet_status" by (rule total_return)
  show ?thesis
    unfolding icmp_unpack_def h(1) ty i sq ttl src Let_def io_bind_lift_Inr
    apply (rule total_if)
     apply (rule total_then [OF total_eprintf [OF st] ret])
    apply (rule total_if)
     apply (rule total_if)
      apply (rule total_then [OF total_eprintf [OF st] ret])
     apply (rule total_bind [OF total_gettimeofday [OF st]])
     apply (rule total_then [OF total_printf [OF st] ret])
    apply (rule total_then [OF total_eprintf [OF st] ret])
    done
qed

lemma total_recv:
  "stable P \<Longrightarrow> total P (recv K fd buf) (\<lambda>(n, b) w. P w \<and> length b = length buf)"
  unfolding recv_def
  by (rule total_bind [OF total_sys_r]) (auto intro!: total_return simp: overwrite_def simp del: io_return_run)

lemma total_select1: "stable P \<Longrightarrow> total P (select1 K fd tv) (\<lambda>_. P)"
  unfolding select1_def
  by (rule total_bind [OF total_sys_r]) (auto intro!: total_return simp del: io_return_run)

lemma recv_store_total:
  assumes "length buf = 512"
  shows "total (\<lambda>w. ping_inv w \<and> recv_count w < 64)
    (io_bind (io_get id) (\<lambda>w.
     io_bind (get_packet (recv_count w)) (\<lambda>p.
     io_bind (icmp_unpack K buf sz (and (pid w) 65535) p) (\<lambda>(ret, p).
     io_then (set_packet (recv_count w) (\<lambda>_. p))
     (if ret = - 1 then io_return (tv, buf)
      else io_then (io_mod (\<lambda>w. w\<lparr>recv_count := recv_count w + 1\<rparr>)) (io_return (tv, buf)))))))
    (\<lambda>st w. ping_inv w \<and> length (snd st) = 512)"
proof (rule total_bind_get, goal_cases)
  case (1 w)
  let ?R = "\<lambda>v :: 'a ping. ping_inv v \<and> recv_count v = recv_count w \<and> recv_count v < 64"
  have get: "total (\<lambda>v. v = w) (get_packet (recv_count w)) (\<lambda>_. ?R)"
    using 1 by (auto simp: total_def get_packet_def ping_inv_def)
  have set: "total ?R (set_packet (recv_count w) f) (\<lambda>_. ?R)" for f
    by (auto simp: total_def set_packet_def ping_inv_def)
  show ?case
    unfolding id_apply
    apply (rule total_bind [OF get])
    apply (rule total_bind [OF icmp_unpack_total [OF stable_at(2) assms]])
    apply (rule total_split)
    apply (rule total_then [OF set])
    apply (rule total_if)
     apply (rule total_return, simp add: assms)
    apply (rule total_then [where R = "\<lambda>w. ping_inv w"])
     apply (rule total_mod, simp add: ping_inv_def)
    apply (rule total_return, simp add: assms)
    done
qed

lemma recv_turn_total:
  assumes "length buf = 512"
  shows "total (\<lambda>w. ping_inv w \<and> recv_guard w) (recv_turn K (tv, buf)) (\<lambda>st w. ping_inv w \<and> length (snd st) = 512)"
proof -
  let ?P = "\<lambda>w :: 'a ping. ping_inv w \<and> recv_count w < 64"
  have sel: "total (\<lambda>v. v = w) (select1 K fd t) (\<lambda>_. ?P)" if "?P w" for w fd t
    by (rule total_weaken [OF total_select1 [OF stable_recv]]) (use that in auto)
  have ret: "total ?P (io_return (tv', b)) (\<lambda>st w. ping_inv w \<and> length (snd st) = 512)"
    if "length b = 512" for tv' :: timeval and b :: "byte list"
    by (rule total_return) (use that in auto)
  have "total ?P (recv_turn K (tv, buf)) (\<lambda>st w. ping_inv w \<and> length (snd st) = 512)"
    unfolding recv_turn_def prod.case
  proof (rule total_bind_get, goal_cases)
    case (1 w)
    have "total ?P (case r of (ret, tv) \<Rightarrow>
        if ret = - 1 then io_then (eprintf K ''fail to select!'' []) (io_return (tv, buf))
        else if ret = 0 then io_return (tv, buf)
        else
          io_bind (recv K fd buf) (\<lambda>(sz, recv_buf).
          if sz < 0 then io_then (eprintf K ''recv data fail!'' []) (io_return (tv, recv_buf))
          else
            io_bind (io_get id) (\<lambda>w.
            io_bind (get_packet (recv_count w)) (\<lambda>p.
            io_bind (icmp_unpack K recv_buf sz (and (pid w) 65535) p) (\<lambda>(ret, p).
            io_then (set_packet (recv_count w) (\<lambda>_. p))
            (if ret = - 1 then io_return (tv, recv_buf)
             else io_then (io_mod (\<lambda>w. w\<lparr>recv_count := recv_count w + 1\<rparr>)) (io_return (tv, recv_buf))))))))
      (\<lambda>st w. ping_inv w \<and> length (snd st) = 512)" for r :: "int \<times> timeval" and fd
    proof -
    have rcv: "total ?P (recv K fd buf) (\<lambda>(n, b) w. ?P w \<and> length b = 512)" for fd
      using total_recv [OF stable_recv, of K fd buf] assms by simp
    show ?thesis
      apply (cases r, simp only: prod.case)
      apply (rule total_if)
       apply (rule total_then, rule total_eprintf, rule stable_recv, rule ret, rule assms)
      apply (rule total_if)
       apply (rule ret [OF assms])
      apply (rule total_bind [OF rcv], simp only: split_paired_all prod.case)
      subgoal for r1 r2 n b
      proof (cases "length b = 512")
        case True
        show ?thesis
        proof (cases "n < 0")
          case neg: True
          show ?thesis using neg
            by (simp only: if_True)
              (rule total_weaken, rule total_then, rule total_eprintf, rule stable_recv, rule ret, rule True, auto)
        next
          case False
          then show ?thesis
            by (simp only: if_False) (rule total_weaken [OF recv_store_total [OF True]], auto)
        qed
      qed (simp add: total_def)
      done
    qed
    from total_bind [OF sel [OF 1] this] show ?case .
  qed
  then show ?thesis
    by (rule total_weaken) (auto simp: recv_guard_def PACKET_SEND_MAX_NUM_def)
qed

section \<open>The properties\<close>

text \<open>What holds in every state the threads can reach.\<close>

definition sys_inv :: "'k ping_sys \<Rightarrow> bool" where
  "sys_inv y \<longleftrightarrow> ping_inv (y_world y) \<and> (\<forall>b. y_send y = Some b \<longrightarrow> length b = 128) \<and>
     (\<forall>tv b. y_recv y = Some (tv, b) \<longrightarrow> length b = 512)"

lemma sigint_run: "\<exists>w'. icmp_sigint K w = (Ok (), w') \<and> (ping_inv w \<longrightarrow> ping_inv w') \<and> alive w' = 0 \<and>
    send_count w' = send_count w"
  using gettimeofday_run [of K "w\<lparr>alive := 0\<rparr>"]
  by (auto simp: icmp_sigint_def io_then_def io_bind_def ping_inv_def)

lemma ping_step_inv:
  assumes "ping_step K y y'" "sys_inv y"
  shows "sys_inv y'"
  using assms(1)
proof cases
  case (send buf buf' w)
  then have "ping_inv (y_world y) \<and> send_guard (y_world y)" "length buf = 128"
    using assms(2) by (auto simp: sys_inv_def)
  from totalD [OF send_turn_total [OF this(2)] this(1), of K] send have "ping_inv w \<and> length buf' = 128" by auto
  with send assms(2) show ?thesis by (auto simp: sys_inv_def)
next
  case (recv st st' w)
  obtain tv b where st: "st = (tv, b)" by fastforce
  with recv have "ping_inv (y_world y) \<and> recv_guard (y_world y)" "length b = 512"
    using assms(2) by (auto simp: sys_inv_def)
  from totalD [OF recv_turn_total [OF this(2)] this(1), of K tv] recv st have "ping_inv w \<and> length (snd st') = 512" by auto
  with recv assms(2) show ?thesis by (auto simp: sys_inv_def)
next
  case (interrupt w)
  with sigint_run [of K "y_world y"] assms(2) show ?thesis by (auto simp: sys_inv_def)
qed (use assms(2) in \<open>auto simp: sys_inv_def\<close>)

text \<open>The state in which the two threads start.\<close>

definition threads_start :: "'k ping \<Rightarrow> 'k ping_sys" where
  "threads_start w = \<lparr>y_world = w, y_send = Some (replicate 128 0), y_recv = Some recv_init\<rparr>"

interpretation ping_threads: invariant_system "\<lambda>y. \<exists>w. ping_inv w \<and> y = threads_start w" "ping_step K" sys_inv for K
proof
  fix y :: "'a ping_sys" assume "\<exists>w. ping_inv w \<and> y = threads_start w"
  then show "sys_inv y" by (auto simp: threads_start_def sys_inv_def recv_init_def)
qed (rule ping_step_inv)


text \<open>
  An interrupt before the first packet: both threads then return without sending, and
  the statistics divide by zero.
\<close>

theorem ping_interrupted_at_once:
  assumes "send_count w = 0"
  shows "\<exists>y. (ping_step K)\<^sup>*\<^sup>* (threads_start w) y \<and> y_send y = None \<and> y_recv y = None \<and>
    fst (ping_finish K (y_world y)) = Faulted DivByZero"
proof -
  let ?y0 = "threads_start w"
  obtain w1 where w1: "icmp_sigint K w = (Ok (), w1)" "alive w1 = 0" "send_count w1 = 0"
    using sigint_run [of K w] assms by auto
  let ?y1 = "?y0\<lparr>y_world := w1\<rparr>" let ?y2 = "?y1\<lparr>y_send := None\<rparr>" let ?y3 = "?y2\<lparr>y_recv := None\<rparr>"
  have "ping_step K ?y0 ?y1" using w1(1) by (intro ping_step.interrupt) (simp add: threads_start_def)
  moreover have "ping_step K ?y1 ?y2"
    using w1(2) by (intro ping_step.send_end [where buf = "replicate 128 0"]) (auto simp: threads_start_def send_guard_def)
  moreover have "ping_step K ?y2 ?y3"
    using w1(2) by (intro ping_step.recv_end [where st = recv_init]) (auto simp: threads_start_def recv_guard_def)
  ultimately have "(ping_step K)\<^sup>*\<^sup>* ?y0 ?y3"
    by (meson converse_rtranclp_into_rtranclp rtranclp.rtrancl_refl)
  moreover have "fst (ping_finish K (y_world ?y3)) = Faulted DivByZero"
    using w1(3)
    by (simp add: ping_finish_def ping_stats_show_def io_then_def io_bind_def do_call_def sys_r_run Let_def)
  ultimately show ?thesis by (intro exI [of _ ?y3]) simp
qed

section \<open>Witnesses\<close>

definition ready :: "reply list ping" where
  "ready = (ping_start [])\<lparr>alive := 1\<rparr>"

lemma ready_inv: "ping_inv ready"
  by (simp add: ready_def ping_start_def ping_inv_def)


theorem ping_interrupted_at_once_witness:
  "\<exists>y. (ping_step scripted)\<^sup>*\<^sup>* (threads_start ready) y \<and> y_send y = None \<and> y_recv y = None \<and>
    fst (ping_finish scripted (y_world y)) = Faulted DivByZero"
  by (rule ping_interrupted_at_once) (simp add: ready_def ping_start_def)

end
