(* ===== verification/TracerouteUdp.thy ===== *)
theory TracerouteUdp
  imports TracerouteStd Icmp
begin

text \<open>
  traceroute_udp.c: the reduced traceroute that sends UDP probes. The probe packet is that of
  traceroute_std.c (the same struct); \<open>dest\<close> points into \<open>whereto\<close>, which is the block of 16
  bytes \<open>u_whereto\<close>. The time limit of \<open>select\<close> is one variable for the whole run.

  The lemmas: every packet that arrives is taken for the answer to the last probe.
\<close>

section \<open>State\<close>

record 'k utr = "'k world" +
  u_outpacket :: opacket
  u_datalen :: int
  u_ident :: int
  u_port :: int
  u_rawsock :: int
  u_whereto :: "byte list"

definition u_start :: "'k \<Rightarrow> 'k utr" where
  "u_start k = \<lparr>w_kern = k, w_errno = 0, w_trace = [], u_outpacket = zero_opacket, u_datalen = 0,
     u_ident = 0, u_port = 32768 + 666, u_rawsock = 0, u_whereto = replicate 16 0\<rparr>"

section \<open>The code\<close>

definition send_probe :: "'k kernel \<Rightarrow> int \<Rightarrow> int \<Rightarrow> ('k utr, unit) io" where
  "send_probe K seq ttl =
     io_then (io_mod (\<lambda>w. w\<lparr>u_outpacket := filled (u_outpacket w) (u_datalen w) (u_ident w) (u_port w) seq ttl\<rparr>))
     (io_bind (gettimeofday K) (\<lambda>tv.
      io_then (io_mod (\<lambda>w. w\<lparr>u_outpacket := (u_outpacket w)\<lparr>op_tv := tv\<rparr>\<rparr>))
      (io_bind (io_get id) (\<lambda>w.
       io_bind (sys K ''sendto'' [AInt (u_rawsock w), ABytes (opacket_bytes (u_outpacket w) (u_datalen w)),
                  AInt 0, ABytes (u_whereto w)]) (\<lambda>i.
       io_when (i < 0) (perror K ''sendto''))))))"

definition icmp_packet_ok :: "'k kernel \<Rightarrow> byte list \<Rightarrow> int \<Rightarrow> ('k utr, int) io" where
  "icmp_packet_ok K buf len =
     io_bind (io_lift (ip_hlen buf 0)) (\<lambda>iphdr_len.
     let len = len - iphdr_len in
     if len < 8 then
       io_then (eprintf K ''INvalid icmp packet.Its length is less than 8'' []) (io_return (- 1))
     else
       io_bind (io_lift (u8 buf iphdr_len)) (\<lambda>type.
       io_bind (io_lift (u8 buf (iphdr_len + 1))) (\<lambda>code.
       io_return (if type = ICMP_TIMXCEED then - 1 else code + 1))))"

definition print_from :: "'k kernel \<Rightarrow> byte list \<Rightarrow> int \<Rightarrow> int \<Rightarrow> ('k utr, unit) io" where
  "print_from K buf cc from_addr =
     io_bind (io_lift (ip_hlen buf 0)) (\<lambda>hlen. printf K ''%s'' [AInt from_addr])"

definition deltaT :: "timeval \<Rightarrow> timeval \<Rightarrow> rat" where
  "deltaT t1 t2 =
     of_int (tv_sec t2 - tv_sec t1) * 1000 + of_int (tv_usec t2 - tv_usec t1) / 1000"

text \<open>The local variables of \<open>main\<close>.\<close>

record u_local =
  ul_buf :: "byte list"
  ul_tv :: timeval
  ul_seq :: int
  ul_got_there :: int
  ul_unreachable :: int
  ul_lastaddr :: int

definition u_answer :: "'k kernel \<Rightarrow> int \<Rightarrow> u_local \<Rightarrow> ('k utr, u_local) io" where
  "u_answer K i l =
     (let there = io_return (l\<lparr>ul_got_there := ul_got_there l + 1\<rparr>);
          unre = (\<lambda>mark. io_then (printf K mark []) (io_return (l\<lparr>ul_unreachable := ul_unreachable l + 1\<rparr>)))
      in
      if i - 1 = ICMP_UNREACH_PORT then there
      else if i - 1 = ICMP_UNREACH_NET then unre '' !N''
      else if i - 1 = ICMP_UNREACH_HOST then unre '' !H''
      else if i - 1 = ICMP_UNREACH_PROTOCOL then io_then (printf K '' !P'' []) there
      else if i - 1 = ICMP_UNREACH_NEEDFRAG then unre '' !F''
      else if i - 1 = ICMP_UNREACH_SRCFAIL then unre '' !S''
      else io_return l)"

definition u_receive :: "'k kernel \<Rightarrow> int \<Rightarrow> timeval \<Rightarrow> u_local \<Rightarrow> ('k utr, u_local) io" where
  "u_receive K s t1 l =
     io_bind (recvfrom K s (ul_buf l)) (\<lambda>(len, buf, from_addr).
     let l = l\<lparr>ul_buf := buf\<rparr> in
     io_bind (gettimeofday K) (\<lambda>t2.
     io_bind (icmp_packet_ok K buf len) (\<lambda>i.
     if i \<noteq> 0 then
       io_bind (if from_addr \<noteq> ul_lastaddr l then
                  io_then (print_from K buf len from_addr) (io_return (l\<lparr>ul_lastaddr := from_addr\<rparr>))
                else io_return l) (\<lambda>l.
       io_then (printf K ''  %g ms'' [ARat (deltaT t1 t2)]) (u_answer K i l))
     else io_then (printf K ''* '' []) (io_return l))))"

definition u_probe :: "'k kernel \<Rightarrow> int \<Rightarrow> int \<Rightarrow> u_local \<Rightarrow> ('k utr, u_local) io" where
  "u_probe K s ttl l =
     io_bind (gettimeofday K) (\<lambda>t1.
     io_then (send_probe K (ul_seq l) ttl)
     (io_bind (select1 K s (ul_tv l)) (\<lambda>(ret, tv).
      let l = l\<lparr>ul_tv := tv\<rparr> in
      io_bind (if ret = - 1 then io_then (eprintf K ''fail to select!'' []) (io_return l)
               else if ret = 0 then io_then (printf K ''* '' []) (io_return l)
               else u_receive K s t1 l) (\<lambda>l.
      io_then (do_call K ''fflush'' [AStr ''stdout''])
      (if ul_got_there l \<noteq> 0 \<or> ul_unreachable l \<ge> 2 then io_exit 0 else io_return l)))))"

fun u_probes :: "'k kernel \<Rightarrow> int \<Rightarrow> int \<Rightarrow> nat \<Rightarrow> u_local \<Rightarrow> ('k utr, u_local) io" where
  "u_probes K s ttl 0 l = io_return l"
| "u_probes K s ttl (Suc n) l = io_bind (u_probe K s ttl l) (\<lambda>l. u_probes K s ttl n l)"

text \<open>\<open>seq\<close> is an \<open>unsigned char\<close>.\<close>

function u_hops :: "'k kernel \<Rightarrow> int \<Rightarrow> int \<Rightarrow> u_local \<Rightarrow> ('k utr, unit) io" where
  "u_hops K s ttl l =
     (if ttl < 64 then
        io_bind (u_probes K s ttl 3 (l\<lparr>ul_lastaddr := 0\<rparr>)) (\<lambda>l.
        io_then (printf K [NL] [])
          (u_hops K s (ttl + 1) (l\<lparr>ul_seq := (ul_seq l + 1) mod 256\<rparr>)))
      else io_return ())"
  by pat_completeness auto
termination
  by (relation "measure (\<lambda>(K, s, ttl, l). nat (64 - ttl))") auto

declare u_hops.simps [simp del]

definition u_local_start :: u_local where
  "u_local_start = \<lparr>ul_buf = replicate 512 0, ul_tv = \<lparr>tv_sec = 5, tv_usec = 0\<rparr>, ul_seq = 1,
     ul_got_there = 0, ul_unreachable = 0, ul_lastaddr = 0\<rparr>"

definition u_die :: "'k kernel \<Rightarrow> string \<Rightarrow> int \<Rightarrow> ('k utr, 'a) io" where
  "u_die K msg n = io_then (perror K msg) (io_exit n)"

text \<open>The sockets: the raw one the probes leave by, then the one ICMP arrives at, which is returned.\<close>

definition u_sockets :: "'k kernel \<Rightarrow> ('k utr, int option) io" where
  "u_sockets K =
     io_bind (io_get u_datalen) (\<lambda>datalen.
     io_bind (socket K AF_INET SOCK_RAW IPPROTO_RAW) (\<lambda>r.
     io_then (io_mod (\<lambda>w. w\<lparr>u_rawsock := r\<rparr>))
     (if r < 0 then io_then (printf K ''Create raw socket fail!'' []) (io_return None)
      else
        io_bind (setsockopt K r SOL_SOCKET SO_SNDBUF datalen) (\<lambda>e.
        if e < 0 then u_die K ''traceroute: SO_SNDBUF'' 6
        else
          io_bind (setsockopt K r IPPROTO_IP IP_HDRINCL 1) (\<lambda>e.
          if e < 0 then u_die K ''traceroute: IP_HDRINCL'' 6
          else
            io_bind (sys_r K ''getprotobyname'' [AStr ''icmp'']) (\<lambda>pe.
            if r_ret pe = 0 then io_then (eprintf K ''icmp: unknown protocol'' []) (io_exit 10)
            else
              io_bind (socket K AF_INET SOCK_RAW (int_at pe 0)) (\<lambda>s.
              if s < 0 then u_die K ''traceroute: icmp socket'' 5 else io_return (Some s))))))))"

definition main :: "'k kernel \<Rightarrow> string list \<Rightarrow> ('k utr, int) io" where
  "main K argv =
     (if length argv < 2 then io_then (printf K ''Invalid IP address!'' []) (io_return (- 1))
      else
        io_bind (set_dest K (argv ! 1)) (\<lambda>(inaddr, d).
        io_then (io_mod (\<lambda>w. w\<lparr>u_whereto := d\<rparr>))
        (if inaddr < 0 then io_return (- 1)
         else
           io_bind (sys K ''getpid'' []) (\<lambda>pid.
           io_then (io_mod (\<lambda>w. w\<lparr>u_ident := or (and pid 65535) 32768, u_datalen := sizeof_opacket\<rparr>))
           (io_bind (sys K ''malloc'' [AInt sizeof_opacket]) (\<lambda>p.
            if p = 0 then u_die K ''traceroute: malloc'' 1
            else
              io_bind (io_lift (le32 d 4)) (\<lambda>addr.
              io_then (io_mod (\<lambda>w. w\<lparr>u_outpacket := zero_opacket\<lparr>ip_dst := addr, ip_tos := 0,
                         ip_v := IPVERSION, ip_id := 0\<rparr>\<rparr>))
              (io_bind (u_sockets K) (\<lambda>r.
               case r of
                 None \<Rightarrow> io_return (- 1)
               | Some s \<Rightarrow> io_then (u_hops K s 1 u_local_start) (io_return 0))))))))))"

section \<open>What is accepted\<close>

text \<open>
  Whatever packet arrives (any 512-byte buffer, any length), \<open>icmp_packet_ok\<close> reads only
  inside the buffer and never answers 0: the sender's and the quoted ports are not looked at, and a
  packet that is too short gives the value of a time exceeded.
\<close>

theorem any_packet_accepted:
  assumes "length buf = 512"
  shows "\<exists>i w'. icmp_packet_ok K buf len w = (Ok i, w') \<and> i \<noteq> 0 \<and> - 1 \<le> i \<and> i \<le> 256"
proof -
  have u: "\<exists>v. u8 buf i = Inr v \<and> 0 \<le> v \<and> v < 256" if "0 \<le> i" "i < 512" for i
    using that assms uint_byte_range by (simp add: u8_ok)
  obtain h where h: "ip_hlen buf 0 = Inr h" "0 \<le> h" "h \<le> 60" using ip_hlen_ok [of 0 buf] assms by auto
  obtain t where t: "u8 buf h = Inr t" using u [of h] h by auto
  obtain c where c: "u8 buf (h + 1) = Inr c" "0 \<le> c" "c < 256" using u [of "h + 1"] h by auto
  show ?thesis
  proof (cases "len - h < 8")
    case True
    then show ?thesis
      by (simp add: icmp_packet_ok_def h(1) io_then_def io_bind_def eprintf_def do_call_def sys_r_run)
  next
    case False
    then show ?thesis using c(2,3) by (simp add: icmp_packet_ok_def h(1) t c(1))
  qed
qed

theorem any_packet_accepted_witness:
  "\<exists>i w'. icmp_packet_ok scripted (replicate 512 7) 3 (u_start []) = (Ok i, w') \<and> i \<noteq> 0"
  using any_packet_accepted [of "replicate 512 7" scripted 3 "u_start []"] by auto

end
