(* ===== verification/TracerouteIcmp.thy ===== *)
theory TracerouteIcmp
  imports Icmp
begin

text \<open>
  traceroute_icmp.c: the reduced traceroute that sends ICMP echo requests with growing ttl.
  \<open>dest\<close> is a pointer to \<open>whereto\<close> (the block of 16 bytes \<open>i_whereto\<close>); \<open>send_probe\<close> passes the
  address of that pointer, not the pointer, to \<open>sendto\<close>. The brace that closes early at the end
  of the switch makes its last two statements run whenever a packet is not an answer.

  The lemmas: which packets are answers, and that the first one that is not ends the program.
\<close>

record 'k itr = "'k world" +
  i_ident :: int
  i_rawsock :: int
  i_whereto :: "byte list"

definition i_start :: "'k \<Rightarrow> 'k itr" where
  "i_start k = \<lparr>w_kern = k, w_errno = 0, w_trace = [], i_ident = 0, i_rawsock = 0,
     i_whereto = replicate 16 0\<rparr>"

section \<open>The code\<close>

definition send_probe :: "'k kernel \<Rightarrow> int \<Rightarrow> int \<Rightarrow> ('k itr, unit) io" where
  "send_probe K seq ttl =
     io_bind (io_get id) (\<lambda>w.
     io_bind (setsockopt K (i_rawsock w) IPPROTO_IP IP_TTL ttl) (\<lambda>_.
     io_bind (icmp_pack K (replicate 128 0) ttl (and seq 65535)) (\<lambda>(send_buf, pack_size).
     io_bind (sys K ''sendto'' [AInt (i_rawsock w), ABytes (take (nat pack_size) send_buf), AInt 0,
                APtr ''dest'', AInt 8]) (\<lambda>sz.
     io_then (io_when (sz < 0) (eprintf K ''send icmp packet fail!'' []))
     (io_bind (io_lift (le32 (i_whereto w) 4)) (\<lambda>addr.
      printf K ''traceroute: wrote to %s:  %d chars, ret=%d'' [AInt addr, AInt pack_size, AInt sz]))))))"

definition icmp_packet_ok :: "'k kernel \<Rightarrow> byte list \<Rightarrow> int \<Rightarrow> ('k itr, int) io" where
  "icmp_packet_ok K buf len =
     io_bind (io_lift (ip_hlen buf 0)) (\<lambda>iphdr_len.
     let len = len - iphdr_len in
     if len < 8 then
       io_then (eprintf K ''INvalid icmp packet.Its length is less than 8'' []) (io_return (- 1))
     else
       io_bind (io_lift (u8 buf iphdr_len)) (\<lambda>type.
       io_bind (io_lift (u8 buf (iphdr_len + 1))) (\<lambda>code.
       io_return (if (type = ICMP_TIMXCEED \<and> code = ICMP_TIMXCEED_INTRANS) \<or> type = ICMP_UNREACH
                  then code + 1 else 0))))"

definition print_from :: "'k kernel \<Rightarrow> byte list \<Rightarrow> int \<Rightarrow> int \<Rightarrow> ('k itr, unit) io" where
  "print_from K buf cc from_addr =
     io_bind (io_lift (ip_hlen buf 0)) (\<lambda>hlen. printf K '' %s'' [AInt from_addr])"

definition deltaT :: "timeval \<Rightarrow> timeval \<Rightarrow> rat" where
  "deltaT t1 t2 =
     of_int (tv_sec t2 - tv_sec t1) * 1000 + of_int (tv_usec t2 - tv_usec t1) / 1000"

record i_local =
  il_buf :: "byte list"
  il_tv :: timeval
  il_seq :: int
  il_got_there :: int
  il_unreachable :: int
  il_lastaddr :: int

definition i_answer :: "'k kernel \<Rightarrow> int \<Rightarrow> i_local \<Rightarrow> ('k itr, i_local) io" where
  "i_answer K i l =
     (let there = io_return (l\<lparr>il_got_there := il_got_there l + 1\<rparr>);
          unre = (\<lambda>mark. io_then (printf K mark []) (io_return (l\<lparr>il_unreachable := il_unreachable l + 1\<rparr>)))
      in
      if i - 1 = ICMP_UNREACH_PORT then there
      else if i - 1 = ICMP_UNREACH_NET then unre '' !N''
      else if i - 1 = ICMP_UNREACH_HOST then unre '' !H''
      else if i - 1 = ICMP_UNREACH_PROTOCOL then io_then (printf K '' !P'' []) there
      else if i - 1 = ICMP_UNREACH_NEEDFRAG then unre '' !F''
      else if i - 1 = ICMP_UNREACH_SRCFAIL then unre '' !S''
      else io_return l)"

text \<open>The default case of the switch: a packet has arrived.\<close>

definition i_receive :: "'k kernel \<Rightarrow> timeval \<Rightarrow> i_local \<Rightarrow> ('k itr, i_local) io" where
  "i_receive K t1 l =
     io_bind (io_get i_rawsock) (\<lambda>sock.
     io_bind (recvfrom K sock (il_buf l)) (\<lambda>(len, buf, from_addr).
     let l = l\<lparr>il_buf := buf\<rparr> in
     io_bind (gettimeofday K) (\<lambda>t2.
     io_bind (icmp_packet_ok K buf len) (\<lambda>i.
     if i \<noteq> 0 then
       io_bind (if from_addr \<noteq> il_lastaddr l then
                  io_then (print_from K buf len from_addr) (io_return (l\<lparr>il_lastaddr := from_addr\<rparr>))
                else io_return l) (\<lambda>l.
       io_then (printf K ''  %g ms'' [ARat (deltaT t1 t2)]) (i_answer K i l))
     else
       io_then (printf K ''got_there=%d, uncreachable=%d'' [AInt (il_got_there l), AInt (il_unreachable l)])
         (io_exit 0)))))"

definition i_probe :: "'k kernel \<Rightarrow> int \<Rightarrow> i_local \<Rightarrow> ('k itr, i_local) io" where
  "i_probe K ttl l =
     io_bind (gettimeofday K) (\<lambda>t1.
     io_then (send_probe K (il_seq l) ttl)
     (io_bind (io_get i_rawsock) (\<lambda>sock.
      io_bind (select1 K sock (il_tv l)) (\<lambda>(ret, tv).
      let l = l\<lparr>il_tv := tv\<rparr> in
      if ret = - 1 then io_then (eprintf K ''fail to select!'' []) (io_return l)
      else if ret = 0 then io_return l
      else i_receive K t1 l))))"

fun i_probes :: "'k kernel \<Rightarrow> int \<Rightarrow> nat \<Rightarrow> i_local \<Rightarrow> ('k itr, i_local) io" where
  "i_probes K ttl 0 l = io_return l"
| "i_probes K ttl (Suc n) l = io_bind (i_probe K ttl l) (\<lambda>l. i_probes K ttl n l)"

function i_hops :: "'k kernel \<Rightarrow> int \<Rightarrow> i_local \<Rightarrow> ('k itr, unit) io" where
  "i_hops K ttl l =
     (if ttl < 128 then
        io_bind (i_probes K ttl 3 (l\<lparr>il_lastaddr := 0\<rparr>)) (\<lambda>l.
        io_then (do_call K ''sleep'' [AInt 1])
        (io_then (printf K '' '' [])
          (i_hops K (ttl + 1) (l\<lparr>il_seq := (il_seq l + 1) mod 256\<rparr>))))
      else io_return ())"
  by pat_completeness auto
termination
  by (relation "measure (\<lambda>(K, ttl, l). nat (128 - ttl))") auto

declare i_hops.simps [simp del]

definition i_local_start :: i_local where
  "i_local_start = \<lparr>il_buf = replicate 512 0, il_tv = \<lparr>tv_sec = 5, tv_usec = 0\<rparr>, il_seq = 1,
     il_got_there = 0, il_unreachable = 0, il_lastaddr = 0\<rparr>"

definition main :: "'k kernel \<Rightarrow> string list \<Rightarrow> ('k itr, int) io" where
  "main K argv =
     (if length argv < 2 then io_then (printf K ''Invalid IP address!'' []) (io_return (- 1))
      else
        io_bind (set_dest K (argv ! 1)) (\<lambda>(inaddr, d).
        io_then (io_mod (\<lambda>w. w\<lparr>i_whereto := d\<rparr>))
        (if inaddr < 0 then io_return (- 1)
         else
           io_bind (sys K ''getpid'' []) (\<lambda>pid.
           io_then (io_mod (\<lambda>w. w\<lparr>i_ident := or (and pid 65535) 32768\<rparr>))
           (io_bind (sys_r K ''getprotobyname'' [AStr ''icmp'']) (\<lambda>pe.
            if r_ret pe = 0 then io_then (eprintf K ''icmp: unknown protocol'' []) (io_exit 10)
            else
              io_bind (socket K AF_INET SOCK_RAW (int_at pe 0)) (\<lambda>sock.
              io_then (io_mod (\<lambda>w. w\<lparr>i_rawsock := sock\<rparr>))
              (if sock < 0 then io_then (printf K ''Create raw socket fail!'' []) (io_return (- 1))
               else io_then (i_hops K 1 i_local_start) (io_return 0)))))))))"

section \<open>What is accepted\<close>

lemma icmp_packet_ok_run:
  assumes "length buf = 512" "ip_hlen buf 0 = Inr h" "h + 8 \<le> len"
    "u8 buf h = Inr type" "u8 buf (h + 1) = Inr code"
  shows "icmp_packet_ok K buf len =
    io_return (if (type = ICMP_TIMXCEED \<and> code = ICMP_TIMXCEED_INTRANS) \<or> type = ICMP_UNREACH
               then code + 1 else 0)"
  using assms by (simp add: icmp_packet_ok_def Let_def fun_eq_iff)

text \<open>
  The first packet that is neither a time exceeded nor an unreachable, such as the echo
  reply of the destination, ends the program with status 0 in the middle of the hop, whatever the
  counters are.
\<close>

theorem other_packet_ends_program:
  assumes "length (il_buf l) = 512" and "recvfrom K (i_rawsock w) (il_buf l) w = (Ok (len, buf, from_addr), w1)"
    and "length buf = 512" and "ip_hlen buf 0 = Inr h" and "h + 8 \<le> len"
    and "u8 buf h = Inr type" and "u8 buf (h + 1) = Inr code"
    and "type \<noteq> ICMP_TIMXCEED" and "type \<noteq> ICMP_UNREACH"
  shows "fst (i_receive K t1 l w) = Exited 0"
proof -
  obtain t2 w2 where t2: "gettimeofday K w1 = (Ok t2, w2)" using gettimeofday_run [of K w1] by blast
  have "icmp_packet_ok K buf len = io_return 0"
    using icmp_packet_ok_run [OF assms(3-7), of K] assms(8,9) by simp
  then show ?thesis
    unfolding i_receive_def Let_def
    by (simp add: io_bind_Ok [where m = "recvfrom K (i_rawsock w) (il_buf l)" and w = w, OF assms(2)]
        io_bind_Ok [where m = "gettimeofday K" and w = w1, OF t2]
        io_then_def printf_def do_call_def io_bind_assoc)
      (simp add: io_bind_def sys_r_run)
qed

definition echo_reply :: "byte list" where
  "echo_reply = [69, 0, 0, 0, 0, 0, 0, 0, 64, 1, 0, 0, 1, 2, 3, 4, 5, 6, 7, 8, 0, 0] @ replicate 490 0"

definition arrives :: "reply" where
  "arrives = (ret_only 28)\<lparr>r_bytes := echo_reply\<rparr>"

theorem other_packet_ends_program_witness:
  "fst (i_receive scripted zero_time i_local_start (i_start [arrives])) = Exited 0"
proof -
  have len: "length echo_reply = 512" by (simp add: echo_reply_def)
  have rcv: "recvfrom scripted (i_rawsock (i_start [arrives])) (il_buf i_local_start) (i_start [arrives]) =
      (Ok (28, echo_reply, 0), snd (recvfrom scripted (i_rawsock (i_start [arrives])) (il_buf i_local_start) (i_start [arrives])))"
    using len by (simp add: recvfrom_def io_bind_def sys_r_run scripted_def i_start_def arrives_def ret_only_def
        i_local_start_def int_at_def overwrite_def)
  show ?thesis
    by (rule other_packet_ends_program [OF _ rcv len, where h = 20 and type = 0 and code = 0])
      (simp_all add: i_local_start_def echo_reply_def ip_hlen_def u8_ok icmp_consts)
qed

end
