(* ===== verification/ErrLog.thy ===== *)
theory ErrLog
  imports Posix CStr
begin

text \<open>
  apue/lib: the error routines (error.c), those for daemons (errorlog.c), and the two functions
  that print a status or a signal mask (prexit.c, prmask.c). A variable argument list is a list of
  arguments; \<open>render\<close> is the part of \<open>vsnprintf\<close> the programs use (\<open>%d\<close>, \<open>%ld\<close>, \<open>%s\<close>). The message
  of an error number comes from the library. \<open>log_to_stderr\<close>, which the caller must define, is an
  argument.

  The lemmas: the line a message is built in never overflows, the fatal routines never return.
\<close>

section \<open>Building the line\<close>

definition int_string :: "int \<Rightarrow> string" where
  "int_string n = (if n < 0 then CHR ''-'' # dec_string (nat (- n)) else dec_string (nat n))"

fun render :: "string \<Rightarrow> arg list \<Rightarrow> string" where
  "render (c # d # fs) as =
     (if c = CHR ''%'' then
        (case as of
           AInt n # rest \<Rightarrow>
             if d = CHR ''d'' then int_string n @ render fs rest
             else if d = CHR ''l'' \<and> fs \<noteq> [] \<and> hd fs = CHR ''d'' then int_string n @ render (tl fs) rest
             else c # render (d # fs) as
         | AStr t # rest \<Rightarrow> if d = CHR ''s'' then t @ render fs rest else c # render (d # fs) as
         | _ \<Rightarrow> c # render (d # fs) as)
      else c # render (d # fs) as)"
| "render fs as = fs"

definition MAXLINE :: nat where "MAXLINE = 4096"

text \<open>
  The buffer of \<open>MAXLINE\<close> characters: the rendered message, the text of the error if asked for, a
  newline. \<open>snprintf\<close> with size \<open>n\<close> stores at most \<open>n - 1\<close> characters; \<open>strcat\<close> does not check.
\<close>

definition err_line :: "bool \<Rightarrow> string \<Rightarrow> string \<Rightarrow> arg list \<Rightarrow> string result" where
  "err_line errnoflag errtext fmt ap =
     (let buf = take (MAXLINE - 1 - 1) (render fmt ap);
          buf = (if errnoflag then buf @ take (MAXLINE - length buf - 1 - 1) ('': '' @ errtext) else buf);
          buf = buf @ [NL]
      in if length buf + 1 \<le> MAXLINE then Inr buf else Inl OutOfBounds)"

definition error_text :: "'k kernel \<Rightarrow> bool \<Rightarrow> int \<Rightarrow> (('k, 'z) world_scheme, string) io" where
  "error_text K errnoflag error =
     (if errnoflag then io_bind (sys_r K ''strerror'' [AInt error]) (\<lambda>r. io_return (r_str r)) else io_return [])"

section \<open>error.c\<close>

definition err_doit :: "'k kernel \<Rightarrow> bool \<Rightarrow> int \<Rightarrow> string \<Rightarrow> arg list \<Rightarrow> (('k, 'z) world_scheme, unit) io" where
  "err_doit K errnoflag error fmt ap =
     io_bind (error_text K errnoflag error) (\<lambda>tx.
     io_bind (io_lift (err_line errnoflag tx fmt ap)) (\<lambda>buf.
     io_then (do_call K ''fflush'' [AStr ''stdout''])
     (io_then (do_call K ''fputs'' [AStr buf, AStr ''stderr'']) (do_call K ''fflush'' [ANull]))))"

definition err_ret :: "'k kernel \<Rightarrow> string \<Rightarrow> arg list \<Rightarrow> (('k, 'z) world_scheme, unit) io" where
  "err_ret K fmt ap = io_bind get_errno (\<lambda>e. err_doit K True e fmt ap)"

definition err_sys :: "'k kernel \<Rightarrow> string \<Rightarrow> arg list \<Rightarrow> (('k, 'z) world_scheme, 'a) io" where
  "err_sys K fmt ap = io_bind get_errno (\<lambda>e. io_then (err_doit K True e fmt ap) (io_exit 1))"

definition err_cont :: "'k kernel \<Rightarrow> int \<Rightarrow> string \<Rightarrow> arg list \<Rightarrow> (('k, 'z) world_scheme, unit) io" where
  "err_cont K error fmt ap = err_doit K True error fmt ap"

definition err_exit :: "'k kernel \<Rightarrow> int \<Rightarrow> string \<Rightarrow> arg list \<Rightarrow> (('k, 'z) world_scheme, 'a) io" where
  "err_exit K error fmt ap = io_then (err_doit K True error fmt ap) (io_exit 1)"

definition err_dump :: "'k kernel \<Rightarrow> string \<Rightarrow> arg list \<Rightarrow> (('k, 'z) world_scheme, 'a) io" where
  "err_dump K fmt ap =
     io_bind get_errno (\<lambda>e. io_then (err_doit K True e fmt ap) (io_then (abort K :: (('k, 'z) world_scheme, unit) io) (io_exit 1)))"

definition err_msg :: "'k kernel \<Rightarrow> string \<Rightarrow> arg list \<Rightarrow> (('k, 'z) world_scheme, unit) io" where
  "err_msg K fmt ap = err_doit K False 0 fmt ap"

definition err_quit :: "'k kernel \<Rightarrow> string \<Rightarrow> arg list \<Rightarrow> (('k, 'z) world_scheme, 'a) io" where
  "err_quit K fmt ap = io_then (err_doit K False 0 fmt ap) (io_exit 1)"

section \<open>errorlog.c\<close>

definition LOG_ERR :: int where "LOG_ERR = 3"

definition log_open :: "'k kernel \<Rightarrow> int \<Rightarrow> string \<Rightarrow> int \<Rightarrow> int \<Rightarrow> (('k, 'z) world_scheme, unit) io" where
  "log_open K log_to_stderr ident opt facility =
     io_when (log_to_stderr = 0) (do_call K ''openlog'' [AStr ident, AInt opt, AInt facility])"

definition log_doit :: "'k kernel \<Rightarrow> int \<Rightarrow> bool \<Rightarrow> int \<Rightarrow> int \<Rightarrow> string \<Rightarrow> arg list \<Rightarrow> (('k, 'z) world_scheme, unit) io" where
  "log_doit K log_to_stderr errnoflag error priority fmt ap =
     io_bind (error_text K errnoflag error) (\<lambda>tx.
     io_bind (io_lift (err_line errnoflag tx fmt ap)) (\<lambda>buf.
     if log_to_stderr \<noteq> 0 then
       io_then (do_call K ''fflush'' [AStr ''stdout''])
       (io_then (do_call K ''fputs'' [AStr buf, AStr ''stderr'']) (do_call K ''fflush'' [AStr ''stderr'']))
     else do_call K ''syslog'' [AInt priority, AStr ''%s'', AStr buf]))"

definition log_ret :: "'k kernel \<Rightarrow> int \<Rightarrow> string \<Rightarrow> arg list \<Rightarrow> (('k, 'z) world_scheme, unit) io" where
  "log_ret K log_to_stderr fmt ap =
     io_bind get_errno (\<lambda>e. log_doit K log_to_stderr True e LOG_ERR fmt ap)"

definition log_sys :: "'k kernel \<Rightarrow> int \<Rightarrow> string \<Rightarrow> arg list \<Rightarrow> (('k, 'z) world_scheme, 'a) io" where
  "log_sys K log_to_stderr fmt ap =
     io_bind get_errno (\<lambda>e. io_then (log_doit K log_to_stderr True e LOG_ERR fmt ap) (io_exit 2))"

definition log_msg :: "'k kernel \<Rightarrow> int \<Rightarrow> string \<Rightarrow> arg list \<Rightarrow> (('k, 'z) world_scheme, unit) io" where
  "log_msg K log_to_stderr fmt ap = log_doit K log_to_stderr False 0 LOG_ERR fmt ap"

definition log_quit :: "'k kernel \<Rightarrow> int \<Rightarrow> string \<Rightarrow> arg list \<Rightarrow> (('k, 'z) world_scheme, 'a) io" where
  "log_quit K log_to_stderr fmt ap =
     io_then (log_doit K log_to_stderr False 0 LOG_ERR fmt ap) (io_exit 2)"

definition log_exit :: "'k kernel \<Rightarrow> int \<Rightarrow> int \<Rightarrow> string \<Rightarrow> arg list \<Rightarrow> (('k, 'z) world_scheme, 'a) io" where
  "log_exit K log_to_stderr error fmt ap =
     io_then (log_doit K log_to_stderr True error LOG_ERR fmt ap) (io_exit 2)"

section \<open>prexit.c, prmask.c\<close>

text \<open>A wait status as Linux encodes it.\<close>

definition WTERMSIG :: "int \<Rightarrow> int" where "WTERMSIG status = and status 127"
definition WEXITSTATUS :: "int \<Rightarrow> int" where "WEXITSTATUS status = and (status div 256) 255"
definition WIFEXITED :: "int \<Rightarrow> bool" where "WIFEXITED status \<longleftrightarrow> WTERMSIG status = 0"
definition WIFSTOPPED :: "int \<Rightarrow> bool" where "WIFSTOPPED status \<longleftrightarrow> and status 255 = 127"
definition WIFSIGNALED :: "int \<Rightarrow> bool" where
  "WIFSIGNALED status \<longleftrightarrow> WTERMSIG status \<noteq> 0 \<and> WTERMSIG status \<noteq> 127"
definition WCOREDUMP :: "int \<Rightarrow> bool" where "WCOREDUMP status \<longleftrightarrow> and status 128 \<noteq> 0"

definition pr_exit :: "'k kernel \<Rightarrow> int \<Rightarrow> (('k, 'z) world_scheme, unit) io" where
  "pr_exit K status =
     (if WIFEXITED status then printf K ''normal termination, exit status = %d'' [AInt (WEXITSTATUS status)]
      else if WIFSIGNALED status then
        printf K ''abnormal termination, signal number = %d%s''
          [AInt (WTERMSIG status), AStr (if WCOREDUMP status then '' (core file generated)'' else '''')]
      else if WIFSTOPPED status then printf K ''child stopped, signal number = %d'' [AInt (WEXITSTATUS status)]
      else io_return ())"

definition SIGINT :: int where "SIGINT = 2"
definition SIGQUIT :: int where "SIGQUIT = 3"
definition SIGUSR1 :: int where "SIGUSR1 = 10"
definition SIGUSR2 :: int where "SIGUSR2 = 12"
definition SIGALRM :: int where "SIGALRM = 14"

text \<open>\<open>sigprocmask\<close> reports the mask as the list of its signals.\<close>

definition pr_mask :: "'k kernel \<Rightarrow> string \<Rightarrow> (('k, 'z) world_scheme, unit) io" where
  "pr_mask K str =
     io_bind get_errno (\<lambda>errno_save.
     io_bind (sys_r K ''sigprocmask'' [AInt 0, ANull]) (\<lambda>r.
     io_then
       (if r_ret r < 0 then err_ret K ''sigprocmask error'' []
        else
          let sigset = set (r_ints r) in
          io_seq
            [printf K ''%s'' [AStr str],
             io_when (SIGINT \<in> sigset) (printf K '' SIGINT'' []),
             io_when (SIGQUIT \<in> sigset) (printf K '' SIGQUIT'' []),
             io_when (SIGUSR1 \<in> sigset) (printf K '' SIGUSR1'' []),
             io_when (SIGALRM \<in> sigset) (printf K '' SIGALRM'' []),
             printf K [NL] []])
       (set_errno errno_save)))"

text \<open>The version of the tenth chapter (pr_sigmask.c).\<close>

definition pr_mask_ch10 :: "'k kernel \<Rightarrow> string \<Rightarrow> (('k, 'z) world_scheme, unit) io" where
  "pr_mask_ch10 K ptr =
     io_bind get_errno (\<lambda>errno_save.
     io_bind (sys_r K ''sigprocmask'' [AInt 0, ANull]) (\<lambda>r.
     if r_ret r < 0 then err_sys K ''sigprocmask error'' []
     else
       let sigset = set (r_ints r) in
       io_seq
         [printf K ''%s '' [AStr ptr],
          io_when (SIGINT \<in> sigset) (printf K ''SIGINT'' []),
          io_when (SIGQUIT \<in> sigset) (printf K ''SIGQUIT'' []),
          io_when (SIGUSR1 \<in> sigset) (printf K ''SIGUSR1'' []),
          io_when (SIGUSR2 \<in> sigset) (printf K ''SIGUSR2'' []),
          io_when (SIGINT \<in> sigset) (printf K ''SIGINT'' []),
          printf K [NL] [],
          set_errno errno_save]))"

section \<open>strerror.c\<close>

text \<open>
  The table of \<open>n\<close> messages belongs to the library. The test is \<open>error <= sys_nerr\<close>, so the entry
  one past the table is read; the buffer for the other message has 30 characters.
\<close>

definition strerror :: "string list \<Rightarrow> int \<Rightarrow> string result" where
  "strerror sys_errlist error =
     (let sys_nerr = int (length sys_errlist) in
      if error \<ge> 0 \<and> error \<le> sys_nerr then
        rbind (rd error 1 sys_errlist) (\<lambda>m. Inr (hd m))
      else
        let mesg = ''Unknown error ('' @ int_string error @ '')'' in
        if length mesg < 30 then Inr mesg else Inl OutOfBounds)"

section \<open>Lemmas\<close>

lemma err_line_ok: "\<exists>buf. err_line flag tx fmt ap = Inr buf \<and> length buf < MAXLINE \<and> last buf = NL"
proof -
  have m: "4 \<le> MAXLINE" by (simp add: MAXLINE_def)
  let ?b = "take (MAXLINE - 1 - 1) (render fmt ap)"
  have b: "length ?b + 2 \<le> MAXLINE" using m by auto
  have t: "length (take (MAXLINE - length ?b - 1 - 1) ('': '' @ tx)) + (length ?b + 2) \<le> MAXLINE"
    using b unfolding length_take by linarith
  show ?thesis
  proof (cases flag)
    case True
    with t show ?thesis unfolding err_line_def Let_def by (simp del: length_take take_append)
  next
    case False
    with b show ?thesis unfolding err_line_def Let_def by (simp del: length_take)
  qed
qed

lemma total_lift: "total (\<lambda>w. P w \<and> r = Inr a) (io_lift r) (\<lambda>b w. P w \<and> b = a)"
  by (auto simp: total_def)

lemma total_error_text: "stable P \<Longrightarrow> total P (error_text K flag e) (\<lambda>_. P)"
  unfolding error_text_def
  by (rule total_if, rule total_bind [OF total_sys_r], assumption) (rule total_return, assumption)+

lemma total_err_doit:
  assumes "stable P"
  shows "total P (err_doit K flag e fmt ap) (\<lambda>_. P)"
  unfolding err_doit_def
proof (rule total_bind [OF total_error_text [OF assms]])
  fix tx
  obtain buf where b: "err_line flag tx fmt ap = Inr buf" using err_line_ok by blast
  show "total P (io_bind (io_lift (err_line flag tx fmt ap)) (\<lambda>buf.
      io_then (do_call K ''fflush'' [AStr ''stdout''])
      (io_then (do_call K ''fputs'' [AStr buf, AStr ''stderr'']) (do_call K ''fflush'' [ANull])))) (\<lambda>_. P)"
    unfolding b by (intro total_bind_lift total_then [OF total_call] total_call assms)
qed

lemma total_log_doit:
  assumes "stable P"
  shows "total P (log_doit K to flag e pri fmt ap) (\<lambda>_. P)"
  unfolding log_doit_def
proof (rule total_bind [OF total_error_text [OF assms]])
  fix tx
  obtain buf where b: "err_line flag tx fmt ap = Inr buf" using err_line_ok by blast
  show "total P (io_bind (io_lift (err_line flag tx fmt ap)) (\<lambda>buf.
      if to \<noteq> 0 then
        io_then (do_call K ''fflush'' [AStr ''stdout''])
        (io_then (do_call K ''fputs'' [AStr buf, AStr ''stderr'']) (do_call K ''fflush'' [AStr ''stderr'']))
      else do_call K ''syslog'' [AInt pri, AStr ''%s'', AStr buf])) (\<lambda>_. P)"
    unfolding b by (intro total_bind_lift total_if total_then [OF total_call] total_call assms)
qed

lemma stable_True: "stable (\<lambda>_. True)"
  by (simp add: stable_def)

lemma err_sys_exits: "fst (err_sys K fmt ap w) = Exited 1"
proof -
  obtain w' where "err_doit K True (w_errno w) fmt ap w = (Ok (), w')"
    using totalD [OF total_err_doit [OF stable_True, of K True "w_errno w" fmt ap], of w] by auto
  then show ?thesis by (simp add: err_sys_def get_errno_def io_then_def io_bind_def)
qed

lemma leaves_err_doit [leaves]: "leaves S (err_doit K flag e fmt ap)"
  unfolding err_doit_def error_text_def by (intro leaves)

lemma leaves_err [leaves]:
  "leaves S (err_ret K fmt ap)" "1 \<in> S \<Longrightarrow> leaves S (err_sys K fmt ap)" "1 \<in> S \<Longrightarrow> leaves S (err_quit K fmt ap)"
  "1 \<in> S \<Longrightarrow> leaves S (err_exit K e fmt ap)" "leaves S (err_msg K fmt ap)"
  unfolding err_ret_def err_sys_def err_quit_def err_exit_def err_msg_def by (intro leaves; assumption)+

section \<open>The properties\<close>


text \<open>
  \<open>pr_mask\<close>, which signal handlers call, leaves \<open>errno\<close> as it found it, also when
  \<open>sigprocmask\<close> fails and whatever the calls it makes store there.
\<close>

theorem pr_mask_keeps_errno:
  "\<exists>w'. pr_mask K str w = (Ok (), w') \<and> w_errno w' = w_errno w"
proof -
  let ?T = "\<lambda>_ :: ('a, 'b) world_scheme. True"
  have seq: "total ?T (io_seq ms) (\<lambda>_. ?T)" if "\<forall>m \<in> set ms. total ?T m (\<lambda>_. ?T)" for ms
    using that by (induction ms) (auto intro: total_then total_return simp del: io_return_run)
  have p: "total ?T (printf K f as) (\<lambda>_. ?T)" for f as by (rule total_printf [OF stable_True])
  have body: "total ?T (if r_ret r < 0 then err_ret K ''sigprocmask error'' [] else let sigset = set (r_ints r) in io_seq
      [printf K ''%s'' [AStr str], io_when (SIGINT \<in> sigset) (printf K '' SIGINT'' []),
       io_when (SIGQUIT \<in> sigset) (printf K '' SIGQUIT'' []), io_when (SIGUSR1 \<in> sigset) (printf K '' SIGUSR1'' []),
       io_when (SIGALRM \<in> sigset) (printf K '' SIGALRM'' []), printf K [NL] []]) (\<lambda>_. ?T)" for r
    unfolding Let_def err_ret_def get_errno_def
    by (intro total_if total_bind_get seq)
      (auto intro: total_when p total_weaken [OF total_err_doit [OF stable_True]])
  have "total ?T (io_bind (sys_r K ''sigprocmask'' [AInt 0, ANull]) (\<lambda>r. io_then
      (if r_ret r < 0 then err_ret K ''sigprocmask error'' [] else let sigset = set (r_ints r) in io_seq
      [printf K ''%s'' [AStr str], io_when (SIGINT \<in> sigset) (printf K '' SIGINT'' []),
       io_when (SIGQUIT \<in> sigset) (printf K '' SIGQUIT'' []), io_when (SIGUSR1 \<in> sigset) (printf K '' SIGUSR1'' []),
       io_when (SIGALRM \<in> sigset) (printf K '' SIGALRM'' []), printf K [NL] []])
      (set_errno (w_errno w)))) (\<lambda>_ w'. w_errno w' = w_errno w)"
    by (rule total_bind [OF total_sys_r [OF stable_True]], rule total_then [OF body])
      (simp add: set_errno_def total_mod del: io_mod_run)
  from totalD [OF this, of w] show ?thesis
    by (auto simp: pr_mask_def get_errno_def)
qed

text \<open>
  \<open>strerror\<close> returns the table's message for every number inside the table, but the
  test \<open>error <= sys_nerr\<close> lets the number just past its end through, which reads outside it.
\<close>

theorem strerror_off_by_one:
  "(\<forall>i < length sys_errlist. strerror sys_errlist (int i) = Inr (sys_errlist ! i)) \<and>
   strerror sys_errlist (int (length sys_errlist)) = Inl OutOfBounds"
  by (simp add: strerror_def Let_def rd_def slice_def hd_drop_conv_nth)

end
