(* ===== verification/FdIO.thy ===== *)
theory FdIO
  imports ErrLog
begin

text \<open>
  apue/lib: reading and writing whole buffers (readn.c, writen.c), the file status and descriptor
  flags and record locks (setfl.c, clrfl.c, setfd.c, lockreg.c, locktest.c), the limits found at
  run time (openmax.c, pathalloc.c), UNIX-domain sockets (spipe.c, nspipe.c, servlisten.c,
  servaccept.c, cliconn.c). Static variables extend the world.

  The lemmas: \<open>writen\<close> hands over every byte in order and \<open>readn\<close> delivers what was read, in as
  many calls as it takes; \<open>serv_accept\<close> writes past the block it has allocated.
\<close>

section \<open>Constants\<close>

definition EINTR :: int where "EINTR = 4"
definition EAGAIN :: int where "EAGAIN = 11"
definition EACCES :: int where "EACCES = 13"
definition EINVAL :: int where "EINVAL = 22"
definition EMFILE :: int where "EMFILE = 24"
definition ENAMETOOLONG :: int where "ENAMETOOLONG = 36"

definition F_GETFD :: int where "F_GETFD = 1"
definition F_SETFD :: int where "F_SETFD = 2"
definition F_GETFL :: int where "F_GETFL = 3"
definition F_SETFL :: int where "F_SETFL = 4"
definition F_GETLK :: int where "F_GETLK = 5"
definition F_SETLK :: int where "F_SETLK = 6"
definition F_SETLKW :: int where "F_SETLKW = 7"
definition F_RDLCK :: int where "F_RDLCK = 0"
definition F_WRLCK :: int where "F_WRLCK = 1"
definition F_UNLCK :: int where "F_UNLCK = 2"
definition FD_CLOEXEC :: int where "FD_CLOEXEC = 1"
definition AF_UNIX :: int where "AF_UNIX = 1"
definition SOCK_STREAM :: int where "SOCK_STREAM = 1"

section \<open>readn, writen\<close>

definition size_t :: "int \<Rightarrow> int" where
  "size_t v = v mod 18446744073709551616"

text \<open>The state of the loop: what is left and what has been read so far.\<close>

definition readn_turn ::
  "'k kernel \<Rightarrow> int \<Rightarrow> int \<Rightarrow> int \<times> byte list \<Rightarrow> (('k, 'z) world_scheme, (int \<times> byte list) + (int \<times> byte list)) io" where
  "readn_turn K fd n st =
     (case st of (nleft, got) \<Rightarrow>
        if nleft > 0 then
          io_bind (sys_r K ''read'' [AInt fd, AInt nleft]) (\<lambda>r.
          if r_ret r < 0 then
            (if nleft = n then io_return (Inr (- 1, got)) else io_return (Inr (n - nleft, got)))
          else if r_ret r = 0 then io_return (Inr (n - nleft, got))
          else io_return (Inl (size_t (nleft - r_ret r), got @ r_bytes r)))
        else io_return (Inr (n - nleft, got)))"

definition readn :: "'k kernel \<Rightarrow> nat \<Rightarrow> int \<Rightarrow> int \<Rightarrow> (('k, 'z) world_scheme, int \<times> byte list) io" where
  "readn K fuel fd n = io_loop fuel (readn_turn K fd n) (n, [])"

definition writen_turn ::
  "'k kernel \<Rightarrow> int \<Rightarrow> int \<Rightarrow> int \<times> byte list \<Rightarrow> (('k, 'z) world_scheme, (int \<times> byte list) + int) io" where
  "writen_turn K fd n st =
     (case st of (nleft, ptr) \<Rightarrow>
        if nleft > 0 then
          io_bind (sys K ''write'' [AInt fd, ABytes (take (nat nleft) ptr)]) (\<lambda>nwritten.
          if nwritten < 0 then
            (if nleft = n then io_return (Inr (- 1)) else io_return (Inr (n - nleft)))
          else if nwritten = 0 then io_return (Inr (n - nleft))
          else io_return (Inl (size_t (nleft - nwritten), drop (nat nwritten) ptr)))
        else io_return (Inr (n - nleft)))"

definition writen :: "'k kernel \<Rightarrow> nat \<Rightarrow> int \<Rightarrow> byte list \<Rightarrow> int \<Rightarrow> (('k, 'z) world_scheme, int) io" where
  "writen K fuel fd ptr n = io_loop fuel (writen_turn K fd n) (n, ptr)"

section \<open>Flags and locks\<close>

definition set_fl :: "'k kernel \<Rightarrow> int \<Rightarrow> int \<Rightarrow> (('k, 'z) world_scheme, unit) io" where
  "set_fl K fd flags =
     io_bind (sys K ''fcntl'' [AInt fd, AInt F_GETFL, AInt 0]) (\<lambda>val.
     if val < 0 then err_sys K ''fcntl F_GETFL error'' []
     else
       io_bind (sys K ''fcntl'' [AInt fd, AInt F_SETFL, AInt (or val flags)]) (\<lambda>r.
       if r < 0 then err_sys K ''fcntl F_SETFL error'' [] else io_return ()))"

definition clr_fl :: "'k kernel \<Rightarrow> int \<Rightarrow> int \<Rightarrow> (('k, 'z) world_scheme, unit) io" where
  "clr_fl K fd flags =
     io_bind (sys K ''fcntl'' [AInt fd, AInt F_GETFL, AInt 0]) (\<lambda>val.
     if val < 0 then err_sys K ''fcntl F_GETFL error'' []
     else
       io_bind (sys K ''fcntl'' [AInt fd, AInt F_SETFL, AInt (and val (not flags))]) (\<lambda>r.
       if r < 0 then err_sys K ''fcntl F_SETFL error'' [] else io_return ()))"

definition set_cloexec :: "'k kernel \<Rightarrow> int \<Rightarrow> (('k, 'z) world_scheme, int) io" where
  "set_cloexec K fd =
     io_bind (sys K ''fcntl'' [AInt fd, AInt F_GETFD, AInt 0]) (\<lambda>val.
     if val < 0 then io_return (- 1)
     else sys K ''fcntl'' [AInt fd, AInt F_SETFD, AInt (or val FD_CLOEXEC)])"

text \<open>A \<open>struct flock\<close> is passed as its type, start, whence and length.\<close>

definition lock_reg :: "'k kernel \<Rightarrow> int \<Rightarrow> int \<Rightarrow> int \<Rightarrow> int \<Rightarrow> int \<Rightarrow> int \<Rightarrow> (('k, 'z) world_scheme, int) io" where
  "lock_reg K fd cmd type offset whence len =
     sys K ''fcntl'' [AInt fd, AInt cmd, AInt type, AInt offset, AInt whence, AInt len]"

text \<open>The reply to \<open>F_GETLK\<close> carries the type and the process of the lock in the way.\<close>

definition lock_test :: "'k kernel \<Rightarrow> int \<Rightarrow> int \<Rightarrow> int \<Rightarrow> int \<Rightarrow> int \<Rightarrow> (('k, 'z) world_scheme, int) io" where
  "lock_test K fd type offset whence len =
     io_bind (sys_r K ''fcntl'' [AInt fd, AInt F_GETLK, AInt type, AInt offset, AInt whence, AInt len]) (\<lambda>r.
     if r_ret r < 0 then err_sys K ''fcntl error'' []
     else if int_at r 0 = F_UNLCK then io_return 0
     else io_return (int_at r 1))"

section \<open>Limits\<close>

record 'k lim = "'k world" +
  lm_openmax :: int
  lm_posix_version :: int
  lm_xsi_version :: int
  lm_pathmax :: int

definition OPEN_MAX_GUESS :: int where "OPEN_MAX_GUESS = 256"
definition PATH_MAX_GUESS :: int where "PATH_MAX_GUESS = 1024"

definition open_max :: "'k kernel \<Rightarrow> (('k, 'z) lim_scheme, int) io" where
  "open_max K =
     io_bind (io_get lm_openmax) (\<lambda>v.
     io_then
       (if v = 0 then
          io_then (set_errno 0)
          (io_bind (sys K ''sysconf'' [AStr ''_SC_OPEN_MAX'']) (\<lambda>m.
           io_then (io_mod (\<lambda>w. w\<lparr>lm_openmax := m\<rparr>))
           (if m < 0 then
              io_bind get_errno (\<lambda>e.
              if e = 0 then io_mod (\<lambda>w. w\<lparr>lm_openmax := OPEN_MAX_GUESS\<rparr>)
              else err_sys K ''sysconf error for _SC_OPEN_MAX'' [])
            else io_return ())))
        else io_return ())
     (io_get lm_openmax))"

text \<open>The result is the address of the block and its size.\<close>

definition path_alloc :: "'k kernel \<Rightarrow> (('k, 'z) lim_scheme, int \<times> int) io" where
  "path_alloc K =
     io_bind (io_get id) (\<lambda>w.
     io_then
       (if lm_posix_version w = 0 then
          io_bind (sys K ''sysconf'' [AStr ''_SC_VERSION'']) (\<lambda>v. io_mod (\<lambda>w. w\<lparr>lm_posix_version := v\<rparr>))
        else io_return ())
     (io_then
       (if lm_xsi_version w = 0 then
          io_bind (sys K ''sysconf'' [AStr ''_SC_XOPEN_VERSION'']) (\<lambda>v. io_mod (\<lambda>w. w\<lparr>lm_xsi_version := v\<rparr>))
        else io_return ())
     (io_then
       (if lm_pathmax w = 0 then
          io_then (set_errno 0)
          (io_bind (sys K ''pathconf'' [AStr ''/'', AStr ''_PC_PATH_MAX'']) (\<lambda>m.
           io_then (io_mod (\<lambda>w. w\<lparr>lm_pathmax := m\<rparr>))
           (if m < 0 then
              io_bind get_errno (\<lambda>e.
              if e = 0 then io_mod (\<lambda>w. w\<lparr>lm_pathmax := PATH_MAX_GUESS\<rparr>)
              else err_sys K ''pathconf error for _PC_PATH_MAX'' [])
            else io_mod (\<lambda>w. w\<lparr>lm_pathmax := lm_pathmax w + 1\<rparr>))))
        else io_return ())
     (io_bind (io_get id) (\<lambda>w.
      let sz = (if lm_posix_version w < 200112 \<and> lm_xsi_version w < 4 then lm_pathmax w + 1 else lm_pathmax w) in
      io_bind (sys K ''malloc'' [AInt sz]) (\<lambda>ptr.
      if ptr = 0 then err_sys K ''malloc error for pathname'' [] else io_return (ptr, sz)))))))"

section \<open>UNIX-domain sockets\<close>

definition SUN_PATH :: nat where "SUN_PATH = 108"

text \<open>
  A UNIX-domain address is passed as its path and length. \<open>errout\<close> is the common exit of the
  functions below: it closes the descriptor and keeps \<open>errno\<close>.
\<close>

definition errout :: "'k kernel \<Rightarrow> int \<Rightarrow> int \<Rightarrow> (('k, 'z) world_scheme, unit) io \<Rightarrow> (('k, 'z) world_scheme, int) io" where
  "errout K fd rval clean =
     io_bind get_errno (\<lambda>err.
     io_then (do_call K ''close'' [AInt fd])
     (io_then clean (io_then (set_errno err) (io_return rval))))"

definition unix_addr_len :: "string \<Rightarrow> int" where
  "unix_addr_len path = 2 + int (length path)"

definition serv_listen :: "'k kernel \<Rightarrow> string \<Rightarrow> (('k, 'z) world_scheme, int) io" where
  "serv_listen K name =
     (if length name \<ge> SUN_PATH then io_then (set_errno ENAMETOOLONG) (io_return (- 1))
      else
        io_bind (sys K ''socket'' [AInt AF_UNIX, AInt SOCK_STREAM, AInt 0]) (\<lambda>fd.
        if fd < 0 then io_return (- 2)
        else
          io_then (do_call K ''unlink'' [AStr name])
          (io_bind (sys K ''bind'' [AInt fd, AStr name, AInt (unix_addr_len name)]) (\<lambda>r.
           if r < 0 then errout K fd (- 3) (io_return ())
           else
             io_bind (sys K ''listen'' [AInt fd, AInt 10]) (\<lambda>r.
             if r < 0 then errout K fd (- 4) (io_return ()) else io_return fd)))))"

text \<open>
  The size given to \<open>malloc\<close> is that of a pointer. \<open>accept\<close> reports the client's path; \<open>stat\<close>
  the mode, the three times and the owner.
\<close>

definition S_IFSOCK :: int where "S_IFSOCK = 49152"
definition S_IFMT :: int where "S_IFMT = 61440"
definition STALE :: int where "STALE = 30"

definition serv_accept :: "'k kernel \<Rightarrow> int \<Rightarrow> (('k, 'z) world_scheme, int \<times> int option) io" where
  "serv_accept K listenfd =
     io_bind (sys K ''malloc'' [AInt 8]) (\<lambda>name.
     if name = 0 then io_return (- 1, None)
     else
       io_bind (sys_r K ''accept'' [AInt listenfd]) (\<lambda>a.
       let clifd = r_ret a; path = r_str a; free = do_call K ''free'' [AInt name] in
       if clifd < 0 then io_then free (io_return (- 2, None))
       else if length path + 1 > 8 then io_fault OutOfBounds
       else
         io_bind (sys_r K ''stat'' [AStr path]) (\<lambda>st.
         let mode = int_at st 0 in
         if r_ret st < 0 then io_bind (errout K clifd (- 3) free) (\<lambda>r. io_return (r, None))
         else if and mode S_IFMT \<noteq> S_IFSOCK then io_bind (errout K clifd (- 4) free) (\<lambda>r. io_return (r, None))
         else if and mode 63 \<noteq> 0 \<or> and mode 448 \<noteq> 448 then
           io_bind (errout K clifd (- 5) free) (\<lambda>r. io_return (r, None))
         else
           io_bind (sys K ''time'' []) (\<lambda>now.
           let staletime = now - STALE in
           if int_at st 1 < staletime \<or> int_at st 2 < staletime \<or> int_at st 3 < staletime then
             io_bind (errout K clifd (- 6) free) (\<lambda>r. io_return (r, None))
           else
             io_then (do_call K ''unlink'' [AStr path])
             (io_then free (io_return (clifd, Some (int_at st 4))))))))"

definition pad5 :: "string \<Rightarrow> string" where
  "pad5 s = replicate (5 - length s) CHR ''0'' @ s"

definition cli_path :: "int \<Rightarrow> string" where
  "cli_path pid = ''/var/tmp/'' @ pad5 (int_string pid)"

definition cli_conn :: "'k kernel \<Rightarrow> string \<Rightarrow> (('k, 'z) world_scheme, int) io" where
  "cli_conn K name =
     (if length name \<ge> SUN_PATH then io_then (set_errno ENAMETOOLONG) (io_return (- 1))
      else
        io_bind (sys K ''socket'' [AInt AF_UNIX, AInt SOCK_STREAM, AInt 0]) (\<lambda>fd.
        if fd < 0 then io_return (- 1)
        else
          io_bind (sys K ''getpid'' []) (\<lambda>pid.
          let path = cli_path pid; unlink = do_call K ''unlink'' [AStr path] in
          io_then (printf K ''file is %s'' [AStr path])
          (io_then unlink
          (io_bind (sys K ''bind'' [AInt fd, AStr path, AInt (unix_addr_len path)]) (\<lambda>r.
           if r < 0 then errout K fd (- 2) (io_return ())
           else
             io_bind (sys K ''chmod'' [AStr path, AInt 448]) (\<lambda>r.
             if r < 0 then errout K fd (- 3) unlink
             else
               io_bind (sys K ''connect'' [AInt fd, AStr name, AInt (unix_addr_len name)]) (\<lambda>r.
               if r < 0 then errout K fd (- 4) unlink else io_return fd))))))))"

text \<open>The two descriptors are numbers of the reply.\<close>

definition fd_pipe :: "'k kernel \<Rightarrow> (('k, 'z) world_scheme, int \<times> int \<times> int) io" where
  "fd_pipe K =
     io_bind (sys_r K ''socketpair'' [AInt AF_UNIX, AInt SOCK_STREAM, AInt 0]) (\<lambda>r.
     io_return (r_ret r, int_at r 0, int_at r 1))"

definition ns_pipe :: "'k kernel \<Rightarrow> string \<Rightarrow> (('k, 'z) world_scheme, int \<times> int \<times> int) io" where
  "ns_pipe K name =
     io_bind (fd_pipe K) (\<lambda>(r, fd0, fd1).
     if r < 0 then io_return (- 1, fd0, fd1)
     else
       io_then (do_call K ''unlink'' [AStr name])
       (if length name \<ge> SUN_PATH then io_fault OutOfBounds
        else
          io_bind (sys K ''bind'' [AInt fd0, AStr name, AInt (int (length name) + 2)]) (\<lambda>r.
          io_return (r, fd0, fd1))))"
section \<open>Whole buffers\<close>

text \<open>The bytes the calls of \<open>write\<close> in a trace have taken for a descriptor.\<close>

definition taken :: "int \<Rightarrow> call \<times> int \<Rightarrow> byte list" where
  "taken fd c =
     (case c of
        ((nm, [AInt d, ABytes bs]), r) \<Rightarrow> if nm = ''write'' \<and> d = fd then take (nat r) bs else []
      | _ \<Rightarrow> [])"

definition accepted :: "int \<Rightarrow> (call \<times> int) list \<Rightarrow> byte list" where
  "accepted fd tr = concat (map (taken fd) tr)"

text \<open>What a kernel documents of \<open>write\<close>: it takes at most what it is given.\<close>

definition write_bounded :: "'k kernel \<Rightarrow> bool" where
  "write_bounded K \<longleftrightarrow> (\<forall>fd bs k. r_ret (fst (K (''write'', [AInt fd, ABytes bs]) k)) \<le> int (length bs))"

definition write_progresses :: "'k kernel \<Rightarrow> bool" where
  "write_progresses K \<longleftrightarrow> (\<forall>fd bs k. bs \<noteq> [] \<longrightarrow> 1 \<le> r_ret (fst (K (''write'', [AInt fd, ABytes bs]) k)))"

lemma sys_write_run:
  "\<exists>w'. sys K ''write'' [AInt fd, ABytes bs] w =
      (Ok (r_ret (fst (K (''write'', [AInt fd, ABytes bs]) (w_kern w)))), w') \<and>
    accepted fd (w_trace w') = accepted fd (w_trace w) @
      take (nat (r_ret (fst (K (''write'', [AInt fd, ABytes bs]) (w_kern w))))) bs"
  by (simp add: sys_def io_bind_def sys_r_run accepted_def taken_def)

lemma writen_loop:
  assumes K: "write_bounded K" and big: "n < 18446744073709551616"
  shows "length p < fuel \<Longrightarrow> int (length p) \<le> n \<Longrightarrow>
    \<exists>m w' r. io_loop fuel (writen_turn K fd n) (int (length p), p) w = (Ok r, w') \<and> m \<le> length p \<and>
      accepted fd (w_trace w') = accepted fd (w_trace w) @ take m p \<and>
      (r = n - int (length p) + int m \<or> r = - 1 \<and> m = 0 \<and> int (length p) = n) \<and>
      (write_progresses K \<longrightarrow> m = length p \<and> r = n)"
proof (induction fuel arbitrary: p w)
  case 0
  then show ?case by simp
next
  case (Suc fuel)
  show ?case
  proof (cases "p = []")
    case True
    then show ?thesis by (simp add: writen_turn_def)
  next
    case False
    let ?r = "r_ret (fst (K (''write'', [AInt fd, ABytes p]) (w_kern w)))"
    obtain w1 where w1: "sys K ''write'' [AInt fd, ABytes p] w = (Ok ?r, w1)"
      "accepted fd (w_trace w1) = accepted fd (w_trace w) @ take (nat ?r) p"
      using sys_write_run [of K fd p w] by blast
    have b: "?r \<le> int (length p)" using K by (simp add: write_bounded_def)
    have prog: "1 \<le> ?r" if "write_progresses K" using that False by (simp add: write_progresses_def)
    have turn: "io_loop (Suc fuel) (writen_turn K fd n) (int (length p), p) w =
        (if ?r < 0 then (Ok (if int (length p) = n then - 1 else n - int (length p)), w1)
         else if ?r = 0 then (Ok (n - int (length p)), w1)
         else io_loop fuel (writen_turn K fd n) (size_t (int (length p) - ?r), drop (nat ?r) p) w1)"
      using False w1(1) by (simp add: writen_turn_def io_bind_def)
    show ?thesis
    proof (cases "?r \<le> 0")
      case True
      then have "nat ?r = 0" by simp
      with True turn w1(2) prog show ?thesis by (intro exI [of _ 0]) auto
    next
      case pos: False
      let ?p = "drop (nat ?r) p"
      have len: "length ?p = length p - nat ?r" "nat ?r \<le> length p" using b pos by auto
      then have sz: "size_t (int (length p) - ?r) = int (length ?p)"
        using pos big Suc.prems(2) by (simp add: size_t_def of_nat_diff)
      have "length ?p < fuel" "int (length ?p) \<le> n" using len pos Suc.prems by auto
      from Suc.IH [OF this, of w1] obtain m w' r where m:
        "io_loop fuel (writen_turn K fd n) (int (length ?p), ?p) w1 = (Ok r, w')" "m \<le> length ?p"
        "accepted fd (w_trace w') = accepted fd (w_trace w1) @ take m ?p"
        "r = n - int (length ?p) + int m \<or> r = - 1 \<and> m = 0 \<and> int (length ?p) = n"
        "write_progresses K \<longrightarrow> m = length ?p \<and> r = n" by blast
      have "int (length ?p) \<noteq> n" using len pos Suc.prems(2) by auto
      with m(4) have r: "r = n - int (length p) + int (nat ?r + m)" using len by auto
      have "take (nat ?r + m) p = take (nat ?r) p @ take m ?p" by (simp add: take_add)
      with m w1(2) r len pos turn sz show ?thesis
        by (intro exI [of _ "nat ?r + m"] exI [of _ w'] exI [of _ r]) auto
    qed
  qed
qed

text \<open>
  Claim C25. With a kernel whose \<open>write\<close> never takes more than it is given, \<open>writen\<close> returns with any
  fuel above \<open>n\<close>; the bytes taken are a prefix of the buffer in order, whatever the sizes of the
  single writes; the result is the length of that prefix, or -1 when the first write failed. If
  every write makes progress, all \<open>n\<close> bytes are taken.
\<close>

theorem writen_writes_prefix:
  assumes "write_bounded K" and "length p < fuel" and "int (length p) < 18446744073709551616"
  shows "\<exists>m w' r. writen K fuel fd p (int (length p)) w = (Ok r, w') \<and> m \<le> length p \<and>
    accepted fd (w_trace w') = accepted fd (w_trace w) @ take m p \<and>
    (r = int m \<or> r = - 1 \<and> m = 0) \<and> (write_progresses K \<longrightarrow> m = length p \<and> r = int (length p))"
  using writen_loop [OF assms(1,3,2) order_refl, of fd w] unfolding writen_def by auto

text \<open>What a kernel documents of \<open>read\<close>: as many bytes as it says, at most as many as asked for.\<close>

definition read_bounded :: "'k kernel \<Rightarrow> bool" where
  "read_bounded K \<longleftrightarrow> (\<forall>fd n k. let r = fst (K (''read'', [AInt fd, AInt n]) k) in
     r_ret r \<le> n \<and> (0 < r_ret r \<longrightarrow> int (length (r_bytes r)) = r_ret r))"

lemma readn_loop:
  assumes K: "read_bounded K" and big: "n < 18446744073709551616"
  shows "nleft < int fuel \<Longrightarrow> 0 \<le> nleft \<Longrightarrow> int (length got) = n - nleft \<Longrightarrow>
    \<exists>w' r got'. io_loop fuel (readn_turn K fd n) (nleft, got) w = (Ok (r, got'), w') \<and>
      int (length got') \<le> n \<and> (r = int (length got') \<or> r = - 1 \<and> got' = [])"
proof (induction fuel arbitrary: nleft got w)
  case 0
  then show ?case by simp
next
  case (Suc fuel)
  let ?R = "fst (K (''read'', [AInt fd, AInt nleft]) (w_kern w))"
  have b: "r_ret ?R \<le> nleft" "0 < r_ret ?R \<longrightarrow> int (length (r_bytes ?R)) = r_ret ?R"
    using K by (simp_all add: read_bounded_def Let_def)
  obtain w1 where w1: "sys_r K ''read'' [AInt fd, AInt nleft] w = (Ok ?R, w1)" by (simp add: sys_r_run)
  show ?case
  proof (cases "0 < nleft \<and> 0 < r_ret ?R")
    case False
    with w1 Suc.prems show ?thesis by (auto simp: readn_turn_def io_bind_def)
  next
    case True
    then have sz: "size_t (nleft - r_ret ?R) = nleft - r_ret ?R"
      using b(1) big Suc.prems by (simp add: size_t_def)
    have "\<exists>w' r got'. io_loop fuel (readn_turn K fd n) (nleft - r_ret ?R, got @ r_bytes ?R) w1 = (Ok (r, got'), w') \<and>
        int (length got') \<le> n \<and> (r = int (length got') \<or> r = - 1 \<and> got' = [])"
      using True b Suc.prems by (intro Suc.IH) auto
    moreover have "io_loop (Suc fuel) (readn_turn K fd n) (nleft, got) w =
        io_loop fuel (readn_turn K fd n) (nleft - r_ret ?R, got @ r_bytes ?R) w1"
      using True w1 sz by (simp add: readn_turn_def io_bind_def)
    ultimately show ?thesis by simp
  qed
qed

text \<open>
  With a kernel whose \<open>read\<close> delivers as many bytes as it says and no more than asked
  for, \<open>readn\<close> returns with any fuel above \<open>n\<close>, never delivers more than \<open>n\<close> bytes, and its result
  is the number of bytes delivered, or -1 with none.
\<close>

theorem readn_counts:
  assumes "read_bounded K" and "0 \<le> n" and "n < int fuel" and "n < 18446744073709551616"
  shows "\<exists>w' r got. readn K fuel fd n w = (Ok (r, got), w') \<and> int (length got) \<le> n \<and>
    (r = int (length got) \<or> r = - 1 \<and> got = [])"
  using readn_loop [OF assms(1,4,3,2), of "[]" fd w] unfolding readn_def by simp

text \<open>
  \<open>serv_accept\<close> allocates as many bytes as a pointer has for the client's path: a client
  that binds to the name \<open>cli_conn\<close> gives it always overflows the block.
\<close>

theorem serv_accept_overflows:
  assumes "fst (sys K ''malloc'' [AInt 8] w) = Ok p" and "p \<noteq> 0"
    and "sys_r K ''accept'' [AInt fd] (snd (sys K ''malloc'' [AInt 8] w)) = (Ok a, w2)"
    and "0 \<le> r_ret a" and "r_str a = cli_path pid"
  shows "fst (serv_accept K fd w) = Faulted OutOfBounds"
proof -
  have "7 < length (cli_path pid)" by (simp add: cli_path_def)
  moreover obtain w1 where "sys K ''malloc'' [AInt 8] w = (Ok p, w1)" using assms(1) by (metis prod.collapse)
  ultimately show ?thesis using assms(2-5) by (simp add: serv_accept_def io_bind_def Let_def)
qed

section \<open>Witnesses\<close>

text \<open>A kernel that takes at most three bytes per write and answers reads with one byte.\<close>

definition slow :: "unit kernel" where
  "slow c k = (case c of
     (nm, [AInt fd, ABytes bs]) \<Rightarrow> (ret_only (min 3 (int (length bs))), k)
   | (nm, [AInt fd, AInt n]) \<Rightarrow> ((ret_only (if n > 0 then 1 else 0))\<lparr>r_bytes := [7]\<rparr>, k)
   | _ \<Rightarrow> (ret_only 0, k))"

lemma slow_bounded: "write_bounded slow" "write_progresses slow"
  by (auto simp: write_bounded_def write_progresses_def slow_def ret_only_def Suc_le_eq)

theorem writen_writes_prefix_witness:
  "\<exists>w'. writen slow 10 1 [1, 2, 3, 4, 5, 6, 7] 7 (start ()) = (Ok 7, w') \<and>
    accepted 1 (w_trace w') = [1, 2, 3, 4, 5, 6, 7]"
  using writen_writes_prefix [OF slow_bounded(1), of "[1, 2, 3, 4, 5, 6, 7]" 10 1 "start ()"] slow_bounded(2)
  by (auto simp: start_def accepted_def)

text \<open>A kernel at the end of its input.\<close>

definition at_end :: "unit kernel" where
  "at_end c k = (case c of
     (nm, [AInt fd, AInt n]) \<Rightarrow> (ret_only (min 0 n), k)
   | _ \<Rightarrow> (ret_only 0, k))"

theorem readn_counts_witness:
  "\<exists>w' r got. readn at_end 10 0 5 (start ()) = (Ok (r, got), w') \<and> int (length got) \<le> 5"
proof -
  have "read_bounded at_end" by (simp add: read_bounded_def at_end_def ret_only_def)
  from readn_counts [OF this, of 5 10 0 "start ()"] show ?thesis by auto
qed

theorem serv_accept_overflows_witness:
  "fst (serv_accept scripted 3 (start [ret_only 1, (ret_only 4)\<lparr>r_str := cli_path 12345\<rparr>])) = Faulted OutOfBounds"
  by (rule serv_accept_overflows [where p = 1 and a = "(ret_only 4)\<lparr>r_str := cli_path 12345\<rparr>" and pid = 12345])
    (simp_all add: sys_def io_bind_def sys_r_run scripted_def start_def ret_only_def)

end
