(* ===== verification/FdPass.thy ===== *)
theory FdPass
  imports FdIO
begin

text \<open>
  apue/lib: passing descriptors between processes (sendfd.c, recvfd.c, senderr.c). A message is
  its data bytes and, in the control buffer, at most one descriptor; \<open>cmptr\<close>, the control buffer
  allocated once, is a global of each module. The final message of the protocol is two bytes, a
  zero and a status; \<open>recv_scan\<close> is the loop of \<open>recv_fd\<close> over a received buffer.

  The lemmas: what \<open>send_fd\<close> sends is what \<open>recv_fd\<close> takes it for; data before it is handed over.
\<close>

section \<open>The code\<close>

record 'k fdp = "'k world" +
  f_send_cmptr :: bool
  f_recv_cmptr :: bool

text \<open>The two data bytes and the descriptor in the control buffer.\<close>

definition send_msg :: "int \<Rightarrow> byte list \<times> int option" where
  "send_msg fd_to_send =
     (if fd_to_send < 0 then
        let b = word_of_int (- fd_to_send) in ([0, if b = 0 then 1 else b], None)
      else ([0, 0], Some fd_to_send))"

definition send_fd :: "'k kernel \<Rightarrow> int \<Rightarrow> int \<Rightarrow> ('k fdp, int) io" where
  "send_fd K fd fd_to_send =
     io_bind
       (if fd_to_send < 0 then io_return True
        else
          io_bind (io_get f_send_cmptr) (\<lambda>have.
          if have then io_return True
          else
            io_bind (sys K ''malloc'' [AInt 20]) (\<lambda>p.
            if p = 0 then io_return False
            else io_then (io_mod (\<lambda>w. w\<lparr>f_send_cmptr := True\<rparr>)) (io_return True)))) (\<lambda>ok.
     if \<not> ok then io_return (- 1)
     else
       io_bind (sys K ''sendmsg'' [AInt fd, ABytes (fst (send_msg fd_to_send)),
                  case snd (send_msg fd_to_send) of None \<Rightarrow> ANull | Some d \<Rightarrow> AInt d]) (\<lambda>r.
       io_return (if r \<noteq> 2 then - 1 else 0)))"

text \<open>
  The loop over the buffer, from position \<open>ptr\<close> with the current \<open>nr\<close>, \<open>status\<close> and \<open>newfd\<close>.
  \<open>Inl\<close> is the message of \<open>err_dump\<close>. After a zero byte \<open>nr\<close> shrinks, which ends the loop.
\<close>

function recv_scan ::
  "byte list \<Rightarrow> int option \<Rightarrow> nat \<Rightarrow> int \<Rightarrow> int \<Rightarrow> int \<Rightarrow> string + (int \<times> int \<times> int)" where
  "recv_scan buf ctl ptr nr status newfd =
     (if int ptr < nr then
        if buf ! ptr = 0 then
          if int (ptr + 1) \<noteq> nr - 1 then Inl ''message format error''
          else
            let status = uint (buf ! (ptr + 1)) in
            if status = 0 then
              case ctl of
                None \<Rightarrow> Inl ''status = 0 but no fd''
              | Some d \<Rightarrow> recv_scan buf ctl (ptr + 1) (nr - 2) status d
            else recv_scan buf ctl (ptr + 1) (nr - 2) status (- status)
        else recv_scan buf ctl (ptr + 1) nr status newfd
      else Inr (nr, status, newfd))"
  by pat_completeness auto
termination
  by (relation "measure (\<lambda>(buf, ctl, ptr, nr, status, newfd). nat (nr - int ptr))") auto

declare recv_scan.simps [simp del]

text \<open>
  One turn of the outer loop; \<open>userfunc\<close> gets the data and returns a number, as a program. The
  reply of \<open>recvmsg\<close> has the data and, when a control message came, the descriptor.
\<close>

definition recv_turn ::
  "'k kernel \<Rightarrow> (byte list \<Rightarrow> ('k fdp, int) io) \<Rightarrow> int \<Rightarrow> int \<times> int \<Rightarrow> ('k fdp, (int \<times> int) + int) io" where
  "recv_turn K userfunc fd st =
     (case st of (status, newfd) \<Rightarrow>
        io_bind (io_get f_recv_cmptr) (\<lambda>have.
        io_bind (if have then io_return True
                 else
                   io_bind (sys K ''malloc'' [AInt 20]) (\<lambda>p.
                   if p = 0 then io_return False
                   else io_then (io_mod (\<lambda>w. w\<lparr>f_recv_cmptr := True\<rparr>)) (io_return True))) (\<lambda>ok.
        if \<not> ok then io_return (Inr (- 1))
        else
          io_bind (sys_r K ''recvmsg'' [AInt fd, AInt (int MAXLINE)]) (\<lambda>m.
          let nr = r_ret m; ctl = (if r_ints m = [] then None else Some (int_at m 0)) in
          if nr < 0 then io_then (err_ret K ''recvmsg error'' []) (io_return (Inr (- 1)))
          else if nr = 0 then io_then (err_ret K ''connection closed by server'' []) (io_return (Inr (- 1)))
          else
            case recv_scan (r_bytes m) ctl 0 nr status newfd of
              Inl msg \<Rightarrow> err_dump K msg []
            | Inr (nr, status, newfd) \<Rightarrow>
                io_bind (if nr > 0 then userfunc (take (nat nr) (r_bytes m)) else io_return nr) (\<lambda>n.
                if nr > 0 \<and> n \<noteq> nr then io_return (Inr (- 1))
                else if status \<ge> 0 then io_return (Inr newfd)
                else io_return (Inl (status, newfd)))))))"

definition recv_fd :: "'k kernel \<Rightarrow> nat \<Rightarrow> (byte list \<Rightarrow> ('k fdp, int) io) \<Rightarrow> int \<Rightarrow> ('k fdp, int) io" where
  "recv_fd K fuel userfunc fd = io_loop fuel (recv_turn K userfunc fd) (- 1, 0)"

text \<open>The message text is written first, then the (negative) error code takes the place of the fd.\<close>

definition send_err :: "'k kernel \<Rightarrow> nat \<Rightarrow> int \<Rightarrow> int \<Rightarrow> byte list \<Rightarrow> ('k fdp, int) io" where
  "send_err K fuel fd errcode msg =
     (let n = int (length msg) in
      io_bind (if n > 0 then writen K fuel fd msg n else io_return n) (\<lambda>r.
      if n > 0 \<and> r \<noteq> n then io_return (- 1)
      else
        io_bind (send_fd K fd (if errcode \<ge> 0 then - 1 else errcode)) (\<lambda>r.
        if r < 0 then io_return (- 1) else io_return 0)))"

section \<open>Lemmas\<close>

lemma recv_scan_data:
  "0 \<notin> set (take (nat nr - ptr) (drop ptr buf)) \<Longrightarrow> nat nr \<le> length buf \<Longrightarrow> int ptr \<le> nr \<Longrightarrow>
   recv_scan buf ctl ptr nr status newfd = Inr (nr, status, newfd)"
proof (induction "nat nr - ptr" arbitrary: ptr)
  case 0
  then have "\<not> int ptr < nr" by linarith
  then show ?case by (subst recv_scan.simps) simp
next
  case (Suc d)
  have lt: "int ptr < nr" "ptr < nat nr" using Suc.hyps(2) by auto
  then have p: "ptr < length buf" using Suc.prems(2) by linarith
  have e: "nat nr - ptr = Suc (nat nr - Suc ptr)" using lt by linarith
  have "drop ptr buf = buf ! ptr # drop (Suc ptr) buf" using p by (rule Cons_nth_drop_Suc [symmetric])
  then have nz: "buf ! ptr \<noteq> 0" "0 \<notin> set (take (nat nr - Suc ptr) (drop (Suc ptr) buf))"
    using Suc.prems(1) unfolding e by auto
  have "recv_scan buf ctl (Suc ptr) nr status newfd = Inr (nr, status, newfd)"
    using Suc.hyps(2) Suc.prems(2) nz(2) lt by (intro Suc.hyps(1)) auto
  with lt nz(1) show ?case by (subst recv_scan.simps) simp
qed

lemma recv_scan_final:
  "0 \<notin> set (drop ptr data) \<Longrightarrow> ptr \<le> length data \<Longrightarrow> (s = 0 \<longrightarrow> ctl \<noteq> None) \<Longrightarrow>
   recv_scan (data @ [0, s]) ctl ptr (int (length data) + 2) status newfd =
     Inr (int (length data), uint s, if s = 0 then the ctl else - uint s)"
proof (induction "length data - ptr" arbitrary: ptr)
  case 0
  then have "ptr = length data" by simp
  then show ?case using 0(4)
    by (subst recv_scan.simps)
      (auto simp: nth_append Let_def recv_scan.simps [of _ _ "Suc (length data)"] word_uint_eq_iff)
next
  case (Suc d)
  then have lt: "ptr < length data" by simp
  then have "drop ptr data = data ! ptr # drop (Suc ptr) data" by (rule Cons_nth_drop_Suc [symmetric])
  then have nz: "data ! ptr \<noteq> 0" "0 \<notin> set (drop (Suc ptr) data)" using Suc.prems(1) by auto
  have "recv_scan (data @ [0, s]) ctl (Suc ptr) (int (length data) + 2) status newfd =
     Inr (int (length data), uint s, if s = 0 then the ctl else - uint s)"
    using Suc.hyps(2) Suc.prems(3) nz(2) lt by (intro Suc.hyps(1)) auto
  with lt nz(1) show ?case by (subst recv_scan.simps) (simp add: nth_append)
qed

section \<open>The property\<close>

text \<open>What \<open>recv_fd\<close> is to deliver for an argument of \<open>send_fd\<close>: the descriptor itself, or the
  negative error as far as one byte carries it, never 0.\<close>

definition delivered :: "int \<Rightarrow> int" where
  "delivered fd = (if fd < 0 then (if fd mod 256 = 0 then - 1 else - ((- fd) mod 256)) else fd)"

text \<open>
  Claim C14. The protocol round trip: the message \<open>send_fd\<close> makes, received after any data without
  zero bytes in the same buffer, is recognised as final; the data is separated from it exactly and
  the value is the descriptor that was sent, or the error status (for codes from -1 to -255 that
  code itself; a code divisible by 256 still counts as an error).
\<close>

theorem send_recv_roundtrip:
  assumes "0 \<notin> set data"
  shows "recv_scan (data @ fst (send_msg fd)) (snd (send_msg fd)) 0 (int (length data) + 2) (- 1) newfd =
      Inr (int (length data), if fd < 0 then - delivered fd else 0, delivered fd) \<and>
    (- 256 < fd \<longrightarrow> delivered fd = fd) \<and> (fd < 0 \<longleftrightarrow> delivered fd < 0)"
proof -
  have m: "(- fd) mod 256 = 0 \<longleftrightarrow> fd mod 256 = 0" by presburger
  have u: "uint (word_of_int (- fd) :: byte) = (- fd) mod 256"
    using uint_word_of_int [where ?'a = 8, of "- fd"] by (simp only: len_bit0 len_num1) simp
  then have z: "(word_of_int (- fd) :: byte) = 0 \<longleftrightarrow> fd mod 256 = 0"
    using m by (metis uint_0_iff)
  have p: "0 \<le> (- fd) mod 256" "(- fd) mod 256 < 256" by simp_all
  have scan: "recv_scan (data @ fst (send_msg fd)) (snd (send_msg fd)) 0 (int (length data) + 2) (- 1) newfd =
      Inr (int (length data), if fd < 0 then - delivered fd else 0, delivered fd)"
  proof (cases "fd < 0")
    case False
    then show ?thesis
      using recv_scan_final [of 0 data 0 "Some fd" "- 1" newfd] assms by (simp add: send_msg_def delivered_def)
  next
    case True
    let ?s = "if (word_of_int (- fd) :: byte) = 0 then 1 else word_of_int (- fd) :: byte"
    have "?s \<noteq> 0" by simp
    moreover have "uint ?s = - delivered fd" using True z u by (simp add: delivered_def)
    ultimately show ?thesis
      using recv_scan_final [of 0 data ?s None "- 1" newfd] assms True
      by (simp add: send_msg_def Let_def split: if_splits)
  qed
  have "- 256 < fd \<longrightarrow> delivered fd = fd"
  proof
    assume a: "- 256 < fd"
    show "delivered fd = fd"
    proof (cases "fd < 0")
      case True
      with a have "(- fd) mod 256 = - fd" by (intro mod_pos_pos_trivial) auto
      with True m show ?thesis by (auto simp: delivered_def)
    qed (simp add: delivered_def)
  qed
  moreover have "fd < 0 \<longleftrightarrow> delivered fd < 0"
    using p m by (auto simp: delivered_def le_less)
  ultimately show ?thesis using scan by blast
qed

theorem send_recv_roundtrip_witness:
  "recv_scan ([104, 105] @ fst (send_msg 7)) (snd (send_msg 7)) 0 (int (length [104, 105 :: byte]) + 2) (- 1) 0 =
      Inr (2, 0, 7) \<and>
   recv_scan ([104] @ fst (send_msg (- 512))) (snd (send_msg (- 512))) 0 (int (length [104 :: byte]) + 2) (- 1) 0 =
      Inr (1, 1, - 1)"
  using send_recv_roundtrip [of "[104, 105]" 7 0] send_recv_roundtrip [of "[104]" "- 512" 0]
  by (simp add: delivered_def)

end
