(* ===== verification/Semaph.thy ===== *)
theory Semaph
  imports ErrLog
begin

text \<open>
  apue/lib/semaph.c: semaphores as sets of three members: the value, a counter of the processes
  that still may open it, and a lock. First the functions as programs over the kernel's calls; a
  \<open>sembuf\<close> is the member, the amount and whether it is undone when the process exits.

  Then several processes inside these functions: a process is at one of the calls of
  \<open>sem_create\<close>, \<open>sem_open\<close> or \<open>sem_close\<close>, between them it uses the semaphore, and it may
  exit anywhere, which makes the kernel undo its operations. The set, when it exists, is the list
  of its values; its generation number stands for the identifier \<open>semget\<close> gives it, so an
  identifier of a removed set is never valid again. The tables of operations are shared with the
  programs. Not distinguished: which of several blocked processes goes on.

  The lemmas: the lock excludes, the counter counts the users, and without \<open>sem_open\<close> no set is
  removed under a process that uses it; with \<open>sem_open\<close> it can be.
\<close>

section \<open>The tables\<close>

type_synonym sembuf = "nat \<times> int \<times> bool"

definition BIGCOUNT :: int where "BIGCOUNT = 10000"

definition op_lock :: "sembuf list" where "op_lock = [(2, 0, False), (2, 1, True)]"
definition op_endcreate :: "sembuf list" where "op_endcreate = [(1, - 1, True), (2, - 1, True)]"
definition op_open :: "sembuf list" where "op_open = [(1, - 1, True)]"
definition op_close :: "sembuf list" where "op_close = [(2, 0, False), (2, 1, True), (1, 1, True)]"
definition op_unlock :: "sembuf list" where "op_unlock = [(2, - 1, True)]"
definition op_op :: "int \<Rightarrow> sembuf list" where "op_op value = [(0, value, True)]"

section \<open>The functions\<close>

definition IPC_PRIVATE :: int where "IPC_PRIVATE = 0"
definition IPC_CREAT :: int where "IPC_CREAT = 512"
definition EINVAL_sem :: int where "EINVAL_sem = 22"

definition semop :: "'k kernel \<Rightarrow> int \<Rightarrow> sembuf list \<Rightarrow> (('k, 'z) world_scheme, int) io" where
  "semop K ident ops =
     sys K ''semop'' (AInt ident # concat (map (\<lambda>(m, a, u). [AInt (int m), AInt a, AInt (of_bool u)]) ops))"

text \<open>The part of \<open>sem_create\<close> from the label \<open>again\<close> to the lock; \<open>None\<close> is the early return.\<close>

definition create_turn :: "'k kernel \<Rightarrow> int \<Rightarrow> unit \<Rightarrow> (('k, 'z) world_scheme, unit + int option) io" where
  "create_turn K key _ =
     io_bind (sys K ''semget'' [AInt key, AInt 3, AInt (or 438 IPC_CREAT)]) (\<lambda>ident.
     if ident < 0 then io_return (Inr None)
     else
       io_bind (semop K ident op_lock) (\<lambda>r.
       if r < 0 then
         io_bind get_errno (\<lambda>e.
         if e = EINVAL_sem then io_return (Inl ()) else err_sys K ''can't lock'' [])
       else io_return (Inr (Some ident))))"

definition sem_create :: "'k kernel \<Rightarrow> nat \<Rightarrow> int \<Rightarrow> int \<Rightarrow> (('k, 'z) world_scheme, int) io" where
  "sem_create K fuel key initval =
     (if key = IPC_PRIVATE then io_return (- 1)
      else if key = - 1 then io_return (- 1)
      else
        io_bind (io_loop fuel (create_turn K key) ()) (\<lambda>locked.
        case locked of
          None \<Rightarrow> io_return (- 1)
        | Some ident \<Rightarrow>
            io_bind (sys K ''semctl'' [AInt ident, AInt 1, AStr ''GETVAL'', AInt 0]) (\<lambda>semval.
            if semval < 0 then err_sys K ''can't GETVAL'' []
            else
              io_then
                (if semval = 0 then
                   io_bind (sys K ''semctl'' [AInt ident, AInt 0, AStr ''SETVAL'', AInt initval]) (\<lambda>r.
                   if r < 0 then err_sys K ''can SETVAL[0]'' []
                   else
                     io_bind (sys K ''semctl'' [AInt ident, AInt 1, AStr ''SETVAL'', AInt BIGCOUNT]) (\<lambda>r.
                     if r < 0 then err_sys K ''can SETVAL[1]'' [] else io_return ()))
                 else io_return ())
              (io_bind (semop K ident op_endcreate) (\<lambda>r.
               if r < 0 then err_sys K ''can't end create'' [] else io_return ident)))))"

definition sem_open :: "'k kernel \<Rightarrow> int \<Rightarrow> (('k, 'z) world_scheme, int) io" where
  "sem_open K key =
     (if key = IPC_PRIVATE then io_return (- 1)
      else if key = - 1 then io_return (- 1)
      else
        io_bind (sys K ''semget'' [AInt key, AInt 3, AInt 0]) (\<lambda>ident.
        if ident < 0 then io_return (- 1)
        else
          io_bind (semop K ident op_open) (\<lambda>r.
          if r < 0 then err_sys K ''can't open'' [] else io_return ident)))"

definition sem_rm :: "'k kernel \<Rightarrow> int \<Rightarrow> (('k, 'z) world_scheme, unit) io" where
  "sem_rm K ident =
     io_bind (sys K ''semctl'' [AInt ident, AInt 0, AStr ''IPC_RMID'', AInt 0]) (\<lambda>r.
     if r < 0 then err_sys K ''can't IPC_RMID'' [] else io_return ())"

definition sem_close :: "'k kernel \<Rightarrow> int \<Rightarrow> (('k, 'z) world_scheme, unit) io" where
  "sem_close K ident =
     io_bind (semop K ident op_close) (\<lambda>r.
     if r < 0 then err_sys K ''can't semop'' []
     else
       io_bind (sys K ''semctl'' [AInt ident, AInt 1, AStr ''GETVAL'', AInt 0]) (\<lambda>semval.
       if semval < 0 then err_sys K ''can't GETVAL'' []
       else if semval > BIGCOUNT then err_dump K ''sem[1] > BIGCOUNT'' []
       else if semval = BIGCOUNT then sem_rm K ident
       else
         io_bind (semop K ident op_unlock) (\<lambda>r.
         if r < 0 then err_sys K ''can't unlock'' [] else io_return ())))"

definition sem_op :: "'k kernel \<Rightarrow> int \<Rightarrow> int \<Rightarrow> (('k, 'z) world_scheme, unit) io" where
  "sem_op K ident value =
     (if value = 0 then err_sys K ''can't have value == 0'' []
      else
        io_bind (semop K ident (op_op value)) (\<lambda>r.
        if r < 0 then err_sys K ''sem_op error'' [] else io_return ()))"

definition sem_wait :: "'k kernel \<Rightarrow> int \<Rightarrow> (('k, 'z) world_scheme, unit) io" where
  "sem_wait K ident = sem_op K ident (- 1)"

definition sem_signal :: "'k kernel \<Rightarrow> int \<Rightarrow> (('k, 'z) world_scheme, unit) io" where
  "sem_signal K ident = sem_op K ident 1"

section \<open>Several processes\<close>

text \<open>All operations of one \<open>semop\<close> together; \<open>None\<close> when the caller has to wait.\<close>

fun semop_apply :: "int list \<Rightarrow> sembuf list \<Rightarrow> int list option" where
  "semop_apply v [] = Some v"
| "semop_apply v ((m, a, u) # ops) =
     (if a = 0 then if v ! m = 0 then semop_apply v ops else None
      else if v ! m + a < 0 then None
      else semop_apply (v[m := v ! m + a]) ops)"

text \<open>What the kernel takes back for a process that has done the given operations.\<close>

fun undo :: "int list \<Rightarrow> sembuf list \<Rightarrow> int list" where
  "undo v [] = v"
| "undo v ((m, a, u) # ops) = undo (if u then v[m := v ! m - a] else v) ops"

text \<open>Where a process is: before the call of that name, with the identifier it holds.\<close>

datatype place =
    Away | Again | Got nat | Locked nat | Set_Val0 nat | Set_Val1 nat | End_Create nat
  | Opening nat | In_Use nat | Closing nat | Removing nat | Unlocking nat | Failed string

record sems =
  s_gen :: nat
  s_set :: "int list option"
  s_procs :: "place list"

definition sem_view :: "sems \<Rightarrow> nat \<Rightarrow> int list option" where
  "sem_view st g = (if g = s_gen st then s_set st else None)"

text \<open>A call on the set the process holds: \<open>fail\<close> when it is gone, \<open>f\<close> on its values otherwise.\<close>

definition on_set :: "sems \<Rightarrow> nat \<Rightarrow> string \<Rightarrow> (int list \<Rightarrow> (place \<times> int list option) option) \<Rightarrow>
    (place \<times> nat \<times> int list option) option" where
  "on_set st g fail f =
     (case sem_view st g of
        None \<Rightarrow> Some (Failed fail, s_gen st, s_set st)
      | Some v \<Rightarrow> map_option (\<lambda>(p, s). (p, s_gen st, s)) (f v))"

definition sem_ops :: "sems \<Rightarrow> nat \<Rightarrow> string \<Rightarrow> sembuf list \<Rightarrow> place \<Rightarrow> (place \<times> nat \<times> int list option) option" where
  "sem_ops st g fail ops p = on_set st g fail (\<lambda>v. map_option (\<lambda>v'. (p, Some v')) (semop_apply v ops))"

text \<open>
  The next call of a process that is inside one of the functions: where it is then, and the
  generation and the set. \<open>None\<close>: it waits, or is not inside.
\<close>

fun sem_next :: "int \<Rightarrow> sems \<Rightarrow> place \<Rightarrow> (place \<times> nat \<times> int list option) option" where
  "sem_next initval st Again =
     (case s_set st of
        None \<Rightarrow> Some (Got (Suc (s_gen st)), Suc (s_gen st), Some [0, 0, 0])
      | Some v \<Rightarrow> Some (Got (s_gen st), s_gen st, Some v))"
| "sem_next initval st (Got g) =
     (case sem_view st g of
        None \<Rightarrow> Some (Again, s_gen st, s_set st)
      | Some v \<Rightarrow> sem_ops st g '''' op_lock (Locked g))"
| "sem_next initval st (Locked g) =
     on_set st g ''can't GETVAL'' (\<lambda>v. Some (if v ! 1 = 0 then Set_Val0 g else End_Create g, Some v))"
| "sem_next initval st (Set_Val0 g) =
     on_set st g ''can SETVAL[0]'' (\<lambda>v. Some (Set_Val1 g, Some (v[0 := initval])))"
| "sem_next initval st (Set_Val1 g) =
     on_set st g ''can SETVAL[1]'' (\<lambda>v. Some (End_Create g, Some (v[1 := BIGCOUNT])))"
| "sem_next initval st (End_Create g) = sem_ops st g ''can't end create'' op_endcreate (In_Use g)"
| "sem_next initval st (Opening g) = sem_ops st g ''can't open'' op_open (In_Use g)"
| "sem_next initval st (Closing g) =
     on_set st g ''can't GETVAL'' (\<lambda>v.
       Some (if v ! 1 > BIGCOUNT then Failed ''sem[1] > BIGCOUNT''
             else if v ! 1 = BIGCOUNT then Removing g else Unlocking g, Some v))"
| "sem_next initval st (Removing g) = on_set st g ''can't IPC_RMID'' (\<lambda>v. Some (Away, None))"
| "sem_next initval st (Unlocking g) = sem_ops st g ''can't unlock'' op_unlock Away"
| "sem_next initval st p = None"

text \<open>The operations on the set a process at that place has done (a user came by \<open>sem_create\<close> or
  \<open>sem_open\<close>, which take back the same); \<open>sem_op\<close>'s own are below.\<close>

fun done_ops :: "place \<Rightarrow> sembuf list" where
  "done_ops (Locked g) = op_lock"
| "done_ops (Set_Val0 g) = op_lock"
| "done_ops (Set_Val1 g) = op_lock"
| "done_ops (End_Create g) = op_lock"
| "done_ops (In_Use g) = op_lock @ op_endcreate"
| "done_ops (Closing g) = op_lock @ op_endcreate @ op_close"
| "done_ops (Removing g) = op_lock @ op_endcreate @ op_close"
| "done_ops (Unlocking g) = op_lock @ op_endcreate @ op_close"
| "done_ops p = []"

fun held :: "place \<Rightarrow> nat option" where
  "held (Locked g) = Some g"
| "held (Set_Val0 g) = Some g"
| "held (Set_Val1 g) = Some g"
| "held (End_Create g) = Some g"
| "held (In_Use g) = Some g"
| "held (Closing g) = Some g"
| "held (Removing g) = Some g"
| "held (Unlocking g) = Some g"
| "held p = None"

definition put :: "sems \<Rightarrow> nat \<Rightarrow> place \<Rightarrow> nat \<Rightarrow> int list option \<Rightarrow> sems" where
  "put st i p g s = \<lparr>s_gen = g, s_set = s, s_procs = (s_procs st)[i := p]\<rparr>"

text \<open>
  The moves of process \<open>i\<close>. \<open>opens\<close> says whether processes use \<open>sem_open\<close>. The rule \<open>removed\<close> is a
  waiting \<open>semop\<close> whose set is removed: it fails with \<open>EIDRM\<close>, for which \<open>sem_create\<close> has no
  branch. An exit leaves the first member at some value, as the process's own \<open>sem_op\<close>s are undone.
\<close>

inductive sem_step :: "bool \<Rightarrow> sems \<Rightarrow> sems \<Rightarrow> bool" for opens where
  create: "i < length (s_procs st) \<Longrightarrow> s_procs st ! i = Away \<Longrightarrow>
     sem_step opens st (put st i Again (s_gen st) (s_set st))"
| joins: "opens \<Longrightarrow> i < length (s_procs st) \<Longrightarrow> s_procs st ! i = Away \<Longrightarrow> s_set st \<noteq> None \<Longrightarrow>
     sem_step opens st (put st i (Opening (s_gen st)) (s_gen st) (s_set st))"
| inside: "i < length (s_procs st) \<Longrightarrow> sem_next initval st (s_procs st ! i) = Some (p, g, s) \<Longrightarrow>
     sem_step opens st (put st i p g s)"
| removed: "i < length (s_procs st) \<Longrightarrow> s_procs st ! i = Got k \<Longrightarrow> sem_view st k = None \<Longrightarrow>
     sem_step opens st (put st i (Failed ''can't lock'') (s_gen st) (s_set st))"
| use: "i < length (s_procs st) \<Longrightarrow> s_procs st ! i = In_Use k \<Longrightarrow> amount \<noteq> 0 \<Longrightarrow>
     sem_ops st k ''sem_op error'' (op_op amount) (In_Use k) = Some (p, g, s) \<Longrightarrow>
     sem_step opens st (put st i p g s)"
| close: "i < length (s_procs st) \<Longrightarrow> s_procs st ! i = In_Use k \<Longrightarrow>
     sem_ops st k ''can't semop'' op_close (Closing k) = Some (p, g, s) \<Longrightarrow>
     sem_step opens st (put st i p g s)"
| exits: "i < length (s_procs st) \<Longrightarrow>
     s = (if held (s_procs st ! i) = Some (s_gen st)
          then map_option (\<lambda>v. (undo v (done_ops (s_procs st ! i)))[0 := a]) (s_set st) else s_set st) \<Longrightarrow>
     sem_step opens st (put st i Away (s_gen st) s)"

definition sem_start :: "nat \<Rightarrow> sems" where
  "sem_start n = \<lparr>s_gen = 0, s_set = None, s_procs = replicate n Away\<rparr>"
section \<open>The invariant\<close>

fun locks :: "place \<Rightarrow> int" where
  "locks (Locked g) = 1"
| "locks (Set_Val0 g) = 1"
| "locks (Set_Val1 g) = 1"
| "locks (End_Create g) = 1"
| "locks (Closing g) = 1"
| "locks (Removing g) = 1"
| "locks (Unlocking g) = 1"
| "locks p = 0"

fun uses :: "place \<Rightarrow> int" where
  "uses (In_Use g) = 1"
| "uses p = 0"

fun idle :: "place \<Rightarrow> bool" where
  "idle Away = True"
| "idle Again = True"
| "idle (Got g) = True"
| "idle (Failed m) = (m = ''can't lock'')"
| "idle p = False"

text \<open>What the counter \<open>c\<close> of the set of generation \<open>g\<close> must be for a process at that place.\<close>

fun place_ok :: "nat \<Rightarrow> int \<Rightarrow> place \<Rightarrow> bool" where
  "place_ok g c (Locked k) = (k = g)"
| "place_ok g c (In_Use k) = (k = g \<and> c \<noteq> 0)"
| "place_ok g c (Set_Val0 k) = (k = g \<and> c = 0)"
| "place_ok g c (Set_Val1 k) = (k = g \<and> c = 0)"
| "place_ok g c (End_Create k) = (k = g \<and> c \<noteq> 0)"
| "place_ok g c (Closing k) = (k = g \<and> c \<noteq> 0)"
| "place_ok g c (Removing k) = (k = g \<and> c = BIGCOUNT)"
| "place_ok g c (Unlocking k) = (k = g \<and> c \<noteq> 0)"
| "place_ok g c p = idle p"

abbreviation lock_count :: "place list \<Rightarrow> int" where "lock_count ps \<equiv> sum_list (map locks ps)"
abbreviation user_count :: "place list \<Rightarrow> int" where "user_count ps \<equiv> sum_list (map uses ps)"

definition set_ok :: "nat \<Rightarrow> int list \<Rightarrow> place list \<Rightarrow> bool" where
  "set_ok g v ps \<longleftrightarrow> length v = 3 \<and> v ! 2 = lock_count ps \<and> v ! 2 \<le> 1 \<and>
     (v ! 1 = BIGCOUNT - user_count ps \<or> v ! 1 = 0 \<and> user_count ps = 0) \<and>
     (\<forall>p \<in> set ps. place_ok g (v ! 1) p)"

definition sem_inv :: "sems \<Rightarrow> bool" where
  "sem_inv st \<longleftrightarrow> int (length (s_procs st)) < BIGCOUNT \<and>
     (case s_set st of
        None \<Rightarrow> \<forall>p \<in> set (s_procs st). idle p
      | Some v \<Rightarrow> set_ok (s_gen st) v (s_procs st))"

lemma sum_list_update_int:
  "i < length xs \<Longrightarrow> sum_list (map f (xs[i := x])) = sum_list (map f xs) + f x - (f (xs ! i) :: int)"
  by (induction xs arbitrary: i) (auto split: nat.splits)

lemma locks_bounds: "0 \<le> locks p" "locks p \<le> 1"
  by (cases p; simp)+

lemma uses_bounds: "0 \<le> uses p" "uses p \<le> 1"
  by (cases p; simp)+

lemma user_count_le: "user_count ps \<le> int (length ps)"
  by (induction ps) (use uses_bounds(2) in \<open>auto intro: add_mono simp: add.commute\<close>)

lemma user_count_nonneg: "0 \<le> user_count ps"
  by (rule sum_list_nonneg) (auto simp: uses_bounds)

lemma lock_count_nonneg: "0 \<le> lock_count ps"
  by (rule sum_list_nonneg) (auto simp: locks_bounds)

lemma lock_count_ge:
  "p \<in> set ps \<Longrightarrow> locks p \<le> lock_count ps"
  by (rule member_le_sum_list) (auto simp: locks_bounds)

lemma user_count_ge: "p \<in> set ps \<Longrightarrow> uses p \<le> user_count ps"
  by (rule member_le_sum_list) (auto simp: uses_bounds)

text \<open>While one process has the lock the others have not.\<close>

lemma others_free:
  assumes "lock_count ps \<le> 1" "locks (ps ! i) = 1" "i < length ps" "k < length ps" "k \<noteq> i"
  shows "locks (ps ! k) = 0"
proof -
  have "lock_count (ps[i := Away]) \<le> 0" using assms by (simp add: sum_list_update_int)
  moreover have "ps ! k \<in> set (ps[i := Away])"
    using assms by (metis length_list_update nth_list_update_neq nth_mem)
  ultimately have "locks (ps ! k) \<le> 0" using lock_count_ge by fastforce
  then show ?thesis using locks_bounds [of "ps ! k"] by simp
qed

lemma place_ok_free: "place_ok g c p \<Longrightarrow> locks p = 0 \<Longrightarrow> c' \<noteq> 0 \<or> uses p = 0 \<Longrightarrow> place_ok g c' p"
  by (cases p) auto

lemma idle_counts [simp]: "idle p \<Longrightarrow> locks p = 0" "idle p \<Longrightarrow> uses p = 0" "idle p \<Longrightarrow> held p = None"
  by (cases p; simp)+

lemma idle_place_ok: "idle p \<Longrightarrow> place_ok g c p"
  by (cases p) auto

lemma idle_lists: "(\<And>p. p \<in> set ps \<Longrightarrow> idle p) \<Longrightarrow> lock_count ps = 0 \<and> user_count ps = 0"
  by (induction ps) auto

text \<open>One process moves; the others' conditions must survive the new counter.\<close>

lemma set_ok_update:
  assumes ok: "set_ok g v ps" and i: "i < length ps"
    and v': "length v' = 3" "v' ! 2 = v ! 2 + locks p - locks (ps ! i)" "v' ! 2 \<le> 1"
    and c: "v' ! 1 = BIGCOUNT - (user_count ps + uses p - uses (ps ! i)) \<or>
      v' ! 1 = 0 \<and> user_count ps + uses p - uses (ps ! i) = 0"
    and p: "place_ok g (v' ! 1) p"
    and others: "\<And>k. k < length ps \<Longrightarrow> k \<noteq> i \<Longrightarrow> place_ok g (v ! 1) (ps ! k) \<Longrightarrow> place_ok g (v' ! 1) (ps ! k)"
  shows "set_ok g v' (ps[i := p])"
proof -
  have "place_ok g (v' ! 1) q" if "q \<in> set (ps[i := p])" for q
  proof -
    from that obtain k where k: "k < length ps" "q = ps[i := p] ! k" by (auto simp: in_set_conv_nth)
    show ?thesis
    proof (cases "k = i")
      case True
      then show ?thesis using k p by simp
    next
      case False
      then show ?thesis using k others [of k] ok by (simp add: set_ok_def)
    qed
  qed
  then show ?thesis using ok v' c i by (auto simp: set_ok_def sum_list_update_int)
qed

text \<open>The same when the counter stays, and when the process has the lock before or after.\<close>

lemma set_ok_same_counter:
  assumes "set_ok g v ps" "i < length ps" "length v' = 3" "v' ! 1 = v ! 1"
    "v' ! 2 = v ! 2 + locks p - locks (ps ! i)" "v' ! 2 \<le> 1" "uses p = uses (ps ! i)" "place_ok g (v ! 1) p"
  shows "set_ok g v' (ps[i := p])"
  using assms by (intro set_ok_update [OF assms(1)]) (auto simp: set_ok_def)

lemma set_ok_locked:
  assumes "set_ok g v ps" "i < length ps" "length v' = 3" "locks (ps ! i) = 1 \<or> v ! 2 = 0"
    "v' ! 2 = v ! 2 + locks p - locks (ps ! i)" "v' ! 2 \<le> 1"
    "v' ! 1 = BIGCOUNT - (user_count ps + uses p - uses (ps ! i))" "v' ! 1 \<noteq> 0" "place_ok g (v' ! 1) p"
  shows "set_ok g v' (ps[i := p])"
proof (rule set_ok_update [OF assms(1-3)])
  fix k assume k: "k < length ps" "k \<noteq> i" "place_ok g (v ! 1) (ps ! k)"
  have "locks (ps ! k) = 0"
  proof (cases "locks (ps ! i) = 1")
    case True
    then show ?thesis using assms(1,2) k by (intro others_free [of ps i k]) (auto simp: set_ok_def)
  next
    case False
    then have "lock_count ps = 0" using assms(1,4) by (simp add: set_ok_def)
    then show ?thesis using lock_count_ge [of "ps ! k" ps] locks_bounds [of "ps ! k"] k by simp
  qed
  then show "place_ok g (v' ! 1) (ps ! k)" using k assms(8) by (auto intro: place_ok_free)
qed (use assms in auto)
section \<open>The invariant is kept\<close>

lemma length3: "length v = 3 \<Longrightarrow> \<exists>a b l. v = [a, b, l]"
  by (auto simp: numeral_3_eq_3 length_Suc_conv)

lemma semop_lock: "semop_apply [a, b, l] op_lock = (if l = 0 then Some [a, b, 1] else None)"
  by (simp add: op_lock_def numeral_2_eq_2)

lemma semop_endcreate:
  "semop_apply [a, b, l] op_endcreate = (if 1 \<le> b \<and> 1 \<le> l then Some [a, b - 1, l - 1] else None)"
  by (simp add: op_endcreate_def numeral_2_eq_2)

lemma semop_close:
  "semop_apply [a, b, l] op_close = (if l = 0 \<and> 0 \<le> b + 1 then Some [a, b + 1, 1] else None)"
  by (simp add: op_close_def numeral_2_eq_2)

lemma semop_unlock: "semop_apply [a, b, l] op_unlock = (if 1 \<le> l then Some [a, b, l - 1] else None)"
  by (simp add: op_unlock_def numeral_2_eq_2)

lemma semop_op: "semop_apply [a, b, l] (op_op n) = Some v \<Longrightarrow> \<exists>a'. v = [a', b, l]"
  by (auto simp: op_op_def split: if_splits)

lemmas semops = semop_lock semop_endcreate semop_close semop_unlock

text \<open>A process that holds the set or the lock sees the set.\<close>

lemma holder_sees:
  assumes "sem_inv st" "i < length (s_procs st)" "held (s_procs st ! i) = Some k"
  obtains a b l where "s_set st = Some [a, b, l]" "k = s_gen st" "set_ok k [a, b, l] (s_procs st)"
    "place_ok k b (s_procs st ! i)"
proof (cases "s_set st")
  case None
  then have "idle (s_procs st ! i)" using assms(1,2) by (auto simp: sem_inv_def)
  then show thesis using assms(3) by simp
next
  case (Some v)
  then have ok: "set_ok (s_gen st) v (s_procs st)" using assms(1) by (simp add: sem_inv_def)
  moreover obtain a b l where v: "v = [a, b, l]" using ok length3 unfolding set_ok_def by metis
  moreover have p: "place_ok (s_gen st) b (s_procs st ! i)" using ok assms(2) v by (auto simp: set_ok_def)
  moreover have "k = s_gen st" using p assms(3) by (cases "s_procs st ! i") auto
  ultimately show thesis using that Some by simp
qed

lemma put_inv:
  assumes "sem_inv st" "set_ok g v' ((s_procs st)[i := p])"
  shows "sem_inv (put st i p g (Some v'))"
  using assms by (simp add: sem_inv_def put_def)

lemma counter_facts:
  assumes "sem_inv st" "s_set st = Some [a, b, l]"
  shows "l = lock_count (s_procs st)" "l \<le> 1" "0 \<le> l"
    "b = BIGCOUNT - user_count (s_procs st) \<or> b = 0 \<and> user_count (s_procs st) = 0"
    "user_count (s_procs st) < BIGCOUNT" "0 \<le> user_count (s_procs st)" "0 \<le> b" "b \<le> BIGCOUNT"
proof -
  show "user_count (s_procs st) < BIGCOUNT" "0 \<le> user_count (s_procs st)"
    using assms(1) user_count_le [of "s_procs st"] user_count_nonneg [of "s_procs st"]
    unfolding sem_inv_def by linarith+
  show "0 \<le> l" using assms lock_count_nonneg
    by (auto simp: sem_inv_def set_ok_def numeral_2_eq_2)
  show "l = lock_count (s_procs st)" "l \<le> 1" 
    "b = BIGCOUNT - user_count (s_procs st) \<or> b = 0 \<and> user_count (s_procs st) = 0"
    using assms by (auto simp: sem_inv_def set_ok_def numeral_2_eq_2)
  then show "0 \<le> b" "b \<le> BIGCOUNT"
    using \<open>user_count (s_procs st) < BIGCOUNT\<close> \<open>0 \<le> user_count (s_procs st)\<close> by (auto simp: BIGCOUNT_def)
qed

lemma locker:
  assumes "sem_inv st" "s_set st = Some [a, b, l]" "i < length (s_procs st)" "locks (s_procs st ! i) = 1"
  shows "l = 1"
  using counter_facts(1,2) [OF assms(1,2)] lock_count_ge [of "s_procs st ! i" "s_procs st"] assms(3,4) by simp

text \<open>Moves of a process into or inside the critical section that leave the counter.\<close>

lemma move_same:
  assumes "sem_inv st" "s_set st = Some [a, b, l]" "i < length (s_procs st)"
    "l' = l + locks p - locks (s_procs st ! i)" "l' \<le> 1" "uses p = uses (s_procs st ! i)" "place_ok (s_gen st) b p"
  shows "sem_inv (put st i p (s_gen st) (Some [a', b, l']))"
proof (rule put_inv [OF assms(1)])
  show "set_ok (s_gen st) [a', b, l'] ((s_procs st)[i := p])"
    using assms by (intro set_ok_same_counter [of _ "[a, b, l]"]) (auto simp: sem_inv_def numeral_2_eq_2)
qed

lemma move_locked:
  assumes "sem_inv st" "s_set st = Some [a, b, l]" "i < length (s_procs st)"
    "locks (s_procs st ! i) = 1 \<or> l = 0" "l' = l + locks p - locks (s_procs st ! i)" "l' \<le> 1"
    "b' = BIGCOUNT - (user_count (s_procs st) + uses p - uses (s_procs st ! i))" "b' \<noteq> 0"
    "place_ok (s_gen st) b' p"
  shows "sem_inv (put st i p (s_gen st) (Some [a', b', l']))"
proof (rule put_inv [OF assms(1)])
  show "set_ok (s_gen st) [a', b', l'] ((s_procs st)[i := p])"
    using assms by (intro set_ok_locked [of _ "[a, b, l]"]) (auto simp: sem_inv_def numeral_2_eq_2)
qed
lemma on_set_view:
  "s_set st = Some v \<Longrightarrow> on_set st (s_gen st) fail f = map_option (\<lambda>(p, s). (p, s_gen st, s)) (f v)"
  by (simp add: on_set_def sem_view_def)

lemma sem_ops_view:
  "s_set st = Some v \<Longrightarrow> sem_ops st (s_gen st) fail ops p =
     map_option (\<lambda>v'. (p, s_gen st, Some v')) (semop_apply v ops)"
  by (simp add: sem_ops_def on_set_view option.map_comp comp_def)

lemmas views = on_set_view sem_ops_def sem_view_def semops

lemma set_length3:
  assumes "sem_inv st" "s_set st = Some v"
  shows "\<exists>a b l. v = [a, b, l]"
proof (rule length3)
  show "length v = 3" using assms by (simp add: sem_inv_def set_ok_def)
qed

lemma next_inv_held:
  assumes inv: "sem_inv st" and i: "i < length (s_procs st)" and h: "held (s_procs st ! i) = Some k"
    and n: "sem_next initval st (s_procs st ! i) = Some (p, g, s)"
  shows "sem_inv (put st i p g s)"
proof -
  obtain a b l where st: "s_set st = Some [a, b, l]" and k: "k = s_gen st"
    and ok: "place_ok k b (s_procs st ! i)"
    by (rule holder_sees [OF inv i h])
  note cf = counter_facts [OF inv st]
  note same = move_same [OF inv st i] and moved = move_locked [OF inv st i]
  have l1: "l = 1" if "locks (s_procs st ! i) = 1" using locker [OF inv st i that] .
  show ?thesis
  proof (cases "s_procs st ! i")
    case (Locked j)
    then show ?thesis using n k h l1 by (auto simp: st views intro!: same)
  next
    case (Set_Val0 j)
    then show ?thesis using n k h l1 ok same [of 1 "Set_Val1 j" initval] by (auto simp: st views)
  next
    case (Set_Val1 j)
    then have "user_count (s_procs st) = 0" using cf ok by (auto simp: BIGCOUNT_def)
    then show ?thesis using Set_Val1 n k h l1 ok
      by (auto simp: st views BIGCOUNT_def intro!: moved)
  next
    case (End_Create j)
    then have b: "b = BIGCOUNT - user_count (s_procs st)" using cf ok by auto
    have "uses (s_procs st ! i) = 0" using End_Create by simp
    then have "user_count ((s_procs st)[i := In_Use j]) < BIGCOUNT"
      using user_count_le [of "(s_procs st)[i := In_Use j]"] inv by (simp add: sem_inv_def)
    then have "b - 1 \<noteq> 0" using b End_Create i by (simp add: sum_list_update_int)
    then show ?thesis using End_Create n k h l1 ok b cf(5)
      by (auto simp: st views intro!: moved split: if_splits)
  next
    case (In_Use j)
    then show ?thesis using n by simp
  next
    case (Closing j)
    then show ?thesis using n k h l1 ok cf(8) by (auto simp: st views intro!: same)
  next
    case (Removing j)
    have b: "b = BIGCOUNT" "l = 1" using Removing ok l1 by auto
    have u0: "user_count (s_procs st) = 0" using cf b by (auto simp: BIGCOUNT_def)
    have "idle q" if "q \<in> set ((s_procs st)[i := Away])" for q
    proof -
      from that obtain m where m: "m < length (s_procs st)" "q = (s_procs st)[i := Away] ! m"
        by (auto simp: in_set_conv_nth)
      show ?thesis
      proof (cases "m = i")
        case True
        then show ?thesis using m by simp
      next
        case False
        have "locks q = 0" using others_free [of "s_procs st" i m] cf(1,2) Removing i m False by simp
        moreover have "uses q = 0"
          using user_count_ge [of q "s_procs st"] u0 uses_bounds [of q] m False by simp
        moreover have "place_ok (s_gen st) b q"
          using inv st m False by (simp add: sem_inv_def set_ok_def)
        ultimately show ?thesis by (cases q) auto
      qed
    qed
    then show ?thesis using Removing n k h inv by (auto simp: st views sem_inv_def put_def)
  next
    case (Unlocking j)
    then show ?thesis using n k h l1 by (auto simp: st views intro!: same)
  qed (use h in auto)
qed

text \<open>The first moves, of a process that holds nothing yet.\<close>

lemma idle_put_none:
  "sem_inv st \<Longrightarrow> s_set st = None \<Longrightarrow> idle p \<Longrightarrow> sem_inv (put st i p g None)"
  by (auto simp: sem_inv_def put_def dest: set_update_subset_insert [THEN subsetD])

lemma idle_put:
  assumes "sem_inv st" "i < length (s_procs st)" "idle (s_procs st ! i)" "idle p"
  shows "sem_inv (put st i p (s_gen st) (s_set st))"
proof (cases "s_set st")
  case None
  then show ?thesis using idle_put_none assms by simp
next
  case (Some v)
  then obtain a b l where v: "v = [a, b, l]" using set_length3 [OF assms(1)] by blast
  show ?thesis unfolding Some v
    using assms counter_facts(2) [OF assms(1)] Some v
    by (intro move_same) (auto intro: idle_place_ok)
qed

lemma next_inv_new:
  assumes inv: "sem_inv st" and i: "i < length (s_procs st)" and h: "idle (s_procs st ! i)"
    and n: "sem_next initval st (s_procs st ! i) = Some (p, g, s)"
  shows "sem_inv (put st i p g s)"
proof (cases "s_procs st ! i")
  case Again
  show ?thesis
  proof (cases "s_set st")
    case None
    then have *: "\<forall>q \<in> set ((s_procs st)[i := p]). idle q"
      using inv Again n by (auto simp: sem_inv_def dest: set_update_subset_insert [THEN subsetD])
    then have "set_ok g [0, 0, 0] ((s_procs st)[i := p])"
      using idle_lists [of "(s_procs st)[i := p]"]
      by (auto simp: set_ok_def numeral_2_eq_2 intro: idle_place_ok)
    then show ?thesis using Again None n put_inv [OF inv] by auto
  next
    case (Some v)
    then show ?thesis using Again n idle_put [OF inv i h, of p] by auto
  qed
next
  case (Got k)
  show ?thesis
  proof (cases "sem_view st k")
    case None
    then show ?thesis using Got n idle_put [OF inv i h, of p] by auto
  next
    case (Some v)
    then have st: "s_set st = Some v" "k = s_gen st" by (auto simp: sem_view_def split: if_splits)
    then obtain a b l where v: "v = [a, b, l]" using set_length3 [OF inv] by blast
    then show ?thesis using Got n Some
      by (auto simp: st views intro!: move_same [OF inv _ i] split: if_splits)
  qed
qed (use h n in auto)

text \<open>A user's operation and close.\<close>

lemma use_inv:
  assumes inv: "sem_inv st" and i: "i < length (s_procs st)" and h: "s_procs st ! i = In_Use k"
    and n: "sem_ops st k fail (op_op value) (In_Use k) = Some (p, g, s)"
  shows "sem_inv (put st i p g s)"
proof -
  obtain a b l where st: "s_set st = Some [a, b, l]" and k: "k = s_gen st" and ok: "place_ok k b (s_procs st ! i)"
    by (rule holder_sees [OF inv i]) (use h in auto)
  from n st k obtain v where v: "semop_apply [a, b, l] (op_op value) = Some v" "p = In_Use k" "g = s_gen st" "s = Some v"
    by (auto simp: sem_ops_view simp del: semop_apply.simps)
  from semop_op [OF v(1)] obtain a' where "v = [a', b, l]" by blast
  then show ?thesis using v k h ok counter_facts(2) [OF inv st] move_same [OF inv st i, of l p a'] by simp
qed

lemma close_inv:
  assumes inv: "sem_inv st" and i: "i < length (s_procs st)" and h: "s_procs st ! i = In_Use k"
    and n: "sem_ops st k fail op_close (Closing k) = Some (p, g, s)"
  shows "sem_inv (put st i p g s)"
proof -
  obtain a b l where st: "s_set st = Some [a, b, l]" and k: "k = s_gen st" and ok: "place_ok k b (s_procs st ! i)"
    by (rule holder_sees [OF inv i]) (use h in auto)
  note cf = counter_facts [OF inv st]
  have b: "b = BIGCOUNT - user_count (s_procs st)" using cf ok h by auto
  show ?thesis using n k h ok b cf(7)
    by (auto simp: st views intro!: move_locked [OF inv st i] split: if_splits)
qed

lemma undo_ops [simp]:
  "undo [a, b, l] op_lock = [a, b, l - 1]"
  "undo [a, b, l] (op_lock @ op_endcreate) = [a, b + 1, l]"
  "undo [a, b, l] (op_lock @ op_endcreate @ op_close) = [a, b, l - 1]"
  by (simp_all add: op_lock_def op_endcreate_def op_close_def numeral_2_eq_2)

lemma exit_inv:
  assumes inv: "sem_inv st" and i: "i < length (s_procs st)"
    and s: "s = (if held (s_procs st ! i) = Some (s_gen st)
          then map_option (\<lambda>v. (undo v (done_ops (s_procs st ! i)))[0 := c]) (s_set st) else s_set st)"
  shows "sem_inv (put st i Away (s_gen st) s)"
proof (cases "held (s_procs st ! i)")
  case None
  show ?thesis
  proof (cases "s_set st")
    case None
    then show ?thesis using s idle_put_none [OF inv] by simp
  next
    case (Some v)
    then have "place_ok (s_gen st) (v ! 1) (s_procs st ! i)"
      using inv i by (simp add: sem_inv_def set_ok_def)
    then have "idle (s_procs st ! i)" using None by (cases "s_procs st ! i") auto
    then show ?thesis using s None idle_put [OF inv i] by simp
  qed
next
  case (Some k)
  obtain a b l where st: "s_set st = Some [a, b, l]" and k: "k = s_gen st" and ok: "place_ok k b (s_procs st ! i)"
    by (rule holder_sees [OF inv i Some])
  note cf = counter_facts [OF inv st]
  show ?thesis
  proof (cases "uses (s_procs st ! i) = 1")
    case False
    then have "locks (s_procs st ! i) = 1" "undo [a, b, l] (done_ops (s_procs st ! i)) = [a, b, l - 1]"
      "uses (s_procs st ! i) = 0"
      using Some by (cases "s_procs st ! i"; simp)+
    then show ?thesis using s Some k cf(2) move_same [OF inv st i, of "l - 1" Away c]
      by (simp add: st)
  next
    case True
    then obtain j where j: "s_procs st ! i = In_Use j" by (cases "s_procs st ! i") auto
    have b: "b = BIGCOUNT - user_count (s_procs st)" using cf ok j by auto
    have "set_ok (s_gen st) [c, b + 1, l] ((s_procs st)[i := Away])"
    proof (rule set_ok_update [of "s_gen st" "[a, b, l]"])
      show "set_ok (s_gen st) [a, b, l] (s_procs st)" using inv st by (simp add: sem_inv_def)
      fix m assume m: "m < length (s_procs st)" "m \<noteq> i" "place_ok (s_gen st) ([a, b, l] ! 1) (s_procs st ! m)"
      have "1 \<le> user_count (s_procs st)"
        using user_count_ge [of "s_procs st ! i" "s_procs st"] i True by simp
      then show "place_ok (s_gen st) ([c, b + 1, l] ! 1) (s_procs st ! m)"
        using m(3) b cf(5,7) ok j by (cases "s_procs st ! m") auto
    qed (use i j b cf(2) in \<open>auto simp: numeral_2_eq_2\<close>)
    then show ?thesis using s j Some k put_inv [OF inv] by (simp add: st)
  qed
qed

lemma step_inv: "sem_step False st st' \<Longrightarrow> sem_inv st \<Longrightarrow> sem_inv st'"
proof (induction rule: sem_step.induct)
  case (create i st)
  then show ?case using idle_put [of st i Again] by simp
next
  case (inside i st initval p g s)
  show ?case
  proof (cases "held (s_procs st ! i)")
    case (Some k)
    then show ?thesis using inside next_inv_held by blast
  next
    case None
    then have "idle (s_procs st ! i) \<or> (\<exists>j. s_procs st ! i = Opening j) \<or> (\<exists>m. s_procs st ! i = Failed m)"
      by (cases "s_procs st ! i") auto
    moreover have "\<not> (\<exists>j. s_procs st ! i = Opening j)"
    proof
      assume "\<exists>j. s_procs st ! i = Opening j"
      then obtain j where "Opening j \<in> set (s_procs st)" using inside.hyps(1) nth_mem by metis
      with inside.prems show False by (auto simp: sem_inv_def set_ok_def split: option.splits)
    qed
    ultimately show ?thesis using inside next_inv_new by auto
  qed
next
  case (removed i st k)
  then show ?case using idle_put [of st i "Failed ''can't lock''"] by simp
next
  case (use i st k amount p g s)
  then show ?case using use_inv by blast
next
  case (close i st k p g s)
  then show ?case using close_inv by blast
next
  case (exits i st s a)
  then show ?case using exit_inv by blast
qed simp_all

interpretation semaphores: invariant_system "\<lambda>st. \<exists>n. int n < BIGCOUNT \<and> st = sem_start n" "sem_step False" sem_inv
proof
  fix st assume "\<exists>n. int n < BIGCOUNT \<and> st = sem_start n"
  then show "sem_inv st" by (auto simp: sem_inv_def sem_start_def)
qed (rule step_inv)

section \<open>The properties\<close>

text \<open>
  Claim C4. With fewer than \<open>BIGCOUNT\<close> processes, none of which uses \<open>sem_open\<close> or \<open>sem_rm\<close>, in
  every interleaving and with exits anywhere: a set is never removed under a process that has it
  open or is inside \<open>sem_create\<close> or \<open>sem_close\<close>; the lock member is the number of processes in a
  critical section and at most 1; while there are users the counter is \<open>BIGCOUNT\<close> less their
  number; and no call fails but the lock of \<open>sem_create\<close>, whose set may go while it waits.
\<close>

theorem sem_close_only_last:
  assumes "int n < BIGCOUNT" and "(sem_step False)\<^sup>*\<^sup>* (sem_start n) st"
  shows "(\<forall>p \<in> set (s_procs st). \<forall>k. held p = Some k \<longrightarrow> k = s_gen st \<and> s_set st \<noteq> None) \<and>
    (\<forall>v. s_set st = Some v \<longrightarrow> v ! 2 = lock_count (s_procs st) \<and> v ! 2 \<le> 1 \<and>
       (user_count (s_procs st) \<noteq> 0 \<longrightarrow> v ! 1 = BIGCOUNT - user_count (s_procs st))) \<and>
    (\<forall>m. Failed m \<in> set (s_procs st) \<longrightarrow> m = ''can't lock'')"
proof -
  have inv: "sem_inv st" using semaphores.reachable_holds [OF assms(2)] assms(1) by blast
  have "k = s_gen st \<and> s_set st \<noteq> None" if p: "p \<in> set (s_procs st)" "held p = Some k" for p k
  proof -
    obtain i where "i < length (s_procs st)" "s_procs st ! i = p" using p(1) by (auto simp: in_set_conv_nth)
    then show ?thesis using holder_sees [OF inv, of i k] p(2) by auto
  qed
  then show ?thesis using inv by (auto simp: sem_inv_def set_ok_def split: option.splits)
qed

text \<open>Runs that name their moves: the process and what it does.\<close>

datatype move = Do_Create | Do_Open | Do_Next int | Do_Close | Do_Op int

fun user_of :: "place \<Rightarrow> nat option" where
  "user_of (In_Use k) = Some k"
| "user_of p = None"

lemma user_of_Some: "user_of p = Some k \<longleftrightarrow> p = In_Use k"
  by (cases p) auto

definition put_next :: "sems \<Rightarrow> nat \<Rightarrow> (place \<times> nat \<times> int list option) option \<Rightarrow> sems option" where
  "put_next st i r = map_option (\<lambda>(p, g, s). put st i p g s) r"

definition sem_do :: "bool \<Rightarrow> sems \<Rightarrow> nat \<times> move \<Rightarrow> sems option" where
  "sem_do opens st m =
     (case m of (i, mv) \<Rightarrow>
        let p = s_procs st ! i in
        if i < length (s_procs st) then
          case mv of
            Do_Create \<Rightarrow> if p = Away then Some (put st i Again (s_gen st) (s_set st)) else None
          | Do_Open \<Rightarrow>
              if p = Away \<and> s_set st \<noteq> None \<and> opens then Some (put st i (Opening (s_gen st)) (s_gen st) (s_set st))
              else None
          | Do_Next n \<Rightarrow> put_next st i (sem_next n st p)
          | Do_Close \<Rightarrow>
              Option.bind (user_of p) (\<lambda>k. put_next st i (sem_ops st k ''can't semop'' op_close (Closing k)))
          | Do_Op n \<Rightarrow>
              if n = 0 then None
              else Option.bind (user_of p) (\<lambda>k. put_next st i (sem_ops st k ''sem_op error'' (op_op n) (In_Use k)))
        else None)"

fun sem_run :: "bool \<Rightarrow> sems \<Rightarrow> (nat \<times> move) list \<Rightarrow> sems option" where
  "sem_run opens st [] = Some st"
| "sem_run opens st (m # ms) = Option.bind (sem_do opens st m) (\<lambda>st. sem_run opens st ms)"

lemma put_next_Some: "put_next st i r = Some st' \<longleftrightarrow> (\<exists>p g s. r = Some (p, g, s) \<and> st' = put st i p g s)"
  by (auto simp: put_next_def)

lemma sem_do_step:
  assumes "sem_do opens st (i, mv) = Some st'"
  shows "sem_step opens st st'"
proof (cases mv)
  case Do_Create
  then show ?thesis using assms sem_step.create [of i st opens]
    by (simp add: sem_do_def Let_def split: if_splits)
next
  case Do_Open
  then show ?thesis using assms sem_step.joins [of opens i st]
    by (simp add: sem_do_def Let_def split: if_splits)
next
  case (Do_Next n)
  then show ?thesis using assms sem_step.inside [of i st n]
    by (auto simp: sem_do_def Let_def put_next_Some split: if_splits)
next
  case Do_Close
  then show ?thesis using assms sem_step.close [of i st]
    by (auto simp: sem_do_def Let_def put_next_Some bind_eq_Some_conv user_of_Some split: if_splits)
next
  case (Do_Op n)
  then show ?thesis using assms sem_step.use [of i st]
    by (auto simp: sem_do_def Let_def put_next_Some bind_eq_Some_conv user_of_Some split: if_splits)
qed

lemma sem_run_reaches: "sem_run opens st ms = Some st' \<Longrightarrow> (sem_step opens)\<^sup>*\<^sup>* st st'"
proof (induction ms arbitrary: st)
  case Nil
  then show ?case by simp
next
  case (Cons m ms)
  then obtain st1 where st1: "sem_do opens st m = Some st1" "sem_run opens st1 ms = Some st'"
    by (auto simp: bind_eq_Some_conv)
  obtain i mv where "m = (i, mv)" by fastforce
  then have "sem_step opens st st1" using sem_do_step st1(1) by simp
  with Cons.IH [OF st1(2)] show ?case by (rule converse_rtranclp_into_rtranclp [rotated])
qed

text \<open>Process 0 creates and closes; process 1 opens between the test of the counter and the removal.\<close>

definition race :: "(nat \<times> move) list" where
  "race = [(0, Do_Create), (0, Do_Next 1), (0, Do_Next 1), (0, Do_Next 1), (0, Do_Next 1), (0, Do_Next 1),
     (0, Do_Next 1), (1, Do_Open), (0, Do_Close), (0, Do_Next 1), (1, Do_Next 1), (0, Do_Next 1)]"

text \<open>
  \<open>sem_open\<close> does not take the lock, so it can come between the test of the counter and
  the removal in \<open>sem_close\<close>: two processes reach a state in which one has the semaphore open and
  the set is gone, and its next \<open>sem_wait\<close> fails.
\<close>

theorem sem_open_race:
  "\<exists>st st'. (sem_step True)\<^sup>*\<^sup>* (sem_start 2) st \<and> s_procs st = [Away, In_Use 1] \<and> s_set st = None \<and>
     sem_step True st st' \<and> s_procs st' = [Away, Failed ''sem_op error'']"
proof -
  define st where "st = \<lparr>s_gen = 1, s_set = None, s_procs = [Away, In_Use 1]\<rparr>"
  have "sem_run True (sem_start 2) race = Some st"
    unfolding st_def by code_simp
  then have "(sem_step True)\<^sup>*\<^sup>* (sem_start 2) st" by (rule sem_run_reaches)
  moreover have "sem_do True st (1, Do_Op (- 1)) =
      Some \<lparr>s_gen = 1, s_set = None, s_procs = [Away, Failed ''sem_op error'']\<rparr>"
    by (simp add: sem_do_def st_def put_def put_next_def sem_ops_def on_set_def sem_view_def)
  then have "sem_step True st \<lparr>s_gen = 1, s_set = None, s_procs = [Away, Failed ''sem_op error'']\<rparr>"
    by (rule sem_do_step)
  ultimately show ?thesis
    by (intro exI [of _ st] exI [of _ "\<lparr>s_gen = 1, s_set = None, s_procs = [Away, Failed ''sem_op error'']\<rparr>"])
      (simp add: st_def)
qed

section \<open>Witnesses\<close>

definition two_creators :: "(nat \<times> move) list" where
  "two_creators = [(0, Do_Create), (0, Do_Next 1), (0, Do_Next 1), (0, Do_Next 1), (0, Do_Next 1), (0, Do_Next 1),
     (0, Do_Next 1), (1, Do_Create), (1, Do_Next 1), (1, Do_Next 1), (1, Do_Next 1), (1, Do_Next 1), (0, Do_Close)]"

theorem sem_close_only_last_witness:
  "\<exists>st. (sem_step False)\<^sup>*\<^sup>* (sem_start 2) st \<and> s_procs st = [Closing 1, In_Use 1] \<and>
     (\<forall>v. s_set st = Some v \<longrightarrow> v ! 2 = 1 \<and> v ! 1 = 9999)"
proof -
  have "sem_run False (sem_start 2) two_creators =
      Some \<lparr>s_gen = 1, s_set = Some [1, 9999, 1], s_procs = [Closing 1, In_Use 1]\<rparr>"
    by code_simp
  then have r: "(sem_step False)\<^sup>*\<^sup>* (sem_start 2) \<lparr>s_gen = 1, s_set = Some [1, 9999, 1], s_procs = [Closing 1, In_Use 1]\<rparr>"
    by (rule sem_run_reaches)
  from sem_close_only_last [OF _ r] have "[1, 9999, 1 :: int] ! 1 = BIGCOUNT - 1" by (simp add: BIGCOUNT_def)
  with r show ?thesis by (intro exI [of _ "\<lparr>s_gen = 1, s_set = Some [1, 9999, 1], s_procs = [Closing 1, In_Use 1]\<rparr>"]) simp
qed

end
