(* ===== verification/Signals.thy ===== *)
theory Signals
  imports ErrLog
begin

text \<open>
  apue/lib: signal.c, signalintr.c, sleep.c, sleepus.c, and the programs of the tenth chapter that
  wait for signals: ch10_sleep.c, ch10_sigsuspend.c, ch10_sigsuspend_global.c, ch10_sigpending.c.
  A signal is caught during the call that lets it through: the reply of such a call (\<open>sigsuspend\<close>,
  or the \<open>sigprocmask\<close> that unblocks) lists the signals, and the program's handler runs for each
  before the call returns (\<open>catching\<close>). A set of signals is the list of its members, a handler is
  the address of its function; an old handler comes back as a number.

  The lemma: \<open>sleep\<close> puts back the action and the mask it found.
\<close>

section \<open>Calls that catch signals\<close>

definition catching ::
  "'k kernel \<Rightarrow> (int \<Rightarrow> (('k, 'z) world_scheme, unit) io) \<Rightarrow> string \<Rightarrow> arg list \<Rightarrow> (('k, 'z) world_scheme, int) io"
where
  "catching K handler nm args =
     io_bind (sys_r K nm args) (\<lambda>r. io_then (io_each handler (r_ints r)) (io_return (r_ret r)))"

definition SIG_ERR :: int where "SIG_ERR = - 1"
definition SIG_BLOCK :: int where "SIG_BLOCK = 0"
definition SIG_SETMASK :: int where "SIG_SETMASK = 2"
definition SA_RESTART :: int where "SA_RESTART = 268435456"
definition SA_INTERRUPT :: int where "SA_INTERRUPT = 536870912"

text \<open>\<open>sigprocmask\<close> on a set, with the old set in the reply.\<close>

definition sigprocmask ::
  "'k kernel \<Rightarrow> int \<Rightarrow> int list \<Rightarrow> (('k, 'z) world_scheme, int \<times> int list) io" where
  "sigprocmask K how sigs =
     io_bind (sys_r K ''sigprocmask'' (AInt how # map AInt sigs)) (\<lambda>r. io_return (r_ret r, r_ints r))"

section \<open>signal.c, signalintr.c\<close>

definition signal :: "'k kernel \<Rightarrow> int \<Rightarrow> arg \<Rightarrow> (('k, 'z) world_scheme, int) io" where
  "signal K signo func =
     (let flags = or 0 (if signo = SIGALRM then SA_INTERRUPT else SA_RESTART) in
      io_bind (sys_r K ''sigaction'' [AInt signo, func, AInt flags]) (\<lambda>r.
      io_return (if r_ret r < 0 then SIG_ERR else int_at r 0)))"

definition signal_intr :: "'k kernel \<Rightarrow> int \<Rightarrow> arg \<Rightarrow> (('k, 'z) world_scheme, int) io" where
  "signal_intr K signo func =
     io_bind (sys_r K ''sigaction'' [AInt signo, func, AInt (or 0 SA_INTERRUPT)]) (\<lambda>r.
     io_return (if r_ret r < 0 then SIG_ERR else int_at r 0))"

section \<open>sleep.c, sleepus.c, ch10_sleep.c\<close>

text \<open>The handler of \<open>SIGALRM\<close> does nothing.\<close>

definition sig_alrm :: "int \<Rightarrow> (('k, 'z) world_scheme, unit) io" where
  "sig_alrm signo = io_return ()"

definition sleep :: "'k kernel \<Rightarrow> int \<Rightarrow> (('k, 'z) world_scheme, int) io" where
  "sleep K seconds =
     io_bind (sys_r K ''sigaction'' [AInt SIGALRM, APtr ''sig_alrm'', AInt 0]) (\<lambda>oldact.
     io_bind (sigprocmask K SIG_BLOCK [SIGALRM]) (\<lambda>(_, oldmask).
     io_then (do_call K ''alarm'' [AInt seconds])
     (let suspmask = filter (\<lambda>s. s \<noteq> SIGALRM) oldmask in
      io_bind (catching K sig_alrm ''sigsuspend'' (map AInt suspmask)) (\<lambda>_.
      io_bind (sys K ''alarm'' [AInt 0]) (\<lambda>unslept.
      io_then (do_call K ''sigaction'' [AInt SIGALRM, AInt (int_at oldact 0)])
      (io_bind (sigprocmask K SIG_SETMASK oldmask) (\<lambda>_. io_return unslept)))))))"

definition sleep_us :: "'k kernel \<Rightarrow> int \<Rightarrow> (('k, 'z) world_scheme, unit) io" where
  "sleep_us K nusecs =
     do_call K ''select'' [AInt 0, ANull, ANull, ANull, AInt (nusecs div 1000000), AInt (nusecs mod 1000000)]"

text \<open>\<open>mysleep\<close> of ch10_sleep.c is the same text; its \<open>main\<close> sleeps three seconds.\<close>

definition mysleep :: "'k kernel \<Rightarrow> int \<Rightarrow> (('k, 'z) world_scheme, int) io" where
  "mysleep K seconds = sleep K seconds"

definition mysleep_main :: "'k kernel \<Rightarrow> (('k, 'z) world_scheme, unit) io" where
  "mysleep_main K = io_bind (mysleep K 3) (\<lambda>_. printf K ''done'' [])"

section \<open>ch10_sigsuspend.c\<close>

definition suspend_sig_int :: "'k kernel \<Rightarrow> int \<Rightarrow> (('k, 'z) world_scheme, unit) io" where
  "suspend_sig_int K signo = pr_mask K (NL # ''in sig_int:'')"

definition sigsuspend_main :: "'k kernel \<Rightarrow> (('k, 'z) world_scheme, unit) io" where
  "sigsuspend_main K =
     io_then (pr_mask K ''program start:'')
     (io_bind (signal K SIGINT (APtr ''sig_int'')) (\<lambda>r.
      if r = SIG_ERR then err_sys K ''signal(SIGINT) error'' []
      else
        io_bind (sigprocmask K SIG_BLOCK [SIGINT]) (\<lambda>(r, oldmask).
        if r < 0 then err_sys K ''SIG_BLOCK error'' []
        else
          io_then (pr_mask K ''in critical region:'')
          (io_bind (catching K (suspend_sig_int K) ''sigsuspend'' [AInt SIGUSR1]) (\<lambda>r.
           if r \<noteq> - 1 then err_sys K ''sigsuspend error'' []
           else
             io_then (pr_mask K ''after return from sigsuspend:'')
             (io_bind (catching K (suspend_sig_int K) ''sigprocmask'' (AInt SIG_SETMASK # map AInt oldmask)) (\<lambda>r.
              if r < 0 then err_sys K ''SIG_SETMASK error'' []
              else io_then (pr_mask K ''program exit:'') (io_exit 0))))))))"

section \<open>ch10_sigsuspend_global.c\<close>

record 'k quit = "'k world" +
  quitflag :: int

definition quit_sig_int :: "'k kernel \<Rightarrow> int \<Rightarrow> ('k quit, unit) io" where
  "quit_sig_int K signo =
     (if signo = SIGINT then printf K (NL # ''interrupt'') []
      else if signo = SIGQUIT then io_mod (\<lambda>w. w\<lparr>quitflag := 1\<rparr>)
      else io_return ())"

definition quit_turn :: "'k kernel \<Rightarrow> unit \<Rightarrow> ('k quit, unit + unit) io" where
  "quit_turn K _ =
     io_bind (io_get quitflag) (\<lambda>q.
     if q = 0 then
       io_then (printf K ''sigsuspend begini'' [])
       (io_bind (catching K (quit_sig_int K) ''sigsuspend'' []) (\<lambda>_. io_return (Inl ())))
     else io_return (Inr ()))"

definition quit_main :: "'k kernel \<Rightarrow> nat \<Rightarrow> ('k quit, unit) io" where
  "quit_main K fuel =
     io_bind (signal K SIGINT (APtr ''sig_int'')) (\<lambda>r.
     if r = SIG_ERR then err_sys K ''signal(SIGINT) error'' []
     else
       io_bind (signal K SIGQUIT (APtr ''sig_int'')) (\<lambda>r.
       if r = SIG_ERR then err_sys K ''signal(SIGQUIT) error'' []
       else
         io_bind (sigprocmask K SIG_BLOCK [SIGINT]) (\<lambda>(r, oldmask).
         if r < 0 then err_sys K ''SIG_BLOCK error'' []
         else
           io_bind (io_loop fuel (quit_turn K) ()) (\<lambda>_.
           io_then (io_mod (\<lambda>w. w\<lparr>quitflag := 0\<rparr>))
           (io_bind (catching K (quit_sig_int K) ''sigprocmask'' (AInt SIG_SETMASK # map AInt oldmask)) (\<lambda>r.
            if r < 0 then err_sys K ''SIG_SETMASK error'' [] else io_exit 0))))))"

section \<open>ch10_sigpending.c\<close>

definition sig_quit :: "'k kernel \<Rightarrow> int \<Rightarrow> (('k, 'z) world_scheme, unit) io" where
  "sig_quit K signo =
     io_then (printf K ''caught SIGQUIT'' [])
     (io_bind (signal K SIGQUIT (APtr ''SIG_DFL'')) (\<lambda>r.
      if r = SIG_ERR then err_sys K ''can't reset SIGQUIT'' [] else io_return ()))"

definition sigpending_main :: "'k kernel \<Rightarrow> (('k, 'z) world_scheme, unit) io" where
  "sigpending_main K =
     io_bind (signal K SIGQUIT (APtr ''sig_quit'')) (\<lambda>r.
     if r = SIG_ERR then err_sys K ''can't catch SIGQUIT'' []
     else
       io_bind (sigprocmask K SIG_BLOCK [SIGQUIT]) (\<lambda>(r, oldmask).
       if r < 0 then err_sys K ''SIG_BLOCK error'' []
       else
         io_bind (sleep K 5) (\<lambda>_.
         io_bind (sys_r K ''sigpending'' []) (\<lambda>p.
         if r_ret p < 0 then err_sys K ''sigpending error'' []
         else
           io_then (io_when (SIGQUIT \<in> set (r_ints p)) (printf K (NL # ''SIGQUIT pending'') []))
           (io_bind (catching K (sig_quit K) ''sigprocmask'' (AInt SIG_SETMASK # map AInt oldmask)) (\<lambda>r.
            if r < 0 then err_sys K ''SIG_SETMASK, error'' []
            else
              io_then (printf K ''SIGQUIT unblocked'' [])
              (io_bind (sleep K 5) (\<lambda>_. io_exit 0))))))))"

section \<open>Lemmas\<close>

lemma io_each_nothing: "io_each (\<lambda>_. io_return ()) xs w = (Ok (), w)"
  by (induction xs arbitrary: w) (simp_all add: io_then_def)

lemma catching_nothing:
  "catching K sig_alrm nm args = sys K nm args"
  by (simp add: catching_def sys_def sig_alrm_def [abs_def] io_then_def fun_eq_iff io_bind_def sys_r_run
    io_each_nothing)

text \<open>The last two calls put back the action and the mask that the first two found.\<close>

lemma sleep_calls:
  "\<exists>w' a m u. sleep K n w = (Ok u, w') \<and>
     map fst (w_trace w') = map fst (w_trace w) @
       [(''sigaction'', [AInt SIGALRM, APtr ''sig_alrm'', AInt 0]),
        (''sigprocmask'', [AInt SIG_BLOCK, AInt SIGALRM]), (''alarm'', [AInt n]),
        (''sigsuspend'', map AInt (filter (\<lambda>s. s \<noteq> SIGALRM) m)), (''alarm'', [AInt 0]),
        (''sigaction'', [AInt SIGALRM, AInt a]), (''sigprocmask'', AInt SIG_SETMASK # map AInt m)]"
  by (simp add: sleep_def sigprocmask_def catching_nothing io_then_def io_bind_def sys_def do_call_def
    sys_r_run split_beta Let_def) blast

end
