(* ===== verification/TellWait.thy ===== *)
theory TellWait
  imports Signals FdIO
begin

text \<open>
  apue/lib/tellwait.c and the programs that use it: ch10_signal_fork.c (with its own copy),
  ch08_racecondition.c, ch08_racecondition2.c, ch14_lock.c, ch14_deadlock.c. \<open>fork\<close> answers 0 in
  the child, so the program of a process is the branch for its reply.

  Then parent and child together, at the granularity of the calls that matter: each has a list of
  actions to do, a mask, a handler, a pending signal and the flag the handler sets. A signal kills
  a process that neither blocks it nor has a handler.

  The lemmas: with the calls in the right order the outputs never mix and no run blocks;
  ch10_signal_fork.c calls \<open>TELL_WAIT\<close> after the fork, so the parent can be killed.
\<close>

section \<open>tellwait.c\<close>

record 'k tw = "'k world" +
  sigflag :: int
  tw_oldmask :: "int list"

definition sig_usr :: "int \<Rightarrow> ('k tw, unit) io" where
  "sig_usr signo = io_mod (\<lambda>w. w\<lparr>sigflag := 1\<rparr>)"

definition TELL_WAIT :: "'k kernel \<Rightarrow> ('k tw, unit) io" where
  "TELL_WAIT K =
     io_bind (signal K SIGUSR1 (APtr ''sig_usr'')) (\<lambda>r.
     if r = SIG_ERR then err_sys K ''signal(SIGUSR1) error'' []
     else
       io_bind (signal K SIGUSR2 (APtr ''sig_usr'')) (\<lambda>r.
       if r = SIG_ERR then err_sys K ''signal(SIGUSR2) error'' []
       else
         io_bind (sigprocmask K SIG_BLOCK [SIGUSR1, SIGUSR2]) (\<lambda>(r, old).
         if r < 0 then err_sys K ''SIG_BLOCK error'' []
         else io_mod (\<lambda>w. w\<lparr>tw_oldmask := old\<rparr>))))"

definition TELL_PARENT :: "'k kernel \<Rightarrow> int \<Rightarrow> ('k tw, unit) io" where
  "TELL_PARENT K pid = do_call K ''kill'' [AInt pid, AInt SIGUSR2]"

definition TELL_CHILD :: "'k kernel \<Rightarrow> int \<Rightarrow> ('k tw, unit) io" where
  "TELL_CHILD K pid = do_call K ''kill'' [AInt pid, AInt SIGUSR1]"

text \<open>\<open>while (sigflag == 0) sigsuspend(&zeromask);\<close>\<close>

definition wait_turn :: "'k kernel \<Rightarrow> unit \<Rightarrow> ('k tw, unit + unit) io" where
  "wait_turn K _ =
     io_bind (io_get sigflag) (\<lambda>f.
     if f = 0 then io_bind (catching K sig_usr ''sigsuspend'' []) (\<lambda>_. io_return (Inl ()))
     else io_return (Inr ()))"

definition WAIT_PARENT :: "'k kernel \<Rightarrow> nat \<Rightarrow> ('k tw, unit) io" where
  "WAIT_PARENT K fuel =
     io_bind (io_loop fuel (wait_turn K) ()) (\<lambda>_.
     io_then (io_mod (\<lambda>w. w\<lparr>sigflag := 0\<rparr>))
     (io_bind (io_get tw_oldmask) (\<lambda>old.
      io_bind (catching K sig_usr ''sigprocmask'' (AInt SIG_SETMASK # map AInt old)) (\<lambda>r.
      if r < 0 then err_sys K ''SIG_SETMASK error'' [] else io_return ()))))"

definition WAIT_CHILD :: "'k kernel \<Rightarrow> nat \<Rightarrow> ('k tw, unit) io" where
  "WAIT_CHILD K fuel =
     io_bind (io_loop fuel (wait_turn K) ()) (\<lambda>_.
     io_then (io_mod (\<lambda>w. w\<lparr>sigflag := 0\<rparr>))
     (io_bind (io_get tw_oldmask) (\<lambda>old.
      io_bind (catching K sig_usr ''sigprocmask'' (AInt SIG_SETMASK # map AInt old)) (\<lambda>r.
      if r < 0 then err_sys K ''SIG_SETMASK error'' [] else io_return ()))))"

section \<open>The programs\<close>

definition signal_fork_main :: "'k kernel \<Rightarrow> nat \<Rightarrow> ('k tw, unit) io" where
  "signal_fork_main K fuel =
     io_bind (sys K ''fork'' []) (\<lambda>pid.
     io_then
       (if pid < 0 then err_sys K ''fork error'' []
        else if pid = 0 then
          io_seq
            [printf K ''child running'' [],
             io_bind (sleep K 5) (\<lambda>_. io_return ()),
             printf K ''child done'' [],
             io_bind (sys K ''getppid'' []) (TELL_PARENT K)]
        else
          io_seq
            [TELL_WAIT K, printf K ''parent running'' [], WAIT_CHILD K fuel, printf K ''parent done'' []])
       (io_exit 0))"

text \<open>One character at a time, unbuffered.\<close>

definition charatatime :: "'k kernel \<Rightarrow> string \<Rightarrow> (('k, 'z) world_scheme, unit) io" where
  "charatatime K str =
     io_then (do_call K ''setbuf'' [AStr ''stdout'', ANull])
       (io_each (\<lambda>c. do_call K ''putc'' [AStr [c], AStr ''stdout'']) str)"

definition child_text :: string where "child_text = ''output from child'' @ [NL]"
definition parent_text :: string where "parent_text = ''output from parent'' @ [NL]"

definition race_main :: "'k kernel \<Rightarrow> (('k, 'z) world_scheme, unit) io" where
  "race_main K =
     io_bind (sys K ''fork'' []) (\<lambda>pid.
     io_then
       (if pid < 0 then err_sys K ''fork error'' []
        else if pid = 0 then charatatime K child_text
        else charatatime K parent_text)
       (io_exit 0))"

definition race2_main :: "'k kernel \<Rightarrow> nat \<Rightarrow> ('k tw, unit) io" where
  "race2_main K fuel =
     io_then (TELL_WAIT K)
     (io_bind (sys K ''fork'' []) (\<lambda>pid.
      io_then
        (if pid < 0 then err_sys K ''fork error'' []
         else if pid = 0 then io_then (WAIT_PARENT K fuel) (charatatime K child_text)
         else io_then (charatatime K parent_text) (TELL_CHILD K pid))
        (io_exit 0)))"

definition O_RDWR_CREAT_TRUNC :: int where "O_RDWR_CREAT_TRUNC = 578"
definition FILE_MODE :: int where "FILE_MODE = 420"
definition S_IXGRP :: int where "S_IXGRP = 8"
definition S_ISGID :: int where "S_ISGID = 1024"
definition O_NONBLOCK :: int where "O_NONBLOCK = 2048"

definition chars_bytes :: "string \<Rightarrow> byte list" where
  "chars_bytes s = map (\<lambda>c. of_nat (of_char c)) s"

text \<open>The regions are whole files: offset 0, length 0. The reply to \<open>fstat\<close> has the mode.\<close>

definition lock_main :: "'k kernel \<Rightarrow> nat \<Rightarrow> string list \<Rightarrow> ('k tw, unit) io" where
  "lock_main K fuel argv =
     (if length argv \<noteq> 2 then
        io_then (eprintf K ''usage: %s filename'' [case argv of a # _ \<Rightarrow> AStr a | [] \<Rightarrow> ANull]) (io_exit 1)
      else
        io_bind (sys K ''open'' [AStr (argv ! 1), AInt O_RDWR_CREAT_TRUNC, AInt FILE_MODE]) (\<lambda>fd.
        if fd < 0 then err_sys K ''open error'' []
        else
          io_bind (sys K ''write'' [AInt fd, ABytes (chars_bytes (''abcdf'' @ [NUL]))]) (\<lambda>n.
          if n \<noteq> 6 then err_sys K ''write error'' []
          else
            io_bind (sys_r K ''fstat'' [AInt fd]) (\<lambda>st.
            if r_ret st < 0 then err_sys K ''fstat error'' []
            else
              io_bind (sys K ''fchmod'' [AInt fd, AInt (or (and (int_at st 0) (not S_IXGRP)) S_ISGID)]) (\<lambda>r.
              if r < 0 then err_sys K ''fchmod error'' []
              else
                io_then (TELL_WAIT K)
                (io_bind (sys K ''fork'' []) (\<lambda>pid.
                 io_then
                   (if pid < 0 then err_sys K ''fork_error'' []
                    else if pid > 0 then
                      io_bind (lock_reg K fd F_SETLK F_WRLCK 0 0 0) (\<lambda>r.
                      if r < 0 then err_sys K ''write_lock error'' []
                      else
                        io_then (TELL_CHILD K pid)
                        (io_bind (sys K ''waitpid'' [AInt pid, ANull, AInt 0]) (\<lambda>r.
                         if r < 0 then err_sys K ''waitpid error'' [] else io_return ())))
                    else
                      io_then (WAIT_PARENT K fuel)
                      (io_then (set_fl K fd O_NONBLOCK)
                      (io_bind (lock_reg K fd F_SETLK F_RDLCK 0 0 0) (\<lambda>r.
                       if r \<noteq> - 1 then err_sys K ''child: read_lock succeeded'' []
                       else
                         io_bind get_errno (\<lambda>e.
                         io_then (printf K ''read_lock of already-locked region returns %d'' [AInt e])
                         (io_bind (sys K ''lseek'' [AInt fd, AInt 0, AInt 0]) (\<lambda>r.
                          if r = - 1 then err_sys K ''lseek error'' []
                          else
                            io_bind (sys_r K ''read'' [AInt fd, AInt 2]) (\<lambda>r.
                            if r_ret r < 0 then err_ret K ''read failed (mandatory locking works'' []
                            else printf K ''read ok(no mandatory locking), buf = %2.2s'' [ABytes (r_bytes r)]))))))))
                   (io_exit 0))))))))"

text \<open>The test \<open>> 0\<close> in \<open>lockabyte\<close> never sees a failure, which is -1.\<close>

definition lockabyte :: "'k kernel \<Rightarrow> string \<Rightarrow> int \<Rightarrow> int \<Rightarrow> (('k, 'z) world_scheme, unit) io" where
  "lockabyte K name fd offset =
     io_bind (lock_reg K fd F_SETLKW F_WRLCK offset 0 1) (\<lambda>r.
     if r > 0 then err_sys K ''%s: writew_lcok error'' [AStr name]
     else printf K ''%s: got the lock, byte %lld'' [AStr name, AInt offset])"

definition deadlock_main :: "'k kernel \<Rightarrow> nat \<Rightarrow> ('k tw, unit) io" where
  "deadlock_main K fuel =
     io_bind (sys K ''creat'' [AStr ''tmplock'', AInt FILE_MODE]) (\<lambda>fd.
     if fd < 0 then err_sys K ''create error'' []
     else
       io_bind (sys K ''write'' [AInt fd, ABytes (chars_bytes ''ab'')]) (\<lambda>n.
       if n \<noteq> 2 then err_sys K ''write error'' []
       else
         io_then (TELL_WAIT K)
         (io_bind (sys K ''fork'' []) (\<lambda>pid.
          io_then
            (if pid < 0 then err_sys K ''fork error'' []
             else if pid = 0 then
               io_seq
                 [lockabyte K ''child'' fd 0, io_bind (sys K ''getppid'' []) (TELL_PARENT K),
                  WAIT_PARENT K fuel, lockabyte K ''child'' fd 1]
             else
               io_seq
                 [lockabyte K ''parent'' fd 1, TELL_CHILD K pid, WAIT_CHILD K fuel, lockabyte K ''parent'' fd 0])
            (io_exit 0)))))"

section \<open>Parent and child together\<close>

text \<open>
  The actions of a process: a character written, the signal sent to the other, one turn of the loop
  of \<open>WAIT_PARENT\<close> or \<open>WAIT_CHILD\<close>, the reset of the mask at its end, the two parts of \<open>TELL_WAIT\<close>.
\<close>

datatype act = Put char | Tell | Wait | Unmask | Install | Mask

record party =
  p_acts :: "act list"
  p_handler :: bool
  p_blocked :: bool
  p_pending :: bool
  p_flag :: bool
  p_killed :: bool

definition killed :: "party \<Rightarrow> party" where
  "killed q = q\<lparr>p_acts := [], p_killed := True\<rparr>"

text \<open>A signal arrives; a process that has ended takes no notice.\<close>

definition signalled :: "party \<Rightarrow> party" where
  "signalled q =
     (if p_acts q = [] then q
      else if p_blocked q then q\<lparr>p_pending := True\<rparr>
      else if p_handler q then q\<lparr>p_flag := True\<rparr>
      else killed q)"

text \<open>A pending signal is let through.\<close>

definition let_through :: "party \<Rightarrow> party" where
  "let_through q =
     (if p_pending q then
        (if p_handler q then q\<lparr>p_pending := False, p_flag := True\<rparr> else killed q)
      else q)"

text \<open>The next action of a process: the process, the other, the output. \<open>Wait\<close> with no flag and no
  pending signal is a process inside \<open>sigsuspend\<close>: it has no step.\<close>

definition act_step :: "party \<Rightarrow> party \<Rightarrow> (party \<times> party \<times> string) option" where
  "act_step me other =
     (case p_acts me of
        [] \<Rightarrow> None
      | Put c # as \<Rightarrow> Some (me\<lparr>p_acts := as\<rparr>, other, [c])
      | Tell # as \<Rightarrow> Some (me\<lparr>p_acts := as\<rparr>, signalled other, [])
      | Install # as \<Rightarrow> Some (me\<lparr>p_acts := as, p_handler := True\<rparr>, other, [])
      | Mask # as \<Rightarrow> Some (me\<lparr>p_acts := as, p_blocked := True\<rparr>, other, [])
      | Unmask # as \<Rightarrow> Some (let_through (me\<lparr>p_acts := as, p_blocked := False\<rparr>), other, [])
      | Wait # as \<Rightarrow>
          if p_flag me then Some (me\<lparr>p_acts := as, p_flag := False\<rparr>, other, [])
          else if p_pending me then Some (let_through me, other, [])
          else None)"

type_synonym duo = "party \<times> party \<times> string"

inductive duo_step :: "duo \<Rightarrow> duo \<Rightarrow> bool" where
  parent: "act_step p c = Some (p', c', s) \<Longrightarrow> duo_step (p, c, out) (p', c', out @ s)"
| child: "act_step c p = Some (c', p', s) \<Longrightarrow> duo_step (p, c, out) (p', c', out @ s)"

inductive_cases duo_stepE: "duo_step (p, c, out) d"

text \<open>What each process of ch08_racecondition2.c has to do after the fork, and of ch10_signal_fork.c.\<close>

definition tell_wait_done :: "act list \<Rightarrow> party" where
  "tell_wait_done as =
     \<lparr>p_acts = as, p_handler = True, p_blocked = True, p_pending = False, p_flag = False, p_killed = False\<rparr>"

definition race2_start :: "string \<Rightarrow> string \<Rightarrow> duo" where
  "race2_start xs ys =
     (tell_wait_done (map Put xs @ [Tell]), tell_wait_done (Wait # Unmask # map Put ys), [])"

definition fresh :: "act list \<Rightarrow> party" where
  "fresh as = \<lparr>p_acts = as, p_handler = False, p_blocked = False, p_pending = False, p_flag = False, p_killed = False\<rparr>"

definition signal_fork_start :: "string \<Rightarrow> string \<Rightarrow> string \<Rightarrow> duo" where
  "signal_fork_start cs ps qs =
     (fresh (Install # Mask # map Put ps @ Wait # Unmask # map Put qs), fresh (map Put cs @ [Tell]), [])"

section \<open>Lemmas\<close>

text \<open>The five phases of a run of ch08_racecondition2.c.\<close>

inductive race2_inv :: "string \<Rightarrow> string \<Rightarrow> duo \<Rightarrow> bool" for xs ys where
  writing: "xs = u @ v \<Longrightarrow> race2_inv xs ys
    (tell_wait_done (map Put v @ [Tell]), tell_wait_done (Wait # Unmask # map Put ys), u)"
| told: "race2_inv xs ys
    (tell_wait_done [], (tell_wait_done (Wait # Unmask # map Put ys))\<lparr>p_pending := True\<rparr>, xs)"
| caught: "race2_inv xs ys
    (tell_wait_done [], (tell_wait_done (Wait # Unmask # map Put ys))\<lparr>p_flag := True\<rparr>, xs)"
| woken: "race2_inv xs ys (tell_wait_done [], tell_wait_done (Unmask # map Put ys), xs)"
| answering: "ys = u @ v \<Longrightarrow> race2_inv xs ys
    (tell_wait_done [], (tell_wait_done (map Put v))\<lparr>p_blocked := False\<rparr>, xs @ u)"

text \<open>The steps that are left.\<close>

definition steps_left :: "duo \<Rightarrow> nat" where
  "steps_left d = (case d of (p, c, out) \<Rightarrow> length (p_acts p) + length (p_acts c) +
     (if Wait \<in> set (p_acts c) \<and> \<not> p_flag c then 1 else 0))"

lemmas act_steps = act_step_def tell_wait_done_def signalled_def let_through_def

lemma race2_step:
  assumes "duo_step d d'" "race2_inv xs ys d"
  shows "race2_inv xs ys d' \<and> steps_left d = Suc (steps_left d')"
  using assms(2)
proof cases
  case (writing u v)
  show ?thesis
  proof (cases v)
    case Nil
    then show ?thesis using assms(1) writing race2_inv.told [of xs ys]
      by (auto simp: act_steps steps_left_def elim!: duo_stepE)
  next
    case (Cons x vs)
    have "race2_inv xs ys (tell_wait_done (map Put vs @ [Tell]), tell_wait_done (Wait # Unmask # map Put ys), u @ [x])"
      using writing Cons by (intro race2_inv.writing) simp
    then show ?thesis using assms(1) writing Cons by (auto simp: act_steps steps_left_def elim!: duo_stepE)
  qed
next
  case told
  then show ?thesis using assms(1) race2_inv.caught [of xs ys]
    by (auto simp: act_steps steps_left_def elim!: duo_stepE)
next
  case caught
  then show ?thesis using assms(1) race2_inv.woken [of xs ys]
    by (auto simp: act_steps steps_left_def elim!: duo_stepE)
next
  case woken
  then show ?thesis using assms(1) race2_inv.answering [of ys "[]" ys xs]
    by (auto simp: act_steps steps_left_def elim!: duo_stepE)
next
  case (answering u v)
  show ?thesis
  proof (cases v)
    case Nil
    then show ?thesis using assms(1) answering by (auto simp: act_steps elim!: duo_stepE)
  next
    case (Cons y vs)
    have "race2_inv xs ys (tell_wait_done [], (tell_wait_done (map Put vs))\<lparr>p_blocked := False\<rparr>, xs @ (u @ [y]))"
      using answering Cons by (intro race2_inv.answering) simp
    then show ?thesis using assms(1) answering Cons by (auto simp: act_steps steps_left_def elim!: duo_stepE)
  qed
qed
lemma race2_start_inv: "race2_inv xs ys (race2_start xs ys)"
  using race2_inv.writing [of xs "[]" xs ys] by (simp add: race2_start_def)

interpretation race2: invariant_system "\<lambda>d. d = race2_start xs ys" duo_step "race2_inv xs ys" for xs ys
  by unfold_locales (auto simp: race2_start_inv dest: race2_step)

lemma race2_counts:
  "(duo_step ^^ n) (race2_start xs ys) d \<Longrightarrow>
     race2_inv xs ys d \<and> n + steps_left d = length xs + length ys + 4"
proof (induction n arbitrary: d)
  case 0
  then have "d = race2_start xs ys" by simp
  moreover have "steps_left (race2_start xs ys) = length xs + length ys + 4"
    by (simp add: race2_start_def steps_left_def tell_wait_done_def)
  ultimately show ?case using race2_start_inv by simp
next
  case (Suc n)
  then obtain d' where "(duo_step ^^ n) (race2_start xs ys) d'" "duo_step d' d" by auto
  with Suc.IH [of d'] race2_step [of d' d xs ys] show ?case by simp
qed

lemma race2_progress: "race2_inv xs ys d \<Longrightarrow> 0 < steps_left d \<Longrightarrow> \<exists>d'. duo_step d d'"
proof (induction rule: race2_inv.cases)
  case (writing u v)
  then show ?case
    by (cases v) (auto simp: act_steps intro!: exI duo_step.parent)
next
  case (answering u v)
  then show ?case
    by (cases v) (auto simp: act_steps steps_left_def intro!: exI duo_step.child)
qed (auto simp: act_steps intro!: exI duo_step.child)

lemma race2_end: "race2_inv xs ys (p, c, out) \<Longrightarrow> steps_left (p, c, out) = 0 \<Longrightarrow> out = xs @ ys"
  by (erule race2_inv.cases) (auto simp: steps_left_def tell_wait_done_def)

lemma race2_output: "race2_inv xs ys (p, c, out) \<Longrightarrow> (\<exists>rest. out @ rest = xs @ ys) \<and> \<not> p_killed p \<and> \<not> p_killed c"
  by (erule race2_inv.cases) (auto simp: tell_wait_done_def)

section \<open>The properties\<close>

text \<open>
  Claim C6. Parent and child of ch08_racecondition2.c, in every interleaving, for any two texts: no
  run is longer than the characters and the four calls between them, every shorter run can go on,
  and at the end the output is the parent's text and then the child's; before the end it is a
  prefix of that, and nobody is killed.
\<close>

theorem tell_wait_orders:
  assumes "(duo_step ^^ n) (race2_start xs ys) (p, c, out)"
  shows "n \<le> length xs + length ys + 4 \<and>
    (n < length xs + length ys + 4 \<longrightarrow> (\<exists>d. duo_step (p, c, out) d)) \<and>
    (n = length xs + length ys + 4 \<longrightarrow> out = xs @ ys) \<and>
    (\<exists>rest. out @ rest = xs @ ys) \<and> \<not> p_killed p \<and> \<not> p_killed c"
proof -
  have inv: "race2_inv xs ys (p, c, out)" and n: "n + steps_left (p, c, out) = length xs + length ys + 4"
    using race2_counts [OF assms] by auto
  have "steps_left (p, c, out) = 0" if "n = length xs + length ys + 4" using n that by simp
  moreover have "0 < steps_left (p, c, out)" if "n < length xs + length ys + 4" using n that by simp
  ultimately show ?thesis
    using n race2_output [OF inv] race2_progress [OF inv] race2_end [OF inv] by (auto simp del: split_paired_Ex)
qed

lemma puts_run:
  "p_acts c = map Put cs @ as \<Longrightarrow> duo_step\<^sup>*\<^sup>* (p, c, out) (p, c\<lparr>p_acts := as\<rparr>, out @ cs)"
proof (induction cs arbitrary: c out)
  case Nil
  then have "c\<lparr>p_acts := as\<rparr> = c" by simp
  then show ?case by simp
next
  case (Cons x cs)
  then have "duo_step (p, c, out) (p, c\<lparr>p_acts := map Put cs @ as\<rparr>, out @ [x])"
    by (intro duo_step.child) (simp add: act_step_def)
  moreover have "duo_step\<^sup>*\<^sup>* (p, c\<lparr>p_acts := map Put cs @ as\<rparr>, out @ [x]) (p, c\<lparr>p_acts := as\<rparr>, (out @ [x]) @ cs)"
    using Cons.IH [of "c\<lparr>p_acts := map Put cs @ as\<rparr>" "out @ [x]"] by simp
  ultimately show ?case by (simp add: converse_rtranclp_into_rtranclp)
qed

text \<open>
  ch10_signal_fork.c calls \<open>TELL_WAIT\<close> only in the parent and after the fork: when the
  child is done first, its signal kills the parent, which then prints nothing.
\<close>

theorem signal_fork_kills_parent:
  "\<exists>p c. duo_step\<^sup>*\<^sup>* (signal_fork_start cs ps qs) (p, c, cs) \<and> p_killed p \<and> p_acts c = [] \<and>
     (\<forall>d. \<not> duo_step (p, c, cs) d)"
proof -
  let ?p = "fresh (Install # Mask # map Put ps @ Wait # Unmask # map Put qs)"
  let ?c = "fresh (map Put cs @ [Tell])"
  have "duo_step\<^sup>*\<^sup>* (?p, ?c, []) (?p, ?c\<lparr>p_acts := [Tell]\<rparr>, [] @ cs)"
    by (rule puts_run) (simp add: fresh_def)
  moreover have "duo_step (?p, ?c\<lparr>p_acts := [Tell]\<rparr>, cs) (killed ?p, ?c\<lparr>p_acts := []\<rparr>, cs @ [])"
    by (rule duo_step.child) (simp add: act_step_def fresh_def signalled_def killed_def)
  ultimately have "duo_step\<^sup>*\<^sup>* (signal_fork_start cs ps qs) (killed ?p, ?c\<lparr>p_acts := []\<rparr>, cs)"
    by (simp add: signal_fork_start_def)
  moreover have "\<not> duo_step (killed ?p, ?c\<lparr>p_acts := []\<rparr>, cs) d" for d
    by (auto simp: act_step_def killed_def elim: duo_stepE)
  ultimately show ?thesis by (intro exI [of _ "killed ?p"] exI [of _ "?c\<lparr>p_acts := []\<rparr>"]) (auto simp: killed_def)
qed

section \<open>Witnesses\<close>

theorem tell_wait_orders_witness:
  "\<exists>d. (duo_step ^^ 1) (race2_start ''p'' ''c'') d \<and> snd (snd d) = ''p'' \<and> (\<exists>d'. duo_step d d')"
proof -
  let ?d = "(tell_wait_done [Tell], tell_wait_done [Wait, Unmask, Put (CHR ''c'')], ''p'')"
  have "duo_step (race2_start ''p'' ''c'') (tell_wait_done [Tell], tell_wait_done [Wait, Unmask, Put (CHR ''c'')], [] @ ''p'')"
    unfolding race2_start_def by (rule duo_step.parent) (simp add: act_step_def tell_wait_done_def)
  then have r: "(duo_step ^^ 1) (race2_start ''p'' ''c'') ?d" by (simp add: eq_OO)
  from tell_wait_orders [OF r] have "\<exists>d'. duo_step ?d d'" by simp
  with r show ?thesis by (intro exI [of _ ?d]) simp
qed

end
