(* ===== verification/Daemon.thy ===== *)
theory Daemon
  imports TellWait
begin

text \<open>
  apue/lib/daemonize.c and apue/ch13: ch13_daemon.c and init.c have the same \<open>daemonize\<close> again,
  ch13_daemon.c and single.c the same \<open>already_running\<close>. \<open>lockfile\<close> is declared there and defined
  nowhere, so it is a call of the environment, as are the functions of the thread library.

  The lemma: what is left of a process that \<open>daemonize\<close> has made.
\<close>

section \<open>daemonize\<close>

definition SIGHUP :: int where "SIGHUP = 1"
definition SIGTERM :: int where "SIGTERM = 15"
definition RLIM_INFINITY :: int where "RLIM_INFINITY = 2 ^ 64 - 1"
definition O_RDWR :: int where "O_RDWR = 2"
definition O_RDWR_CREAT :: int where "O_RDWR_CREAT = 66"
definition LOG_CONS :: int where "LOG_CONS = 2"
definition LOG_DAEMON :: int where "LOG_DAEMON = 24"
definition LOG_INFO :: int where "LOG_INFO = 6"

text \<open>The child goes on; the parent leaves with status 0.\<close>

definition fork_and_leave :: "'k kernel \<Rightarrow> string \<Rightarrow> (('k, 'z) world_scheme, unit) io" where
  "fork_and_leave K cmd =
     io_bind (sys K ''fork'' []) (\<lambda>pid.
     if pid < 0 then err_quit K ''%s: can't fork'' [AStr cmd]
     else if pid \<noteq> 0 then io_exit 0
     else io_return ())"

definition close_all :: "'k kernel \<Rightarrow> int \<Rightarrow> (('k, 'z) world_scheme, unit) io" where
  "close_all K rlim_max =
     (let m = (if rlim_max = RLIM_INFINITY then 1024 else rlim_max) in
      io_each (\<lambda>i. do_call K ''close'' [AInt (int i)]) [0 ..< nat m])"

text \<open>The reply to \<open>getrlimit\<close> has the soft and the hard limit.\<close>

definition daemonize :: "'k kernel \<Rightarrow> string \<Rightarrow> (('k, 'z) world_scheme, unit) io" where
  "daemonize K cmd =
     io_then (do_call K ''umask'' [AInt 0])
     (io_bind (sys_r K ''getrlimit'' [AStr ''RLIMIT_NOFILE'']) (\<lambda>rl.
      if r_ret rl < 0 then err_quit K ''%s: can't get file limit'' [AStr cmd]
      else
        io_then (fork_and_leave K cmd)
        (io_then (do_call K ''setsid'' [])
        (io_bind (sys K ''sigaction'' [AInt SIGHUP, APtr ''SIG_IGN'', AInt 0]) (\<lambda>r.
         if r < 0 then err_quit K ''%s: can't ignore SIGHUP'' [AStr cmd]
         else
           io_then (fork_and_leave K cmd)
           (io_bind (sys K ''chdir'' [AStr ''/'']) (\<lambda>r.
            if r < 0 then err_quit K ''%s: can't change directory to /'' [AStr cmd]
            else
              io_then (close_all K (int_at rl 1))
              (io_bind (sys K ''open'' [AStr ''/dev/null'', AInt O_RDWR]) (\<lambda>fd0.
               io_bind (sys K ''dup'' [AInt 0]) (\<lambda>fd1.
               io_bind (sys K ''dup'' [AInt 0]) (\<lambda>fd2.
               io_then (do_call K ''openlog'' [AStr cmd, AInt LOG_CONS, AInt LOG_DAEMON])
               (if fd0 \<noteq> 0 \<or> fd1 \<noteq> 1 \<or> fd2 \<noteq> 2 then
                  io_then
                    (do_call K ''syslog''
                       [AInt LOG_ERR, AStr ''unexpected file descriptors %d %d %d'', AInt fd0, AInt fd1, AInt fd2])
                    (io_exit 1)
                else io_return ()))))))))))))"

definition ch13_daemonize :: "'k kernel \<Rightarrow> string \<Rightarrow> (('k, 'z) world_scheme, unit) io" where
  "ch13_daemonize K cmd = daemonize K cmd"

definition init_daemonize :: "'k kernel \<Rightarrow> string \<Rightarrow> (('k, 'z) world_scheme, unit) io" where
  "init_daemonize K cmd = daemonize K cmd"

section \<open>already_running\<close>

definition LOCKFILE :: string where "LOCKFILE = ''/var/run/daemon.pid''"
definition LOCKMODE :: int where "LOCKMODE = 420"

definition lock_failure :: "'k kernel \<Rightarrow> string \<Rightarrow> (('k, 'z) world_scheme, int) io" where
  "lock_failure K fmt =
     io_bind get_errno (\<lambda>e.
     io_bind (error_text K True e) (\<lambda>tx.
     io_then (do_call K ''syslog'' [AInt LOG_ERR, AStr fmt, AStr LOCKFILE, AStr tx]) (io_exit 1)))"

definition already_running :: "'k kernel \<Rightarrow> (('k, 'z) world_scheme, int) io" where
  "already_running K =
     io_bind (sys K ''open'' [AStr LOCKFILE, AInt O_RDWR_CREAT, AInt LOCKMODE]) (\<lambda>fd.
     if fd < 0 then lock_failure K ''can't open %s: %s''
     else
       io_bind (sys K ''lockfile'' [AInt fd]) (\<lambda>r.
       if r < 0 then
         io_bind get_errno (\<lambda>e.
         if e = EACCES \<or> e = EAGAIN then io_then (do_call K ''close'' [AInt fd]) (io_return 1)
         else lock_failure K ''can't lock %s: %s'')
       else
         io_then (do_call K ''ftruncate'' [AInt fd, AInt 0])
         (io_bind (sys K ''getpid'' []) (\<lambda>pid.
          let buf = int_string pid in
          if length buf + 1 > 16 then io_fault OutOfBounds
          else io_then (do_call K ''write'' [AInt fd, ABytes (chars_bytes (buf @ [NUL]))]) (io_return 0)))))"

definition single_already_running :: "'k kernel \<Rightarrow> (('k, 'z) world_scheme, int) io" where
  "single_already_running K = already_running K"

section \<open>ch13_daemon.c\<close>

definition reread :: "'k kernel \<Rightarrow> (('k, 'z) world_scheme, unit) io" where
  "reread K = do_call K ''syslog'' [AInt LOG_INFO, AStr ''reread config'']"

text \<open>One turn of the signal thread; the reply to \<open>sigwait\<close> has the signal.\<close>

definition thr_turn :: "'k kernel \<Rightarrow> unit \<Rightarrow> (('k, 'z) world_scheme, unit + unit) io" where
  "thr_turn K _ =
     io_bind (sys_r K ''sigwait'' [APtr ''mask'']) (\<lambda>r.
     let signo = int_at r 0 in
     if r_ret r \<noteq> 0 then
       io_then (do_call K ''syslog'' [AInt LOG_ERR, AStr ''sigwait failed'']) (io_exit 1)
     else if signo = SIGHUP then
       io_then (do_call K ''syslog'' [AInt LOG_INFO, AStr ''Re-reading configuration file''])
         (io_then (reread K) (io_return (Inl ())))
     else if signo = SIGTERM then
       io_then (do_call K ''syslog'' [AInt LOG_INFO, AStr ''got SIGTERM; exiting'']) (io_exit 0)
     else
       io_then (do_call K ''syslog'' [AInt LOG_INFO, AStr ''unexpected signal %d'', AInt signo])
         (io_return (Inl ())))"

definition thr_fn :: "'k kernel \<Rightarrow> nat \<Rightarrow> (('k, 'z) world_scheme, unit) io" where
  "thr_fn K fuel = io_loop fuel (thr_turn K) ()"

definition base_name :: "string \<Rightarrow> string" where
  "base_name s = (if CHR ''/'' \<in> set s then rev (takeWhile (\<lambda>c. c \<noteq> CHR ''/'') (rev s)) else s)"

text \<open>
  \<open>err_quit\<close> gets a format with \<open>%s\<close> and no argument for it, so it reads an argument that is not
  there. After \<open>pthread_create\<close> the program exits, and the new thread with it.
\<close>

definition daemon_main :: "'k kernel \<Rightarrow> string list \<Rightarrow> (('k, 'z) world_scheme, unit) io" where
  "daemon_main K argv =
     (if argv = [] then io_fault OutOfBounds
      else
        let cmd = base_name (hd argv) in
        io_then (ch13_daemonize K cmd)
        (io_bind (already_running K) (\<lambda>running.
         if running \<noteq> 0 then
           io_then (do_call K ''syslog'' [AInt LOG_ERR, AStr ''daemon already running'']) (io_exit 1)
         else
           io_bind (sys K ''sigaction'' [AInt SIGHUP, APtr ''SIG_DFL'', AInt 0]) (\<lambda>r.
           if r < 0 then io_fault OutOfBounds
           else
             io_bind (sys K ''pthread_sigmask'' [AInt SIG_BLOCK, AStr ''all'']) (\<lambda>err.
             if err \<noteq> 0 then err_exit K err ''SIG_BLOCK error'' []
             else
               io_bind (sys K ''pthread_create'' [APtr ''thr_fn'']) (\<lambda>err.
               if err \<noteq> 0 then err_exit K err ''can't create thread'' [] else io_exit 0))))))"

section \<open>Lemmas\<close>

text \<open>\<open>never_returns m\<close>: no run of \<open>m\<close> comes back to its caller.\<close>

definition never_returns :: "('w, 'a) io \<Rightarrow> bool" where
  "never_returns m \<longleftrightarrow> returns (\<lambda>_. False) m"

lemma daemon_main_never_returns: "never_returns (daemon_main K argv)"
proof -
  have exits: "returns (\<lambda>_. False) (err_exit K e s as)" for e s as
    unfolding err_exit_def by (intro returns_then returns_exit)
  show ?thesis
    unfolding never_returns_def daemon_main_def
    by (auto simp: Let_def intro!: returns_fault returns_then returns_bind_any returns_exit exits)
qed

end
