(* ===== verification/Pty.thy ===== *)
theory Pty
  imports Daemon
begin

text \<open>
  apue/lib/ptyopen.c and ptyfork.c on Linux (the branches for SOLARIS and BSD are compiled out).
  A name written into a caller's array is returned as the new contents of the array. The terminal
  settings and the window size the caller passes, possibly NULL, are arguments of the calls.

  The lemmas: a name that was written is terminated and is the slave's name as far as it fits.
\<close>

section \<open>ptyopen.c\<close>

text \<open>\<open>strncpy\<close> into an array of that size, and the terminating zero at its last position.\<close>

definition copy_name :: "string \<Rightarrow> int \<Rightarrow> string result" where
  "copy_name s sz =
     (if sz \<le> 0 then Inl OutOfBounds
      else Inr ((take (nat sz) (s @ replicate (nat sz) NUL))[nat sz - 1 := NUL]))"

definition close_keeping_errno :: "'k kernel \<Rightarrow> int \<Rightarrow> (('k, 'z) world_scheme, unit) io" where
  "close_keeping_errno K fd =
     io_bind get_errno (\<lambda>err. io_then (do_call K ''close'' [AInt fd]) (set_errno err))"

text \<open>The reply to \<open>ptsname\<close> has the name, and 0 for NULL.\<close>

definition ptym_open :: "'k kernel \<Rightarrow> int \<Rightarrow> (('k, 'z) world_scheme, int \<times> string option) io" where
  "ptym_open K pts_namesz =
     io_bind (sys K ''posix_openpt'' [AInt O_RDWR]) (\<lambda>fdm.
     if fdm < 0 then io_return (- 1, None)
     else
       let errout = io_then (close_keeping_errno K fdm) (io_return (- 1, None)) in
       io_bind (sys K ''grantpt'' [AInt fdm]) (\<lambda>r.
       if r < 0 then errout
       else
         io_bind (sys K ''unlockpt'' [AInt fdm]) (\<lambda>r.
         if r < 0 then errout
         else
           io_bind (sys_r K ''ptsname'' [AInt fdm]) (\<lambda>ptr.
           if r_ret ptr = 0 then errout
           else
             io_bind (io_lift (copy_name (r_str ptr) pts_namesz)) (\<lambda>pts_name.
             io_return (fdm, Some pts_name))))))"

definition ptys_open :: "'k kernel \<Rightarrow> string \<Rightarrow> (('k, 'z) world_scheme, int) io" where
  "ptys_open K pts_name =
     io_bind (sys K ''open'' [AStr pts_name, AInt O_RDWR]) (\<lambda>fds.
     if fds < 0 then io_return (- 1) else io_return fds)"

section \<open>ptyfork.c\<close>

text \<open>The string in an array: up to the first zero.\<close>

definition c_text :: "string \<Rightarrow> string" where
  "c_text s = takeWhile (\<lambda>c. c \<noteq> NUL) s"

definition dup_std :: "'k kernel \<Rightarrow> int \<Rightarrow> int \<Rightarrow> string \<Rightarrow> (('k, 'z) world_scheme, unit) io" where
  "dup_std K fds n what =
     io_bind (sys K ''dup2'' [AInt fds, AInt n]) (\<lambda>r.
     if r \<noteq> n then err_sys K (''dup2 error to '' @ what) [] else io_return ())"

definition pty_child :: "'k kernel \<Rightarrow> int \<Rightarrow> string \<Rightarrow> arg \<Rightarrow> arg \<Rightarrow> (('k, 'z) world_scheme, int) io" where
  "pty_child K fdm pts_name slave_termios slave_winsize =
     io_bind (sys K ''setsid'' []) (\<lambda>r.
     if r < 0 then err_sys K ''setsid error'' []
     else
       io_bind (ptys_open K (c_text pts_name)) (\<lambda>fds.
       if fds < 0 then err_sys K ''can't open slave pty'' []
       else
         io_then (io_seq
           [do_call K ''close'' [AInt fdm],
            io_when (slave_termios \<noteq> ANull)
              (io_bind (sys K ''tcsetattr'' [AInt fds, AStr ''TCSANOW'', slave_termios]) (\<lambda>r.
               if r < 0 then err_sys K ''tcsetattr error on slave pty'' [] else io_return ())),
            io_when (slave_winsize \<noteq> ANull)
              (io_bind (sys K ''ioctl'' [AInt fds, AStr ''TIOCSWINSZ'', slave_winsize]) (\<lambda>r.
               if r < 0 then err_sys K ''TIOCSWINSZ error on slave pty'' [] else io_return ())),
            dup_std K fds 0 ''stdin'', dup_std K fds 1 ''stdout'', dup_std K fds 2 ''stderr'',
            io_when (fds \<noteq> 0 \<and> fds \<noteq> 1 \<and> fds \<noteq> 2) (do_call K ''close'' [AInt fds])])
         (io_return 0)))"

text \<open>
  The result: the process id, the master for the parent, and the contents of \<open>slave_name\<close> when the
  caller passed an array (with its size). The message about a failed open prints the array
  \<open>pts_name\<close>, which nothing has written, so its text is whatever lies there.
\<close>

definition pty_fork ::
  "'k kernel \<Rightarrow> int option \<Rightarrow> arg \<Rightarrow> arg \<Rightarrow>
     (('k, 'z) world_scheme, int \<times> int option \<times> string option) io" where
  "pty_fork K slave_namesz slave_termios slave_winsize =
     io_bind (ptym_open K 20) (\<lambda>(fdm, nm).
     case nm of
       None \<Rightarrow> err_sys K ''can't open master pty: %s, error %d'' [APtr ''pts_name'', AInt fdm]
     | Some pts_name \<Rightarrow>
         io_bind
           (case slave_namesz of
              None \<Rightarrow> io_return None
            | Some sz \<Rightarrow> io_bind (io_lift (copy_name (c_text pts_name) sz)) (\<lambda>s. io_return (Some s))) (\<lambda>slave_name.
         io_bind (sys K ''fork'' []) (\<lambda>pid.
         if pid < 0 then io_return (- 1, None, slave_name)
         else if pid = 0 then
           io_bind (pty_child K fdm pts_name slave_termios slave_winsize) (\<lambda>r. io_return (r, None, slave_name))
         else io_return (pid, Some fdm, slave_name))))"

section \<open>Lemmas\<close>

lemma c_text_append_NUL: "NUL \<notin> set s \<Longrightarrow> c_text (s @ NUL # t) = s"
  by (induction s) (auto simp: c_text_def)

lemma copy_name_text:
  assumes "NUL \<notin> set s" "copy_name s sz = Inr b"
  shows "length b = nat sz \<and> NUL \<in> set b \<and> c_text b = take (nat sz - 1) s"
proof -
  obtain n where n: "nat sz = Suc n" using assms(2) by (cases "nat sz") (auto simp: copy_name_def)
  have b: "b = (take (Suc n) (s @ replicate (Suc n) NUL))[n := NUL]"
    using assms(2) n by (auto simp: copy_name_def split: if_splits)
  have "take (Suc n) (s @ replicate (Suc n) NUL) = take n (s @ replicate (Suc n) NUL) @ [(s @ replicate (Suc n) NUL) ! n]"
    by (rule take_Suc_conv_app_nth) simp
  then have b': "b = take n (s @ replicate (Suc n) NUL) @ [NUL]"
    unfolding b
    using list_update_length [of "take n (s @ replicate (Suc n) NUL)" "(s @ replicate (Suc n) NUL) ! n" "[]" NUL]
    by (simp del: take_append replicate.simps)
  show ?thesis
  proof (cases "n \<le> length s")
    case True
    then have "b = take n s @ NUL # []" using b' by simp
    moreover have "NUL \<notin> set (take n s)" using assms(1) by (auto dest: in_set_takeD)
    ultimately show ?thesis using n True c_text_append_NUL by auto
  next
    case False
    then have "b = s @ NUL # (replicate (n - length s - 1) NUL @ [NUL])"
      using b' by (simp add: take_replicate replicate_app_Cons_same flip: replicate_Suc)
    then show ?thesis using n False c_text_append_NUL [OF assms(1)] by auto
  qed
qed

end
