(* ===== verification/BufArgs.thy ===== *)
theory BufArgs
  imports Posix CStr
begin

text \<open>
  apue/lib/bufargs.c: a line of words becomes an argument vector. \<open>strtok\<close> is the library's: it
  skips white space, takes the characters up to the next white space and goes on behind it. The
  vector is the list of its strings (its last, null entry apart), \<open>optfunc\<close> a program.

  The property: the vector is the list of the words of the line, except that the first entry keeps
  the white space in front of it, because it is the address of the line itself.
\<close>

section \<open>The code\<close>

definition MAXARGC :: nat where "MAXARGC = 50"

definition white :: "char \<Rightarrow> bool" where
  "white c \<longleftrightarrow> c = CHR '' '' \<or> c = CHR 0x09 \<or> c = NL"

text \<open>The token and what is left; \<open>None\<close> is NULL.\<close>

definition strtok :: "string \<Rightarrow> (string \<times> string) option" where
  "strtok s =
     (let t = dropWhile white s in
      if t = [] then None
      else Some (takeWhile (\<lambda>c. \<not> white c) t, tl (dropWhile (\<lambda>c. \<not> white c) t)))"

lemma strtok_shorter: "strtok s = Some (t, r) \<Longrightarrow> length r < length s"
proof -
  assume "strtok s = Some (t, r)"
  then have ne: "dropWhile white s \<noteq> []" and r: "r = tl (dropWhile (\<lambda>c. \<not> white c) (dropWhile white s))"
    by (auto simp: strtok_def Let_def split: if_splits)
  have "length (dropWhile (\<lambda>c. \<not> white c) (dropWhile white s)) \<le> length s"
    using length_dropWhile_le le_trans by blast
  moreover have "0 < length s" using ne by (cases s) auto
  ultimately show ?thesis unfolding r length_tl by linarith
qed

text \<open>The loop, with the number of the last argument; \<open>None\<close>: too many.\<close>

function args_loop :: "string \<Rightarrow> nat \<Rightarrow> string list option" where
  "args_loop rest argc =
     (case strtok rest of
        None \<Rightarrow> Some []
      | Some (ptr, rest) \<Rightarrow>
          if Suc argc \<ge> MAXARGC - 1 then None
          else map_option (\<lambda>as. ptr # as) (args_loop rest (Suc argc)))"
  by pat_completeness auto
termination
  by (relation "measure (\<lambda>(s, n). length s)") (auto dest: strtok_shorter)

declare args_loop.simps [simp del]

definition buf_argv :: "string \<Rightarrow> string list option" where
  "buf_argv buf =
     (case strtok buf of
        None \<Rightarrow> None
      | Some (t, rest) \<Rightarrow>
          map_option (\<lambda>as. (takeWhile white buf @ t) # as) (args_loop rest 0))"

definition buf_args :: "string \<Rightarrow> (string list \<Rightarrow> ('w, int) io) \<Rightarrow> ('w, int) io" where
  "buf_args buf optfunc =
     (case buf_argv buf of None \<Rightarrow> io_return (- 1) | Some argv \<Rightarrow> optfunc argv)"

section \<open>Lemmas\<close>

text \<open>The words of a line: the pieces between white space that are not empty.\<close>

fun pieces :: "string \<Rightarrow> string list" where
  "pieces [] = [[]]"
| "pieces (c # cs) = (if white c then [] # pieces cs else (c # hd (pieces cs)) # tl (pieces cs))"

definition words_of :: "string \<Rightarrow> string list" where
  "words_of s = filter (\<lambda>w. w \<noteq> []) (pieces s)"

lemma pieces_not_Nil [simp]: "pieces s \<noteq> []"
  by (induction s) auto

lemma words_of_skip: "words_of (dropWhile white s) = words_of s"
  by (induction s) (auto simp: words_of_def)

lemma pieces_token:
  "pieces s = takeWhile (\<lambda>c. \<not> white c) s #
     (if dropWhile (\<lambda>c. \<not> white c) s = [] then [] else pieces (tl (dropWhile (\<lambda>c. \<not> white c) s)))"
  by (induction s) auto

lemma words_of_strtok:
  "words_of s = (case strtok s of None \<Rightarrow> [] | Some (t, r) \<Rightarrow> t # words_of r)"
proof (cases "dropWhile white s")
  case Nil
  then have "words_of s = words_of []" using words_of_skip [of s] by metis
  then show ?thesis using Nil by (simp add: strtok_def words_of_def)
next
  case (Cons c cs)
  then have c: "\<not> white c" using hd_dropWhile [of white s] by simp
  have "words_of s = words_of (c # cs)" using words_of_skip [of s] Cons by simp
  also have "\<dots> = takeWhile (\<lambda>c. \<not> white c) (c # cs) # words_of (tl (dropWhile (\<lambda>c. \<not> white c) (c # cs)))"
  proof (cases "dropWhile (\<lambda>c. \<not> white c) (c # cs) = []")
    case True
    then have "words_of (tl (dropWhile (\<lambda>c. \<not> white c) (c # cs))) = []" by (simp only: list.sel) (simp add: words_of_def)
    then show ?thesis using True c pieces_token [of "c # cs"] by (simp add: words_of_def del: pieces.simps(2))
  next
    case False
    then show ?thesis using c pieces_token [of "c # cs"] by (auto simp: words_of_def simp del: pieces.simps(2))
  qed
  finally show ?thesis using Cons by (simp add: strtok_def)
qed

lemma args_loop_words:
  "n < MAXARGC - 1 \<Longrightarrow>
   args_loop s n = (if n + length (words_of s) < MAXARGC - 1 then Some (words_of s) else None)"
proof (induction s n rule: args_loop.induct)
  case (1 s n)
  show ?case
  proof (cases "strtok s")
    case None
    then show ?thesis using 1(2) words_of_strtok [of s] by (simp add: args_loop.simps [of s])
  next
    case (Some tr)
    obtain t r where tr: "tr = (t, r)" by fastforce
    show ?thesis
      using 1(1) [OF Some tr [symmetric]] 1(2) Some tr words_of_strtok [of s] by (simp add: args_loop.simps [of s])
  qed
qed

section \<open>The property\<close>

text \<open>
  Claim C36. For a line that does not start with white space \<open>buf_args\<close> calls the function with
  exactly the words of the line, when there are one to 49 of them, and returns -1 otherwise; with
  white space in front, the first argument keeps it.
\<close>

theorem buf_args_words:
  "buf_args buf optfunc =
     (if words_of buf = [] \<or> length (words_of buf) > 49 then io_return (- 1)
      else optfunc ((takeWhile white buf @ hd (words_of buf)) # tl (words_of buf)))"
proof (cases "strtok buf")
  case None
  then show ?thesis using words_of_strtok [of buf] by (simp add: buf_args_def buf_argv_def)
next
  case (Some tr)
  obtain t r where tr: "tr = (t, r)" by fastforce
  have w: "words_of buf = t # words_of r" using words_of_strtok [of buf] Some tr by simp
  have "args_loop r 0 = (if length (words_of r) < 49 then Some (words_of r) else None)"
    using args_loop_words [of 0 r] by (simp add: MAXARGC_def)
  then show ?thesis using w Some tr by (auto simp: buf_args_def buf_argv_def)
qed

end
