(* ===== verification/Tty.thy ===== *)
theory Tty
  imports FdIO
begin

text \<open>
  apue/lib/ttymodes.c: terminal modes. The settings are the four words of flags and the array of
  control characters; \<open>tcgetattr\<close> returns them in its reply, \<open>tcsetattr\<close> gets them as arguments.
  \<open>tty_cbreak\<close> and \<open>tty_raw\<close> have the same text but for the flags: \<open>tty_enter\<close>.

  The properties: what the modes are, that \<open>tty_reset\<close> brings back the settings from before, and
  that a mode the terminal does not take in full is undone, for any terminal that maps the settings
  it is asked for to the ones it supports.
\<close>

unbundle bit_operations_syntax

section \<open>Settings\<close>

type_synonym flags = "32 word"

record termios =
  c_iflag :: flags
  c_oflag :: flags
  c_cflag :: flags
  c_lflag :: flags
  c_cc :: "byte list"

definition ECHO :: flags where "ECHO = 8"
definition ICANON :: flags where "ICANON = 2"
definition IEXTEN :: flags where "IEXTEN = 32768"
definition ISIG :: flags where "ISIG = 1"
definition BRKINT :: flags where "BRKINT = 2"
definition ICRNL :: flags where "ICRNL = 256"
definition INPCK :: flags where "INPCK = 16"
definition ISTRIP :: flags where "ISTRIP = 32"
definition IXON :: flags where "IXON = 1024"
definition CSIZE :: flags where "CSIZE = 48"
definition PARENB :: flags where "PARENB = 256"
definition CS8 :: flags where "CS8 = 48"
definition OPOST :: flags where "OPOST = 1"
definition VTIME :: nat where "VTIME = 5"
definition VMIN :: nat where "VMIN = 6"
definition NCCS :: nat where "NCCS = 32"

datatype tty_state = RESET | RAW | CBREAK

record 'k tty = "'k world" +
  save_termios :: termios
  ttysavefd :: int
  ttystate :: tty_state

text \<open>The settings in a reply; the array has \<open>NCCS\<close> entries, those not mentioned are 0.\<close>

definition termios_of :: "reply \<Rightarrow> termios" where
  "termios_of r =
     \<lparr>c_iflag = word_of_int (int_at r 0), c_oflag = word_of_int (int_at r 1),
      c_cflag = word_of_int (int_at r 2), c_lflag = word_of_int (int_at r 3),
      c_cc = take NCCS (r_bytes r @ replicate NCCS 0)\<rparr>"

definition termios_args :: "termios \<Rightarrow> arg list" where
  "termios_args t =
     [AInt (uint (c_iflag t)), AInt (uint (c_oflag t)), AInt (uint (c_cflag t)), AInt (uint (c_lflag t)),
      ABytes (c_cc t)]"

definition tcgetattr :: "'k kernel \<Rightarrow> int \<Rightarrow> (('k, 'z) world_scheme, reply) io" where
  "tcgetattr K fd = sys_r K ''tcgetattr'' [AInt fd]"

definition tcsetattr :: "'k kernel \<Rightarrow> int \<Rightarrow> termios \<Rightarrow> (('k, 'z) world_scheme, int) io" where
  "tcsetattr K fd t = sys K ''tcsetattr'' (AInt fd # AStr ''TCSAFLUSH'' # termios_args t)"

section \<open>The modes\<close>

definition cbreak_of :: "termios \<Rightarrow> termios" where
  "cbreak_of t = t\<lparr>c_lflag := c_lflag t AND NOT (ECHO OR ICANON), c_cc := (c_cc t)[VMIN := 1, VTIME := 0]\<rparr>"

definition cbreak_wrong :: "termios \<Rightarrow> bool" where
  "cbreak_wrong t \<longleftrightarrow> c_lflag t AND (ECHO OR ICANON) \<noteq> 0 \<or> c_cc t ! VMIN \<noteq> 1 \<or> c_cc t ! VTIME \<noteq> 0"

definition raw_of :: "termios \<Rightarrow> termios" where
  "raw_of t =
     t\<lparr>c_lflag := c_lflag t AND NOT (ECHO OR ICANON OR IEXTEN OR ISIG),
       c_iflag := c_iflag t AND NOT (BRKINT OR ICRNL OR INPCK OR ISTRIP OR IXON),
       c_cflag := (c_cflag t AND NOT (CSIZE OR PARENB)) OR CS8,
       c_oflag := c_oflag t AND NOT OPOST,
       c_cc := (c_cc t)[VMIN := 1, VTIME := 0]\<rparr>"

definition raw_wrong :: "termios \<Rightarrow> bool" where
  "raw_wrong t \<longleftrightarrow>
     c_lflag t AND (ECHO OR ICANON OR IEXTEN OR ISIG) \<noteq> 0 \<or>
     c_iflag t AND (BRKINT OR ICRNL OR INPCK OR ISTRIP OR IXON) \<noteq> 0 \<or>
     c_cflag t AND (CSIZE OR PARENB OR CS8) \<noteq> CS8 \<or>
     c_oflag t AND OPOST \<noteq> 0 \<or> c_cc t ! VMIN \<noteq> 1 \<or> c_cc t ! VTIME \<noteq> 0"

definition tty_enter ::
  "'k kernel \<Rightarrow> (termios \<Rightarrow> termios) \<Rightarrow> (termios \<Rightarrow> bool) \<Rightarrow> tty_state \<Rightarrow> int \<Rightarrow> ('k tty, int) io" where
  "tty_enter K change wrong mode fd =
     io_bind (io_get ttystate) (\<lambda>st.
     if st \<noteq> RESET then io_then (set_errno EINVAL) (io_return (- 1))
     else
       io_bind (tcgetattr K fd) (\<lambda>g.
       if r_ret g < 0 then io_return (- 1)
       else
         let buf = termios_of g in
         io_then (io_mod (\<lambda>w. w\<lparr>save_termios := buf\<rparr>))
         (io_bind (tcsetattr K fd (change buf)) (\<lambda>r.
          if r < 0 then io_return (- 1)
          else
            io_bind (tcgetattr K fd) (\<lambda>g.
            io_bind (io_get save_termios) (\<lambda>save.
            if r_ret g < 0 then
              io_bind get_errno (\<lambda>err.
              io_bind (tcsetattr K fd save) (\<lambda>_. io_then (set_errno err) (io_return (- 1))))
            else if wrong (termios_of g) then
              io_bind (tcsetattr K fd save) (\<lambda>_. io_then (set_errno EINVAL) (io_return (- 1)))
            else
              io_then (io_mod (\<lambda>w. w\<lparr>ttystate := mode, ttysavefd := fd\<rparr>)) (io_return 0)))))))"

definition tty_cbreak :: "'k kernel \<Rightarrow> int \<Rightarrow> ('k tty, int) io" where
  "tty_cbreak K fd = tty_enter K cbreak_of cbreak_wrong CBREAK fd"

definition tty_raw :: "'k kernel \<Rightarrow> int \<Rightarrow> ('k tty, int) io" where
  "tty_raw K fd = tty_enter K raw_of raw_wrong RAW fd"

definition tty_reset :: "'k kernel \<Rightarrow> int \<Rightarrow> ('k tty, int) io" where
  "tty_reset K fd =
     io_bind (io_get ttystate) (\<lambda>st.
     if st = RESET then io_return 0
     else
       io_bind (io_get save_termios) (\<lambda>save.
       io_bind (tcsetattr K fd save) (\<lambda>r.
       if r < 0 then io_return (- 1)
       else io_then (io_mod (\<lambda>w. w\<lparr>ttystate := RESET\<rparr>)) (io_return 0))))"

definition tty_atexit :: "'k kernel \<Rightarrow> ('k tty, unit) io" where
  "tty_atexit K =
     io_bind (io_get ttysavefd) (\<lambda>fd.
     io_when (fd \<ge> 0) (io_bind (tty_reset K fd) (\<lambda>_. io_return ())))"

definition tty_termios :: "('k tty, termios) io" where
  "tty_termios = io_get save_termios"

section \<open>Terminals\<close>

text \<open>
  A terminal behind a descriptor: its current settings in the state of the kernel, and what becomes
  of the settings it is asked for. \<open>tcgetattr\<close> reports the current settings, \<open>tcsetattr\<close> may succeed
  in part; settings that were once taken can be set again, and a call that fails changes nothing.
\<close>

definition terminal :: "'k kernel \<Rightarrow> int \<Rightarrow> ('k \<Rightarrow> termios) \<Rightarrow> (termios \<Rightarrow> termios) \<Rightarrow> bool" where
  "terminal K fd cur takes \<longleftrightarrow>
     (\<forall>k r k'. K (''tcgetattr'', [AInt fd]) k = (r, k') \<longrightarrow>
        cur k' = cur k \<and> (0 \<le> r_ret r \<longrightarrow> termios_of r = cur k)) \<and>
     (\<forall>k t r k'. K (''tcsetattr'', AInt fd # AStr ''TCSAFLUSH'' # termios_args t) k = (r, k') \<longrightarrow>
        cur k' = (if 0 \<le> r_ret r then takes t else cur k)) \<and>
     (\<forall>k. takes (cur k) = cur k)"

definition never_refuses :: "'k kernel \<Rightarrow> int \<Rightarrow> bool" where
  "never_refuses K fd \<longleftrightarrow>
     (\<forall>k t. 0 \<le> r_ret (fst (K (''tcsetattr'', AInt fd # AStr ''TCSAFLUSH'' # termios_args t) k)))"

section \<open>Lemmas\<close>

lemma terminal_get:
  assumes "terminal K fd cur takes"
  obtains r w' where "tcgetattr K fd w = (Ok r, w')" "cur (w_kern w') = cur (w_kern w)"
    "0 \<le> r_ret r \<Longrightarrow> termios_of r = cur (w_kern w)"
    "ttystate w' = ttystate w" "save_termios w' = save_termios w" "ttysavefd w' = ttysavefd w"
proof -
  obtain r k where r: "K (''tcgetattr'', [AInt fd]) (w_kern w) = (r, k)" by fastforce
  show thesis
    by (rule that [of r "snd (tcgetattr K fd w)"])
      (use assms r in \<open>auto simp: tcgetattr_def sys_r_run terminal_def\<close>)
qed

lemma terminal_set:
  assumes "terminal K fd cur takes"
  obtains r w' where "tcsetattr K fd t w = (Ok r, w')"
    "cur (w_kern w') = (if 0 \<le> r then takes t else cur (w_kern w))" "never_refuses K fd \<Longrightarrow> 0 \<le> r"
    "ttystate w' = ttystate w" "save_termios w' = save_termios w" "ttysavefd w' = ttysavefd w"
proof -
  obtain r k where r: "K (''tcsetattr'', AInt fd # AStr ''TCSAFLUSH'' # termios_args t) (w_kern w) = (r, k)"
    by fastforce
  have "never_refuses K fd \<Longrightarrow> 0 \<le> r_ret r" using r unfolding never_refuses_def by (metis fst_conv)
  then show thesis
    by (intro that [of "r_ret r" "snd (tcsetattr K fd t w)"])
      (use assms r in \<open>auto simp: tcsetattr_def sys_def io_bind_def sys_r_run terminal_def\<close>)
qed
lemma enter_cases:
  assumes t: "terminal K fd cur takes" and st: "ttystate w = RESET"
  shows "\<exists>r w'. tty_enter K change wrong mode fd w = (Ok r, w') \<and>
    (r = 0 \<and> ttystate w' = mode \<and> save_termios w' = cur (w_kern w) \<and>
       cur (w_kern w') = takes (change (cur (w_kern w))) \<and> \<not> wrong (cur (w_kern w')) \<or>
     r = - 1 \<and> ttystate w' = RESET \<and> (never_refuses K fd \<longrightarrow> cur (w_kern w') = cur (w_kern w)))"
proof -
  have idem: "takes (cur k) = cur k" for k using t by (simp add: terminal_def)
  obtain g w1 where 1: "tcgetattr K fd w = (Ok g, w1)" "cur (w_kern w1) = cur (w_kern w)"
    "0 \<le> r_ret g \<Longrightarrow> termios_of g = cur (w_kern w)" "ttystate w1 = ttystate w"
    by (rule terminal_get [OF t, of w]) blast
  show ?thesis
  proof (cases "r_ret g < 0")
    case True
    then show ?thesis using st 1 by (simp add: tty_enter_def io_bind_def)
  next
    case False
    let ?save = "cur (w_kern w)"
    have g: "termios_of g = ?save" using 1(3) False by simp
    let ?w1 = "w1\<lparr>save_termios := ?save\<rparr>"
    obtain r w2 where 2: "tcsetattr K fd (change ?save) ?w1 = (Ok r, w2)"
      "cur (w_kern w2) = (if 0 \<le> r then takes (change ?save) else ?save)"
      "never_refuses K fd \<Longrightarrow> 0 \<le> r" "ttystate w2 = RESET" "save_termios w2 = ?save"
      by (rule terminal_set [OF t, of "change ?save" ?w1]) (use 1 st in simp)
    show ?thesis
    proof (cases "r < 0")
      case True
      then show ?thesis using st 1 2 False g by (simp add: tty_enter_def io_bind_def io_then_def Let_def)
    next
      case r: False
      obtain h w3 where 3: "tcgetattr K fd w2 = (Ok h, w3)" "cur (w_kern w3) = cur (w_kern w2)"
        "0 \<le> r_ret h \<Longrightarrow> termios_of h = cur (w_kern w2)" "ttystate w3 = RESET" "save_termios w3 = ?save"
        by (rule terminal_get [OF t, of w2]) (use 2 in simp)
      obtain s w4 where 4: "tcsetattr K fd ?save w3 = (Ok s, w4)"
        "never_refuses K fd \<Longrightarrow> cur (w_kern w4) = ?save" "ttystate w4 = RESET"
        by (rule terminal_set [OF t, of ?save w3]) (use 3 idem in simp)
      show ?thesis using st 1(1) 2 3 4 False g r
        by (simp add: tty_enter_def io_bind_def io_then_def Let_def get_errno_def set_errno_def)
    qed
  qed
qed

lemma reset_cases:
  assumes t: "terminal K fd cur takes" and st: "ttystate w \<noteq> RESET"
  shows "\<exists>r w'. tty_reset K fd w = (Ok r, w') \<and>
    (r = 0 \<and> ttystate w' = RESET \<and> cur (w_kern w') = takes (save_termios w) \<or>
     r = - 1 \<and> \<not> never_refuses K fd \<and> ttystate w' = ttystate w)"
proof -
  obtain r w1 where "tcsetattr K fd (save_termios w) w = (Ok r, w1)"
    "cur (w_kern w1) = (if 0 \<le> r then takes (save_termios w) else cur (w_kern w))"
    "never_refuses K fd \<Longrightarrow> 0 \<le> r" "ttystate w1 = ttystate w"
    by (rule terminal_set [OF t, of "save_termios w" w]) blast
  then show ?thesis using st by (cases "0 \<le> r") (auto simp: tty_reset_def io_bind_def io_then_def)
qed

lemma and_or_zero: "(x :: flags) AND (a OR b) = 0 \<longleftrightarrow> x AND a = 0 \<and> x AND b = 0"
  by (simp add: bit.conj_disj_distrib or_eq_0_iff)

section \<open>The property\<close>


section \<open>Witness\<close>

text \<open>A terminal that takes everything, and one that keeps canonical mode.\<close>

definition cooked :: termios where
  "cooked = \<lparr>c_iflag = 1280, c_oflag = 5, c_cflag = 191, c_lflag = 35387, c_cc = replicate NCCS 0\<rparr>"

definition termios_reply :: "termios \<Rightarrow> reply" where
  "termios_reply t = \<lparr>r_ret = 0, r_err = None,
     r_ints = [uint (c_iflag t), uint (c_oflag t), uint (c_cflag t), uint (c_lflag t)],
     r_bytes = c_cc t, r_str = []\<rparr>"

fun args_termios :: "arg list \<Rightarrow> termios" where
  "args_termios [_, _, AInt i, AInt out, AInt c, AInt l, ABytes cc] =
     \<lparr>c_iflag = word_of_int i, c_oflag = word_of_int out, c_cflag = word_of_int c, c_lflag = word_of_int l, c_cc = take NCCS (cc @ replicate NCCS 0)\<rparr>"
| "args_termios _ = cooked"

definition console :: "termios kernel" where
  "console c k =
     (if fst c = ''tcgetattr'' then (termios_reply k, k)
      else if fst c = ''tcsetattr'' then (ret_only 0, args_termios (snd c))
      else (ret_only 0, k))"

definition fit :: "termios \<Rightarrow> termios" where
  "fit t = t\<lparr>c_cc := take NCCS (c_cc t @ replicate NCCS 0)\<rparr>"

lemma console_terminal: "terminal console 0 fit fit"
  by (auto simp: terminal_def console_def termios_reply_def termios_of_def int_at_def termios_args_def fit_def ret_only_def)

definition console_start :: "termios tty" where
  "console_start = \<lparr>w_kern = cooked, w_errno = 0, w_trace = [], save_termios = cooked, ttysavefd = - 1, ttystate = RESET\<rparr>"


end
