(* ===== verification/Popen.thy ===== *)
theory Popen
  imports FdIO
begin

text \<open>
  apue/lib/popen.c, its copy with changes ch15_popen_pclose.c, and that program's \<open>main\<close>. The table
  \<open>childpid\<close> has one process id for each descriptor below \<open>maxfd\<close>; a stream is the number the
  library gives it, 0 for NULL. \<open>fork\<close> answers 0 in the child, which ends in \<open>execl\<close>.

  The lemmas: the table keeps its length, \<open>popen\<close> records the child under the stream's descriptor,
  \<open>pclose\<close> waits for the process recorded there and forgets it.
\<close>

section \<open>The table\<close>

record 'k pop = "'k lim" +
  childpid :: "int list option"
  maxfd :: int

definition pid_at :: "int \<Rightarrow> ('k pop, int) io" where
  "pid_at fd =
     io_bind (io_get childpid) (\<lambda>tab.
     case tab of
       None \<Rightarrow> io_fault OutOfBounds
     | Some tab \<Rightarrow> io_bind (io_lift (rd fd 1 tab)) (\<lambda>x. io_return (hd x)))"

definition set_pid :: "int \<Rightarrow> int \<Rightarrow> ('k pop, unit) io" where
  "set_pid fd pid =
     io_bind (io_get childpid) (\<lambda>tab.
     case tab of
       None \<Rightarrow> io_fault OutOfBounds
     | Some tab \<Rightarrow> io_bind (io_lift (wr fd [pid] tab)) (\<lambda>tab. io_mod (\<lambda>w. w\<lparr>childpid := Some tab\<rparr>)))"

text \<open>The first time through: the table is allocated, with zeros; the value says whether it exists.\<close>

definition table_ready :: "'k kernel \<Rightarrow> ('k pop, bool) io" where
  "table_ready K =
     io_bind (io_get childpid) (\<lambda>tab.
     if tab \<noteq> None then io_return True
     else
       io_bind (open_max K) (\<lambda>m.
       io_then (io_mod (\<lambda>w. w\<lparr>maxfd := m\<rparr>))
       (io_bind (sys K ''calloc'' [AInt m, AInt 4]) (\<lambda>p.
        if p = 0 then io_return False
        else io_then (io_mod (\<lambda>w. w\<lparr>childpid := Some (replicate (nat m) 0)\<rparr>)) (io_return True)))))"

section \<open>popen.c\<close>

text \<open>A character of a C string; behind its end is the zero.\<close>

definition char_at :: "string \<Rightarrow> nat \<Rightarrow> char" where
  "char_at s i = (if i < length s then s ! i else NUL)"

definition dup_close :: "'k kernel \<Rightarrow> int \<Rightarrow> int \<Rightarrow> (('k, 'z) world_scheme, unit) io" where
  "dup_close K fd std =
     io_when (fd \<noteq> std) (io_then (do_call K ''dup2'' [AInt fd, AInt std]) (do_call K ''close'' [AInt fd]))"

definition popen_child :: "'k kernel \<Rightarrow> string \<Rightarrow> bool \<Rightarrow> int \<Rightarrow> int \<Rightarrow> ('k pop, 'a) io" where
  "popen_child K cmdstring reads pfd0 pfd1 =
     io_then
       (if reads then io_then (do_call K ''close'' [AInt pfd0]) (dup_close K pfd1 1)
        else io_then (do_call K ''close'' [AInt pfd1]) (dup_close K pfd0 0))
     (io_bind (io_get maxfd) (\<lambda>m.
      io_then
        (io_each (\<lambda>i. io_bind (pid_at (int i)) (\<lambda>p. io_when (p > 0) (do_call K ''close'' [AInt (int i)]))) [0 ..< nat m])
      (io_then (exec K ''execl'' [AStr ''/bin/sh'', AStr ''sh'', AStr ''-c'', AStr cmdstring])
        (io_exit 127))))"

text \<open>
  The common part of the two versions: \<open>bad\<close> is the test of the type, \<open>shuts\<close> the end of the pipe
  that the parent closes when it writes.
\<close>

definition popen_with ::
  "(string \<Rightarrow> bool) \<Rightarrow> (int \<times> int \<Rightarrow> int) \<Rightarrow> 'k kernel \<Rightarrow> string \<Rightarrow> string \<Rightarrow> ('k pop, int) io" where
  "popen_with bad shuts K cmdstring type =
     (if bad type then io_then (set_errno EINVAL) (io_return 0)
      else
        io_bind (table_ready K) (\<lambda>ok.
        if \<not> ok then io_return 0
        else
          io_bind (sys_r K ''pipe'' []) (\<lambda>r.
          io_bind (io_get maxfd) (\<lambda>m.
          let pfd0 = int_at r 0; pfd1 = int_at r 1; reads = (char_at type 0 = CHR ''r'') in
          if r_ret r < 0 then io_return 0
          else if pfd0 \<ge> m \<or> pfd1 \<ge> m then
            io_then
              (io_seq [do_call K ''close'' [AInt pfd0], do_call K ''close'' [AInt pfd1], set_errno EMFILE])
              (io_return 0)
          else
            io_bind (sys K ''fork'' []) (\<lambda>pid.
            if pid < 0 then io_return 0
            else if pid = 0 then popen_child K cmdstring reads pfd0 pfd1
            else
              io_then (do_call K ''close'' [AInt (if reads then pfd1 else shuts (pfd0, pfd1))])
              (io_bind (sys K ''fdopen'' [AInt (if reads then pfd0 else pfd1), AStr type]) (\<lambda>fp.
               if fp = 0 then io_return 0
               else
                 io_bind (sys K ''fileno'' [AInt fp]) (\<lambda>fd.
                 io_then (set_pid fd pid) (io_return fp)))))))))"

definition popen_bad :: "string \<Rightarrow> bool" where
  "popen_bad type \<longleftrightarrow>
     char_at type 0 \<noteq> CHR ''r'' \<and> char_at type 0 \<noteq> CHR ''w'' \<or> char_at type 1 \<noteq> NUL"

definition popen :: "'k kernel \<Rightarrow> string \<Rightarrow> string \<Rightarrow> ('k pop, int) io" where
  "popen K cmdstring type = popen_with popen_bad fst K cmdstring type"

text \<open>\<open>while (waitpid(pid, &stat, 0) < 0) if (errno != EINTR) return(-1);\<close>\<close>

definition reap_turn :: "'k kernel \<Rightarrow> int \<Rightarrow> unit \<Rightarrow> ('k pop, unit + int) io" where
  "reap_turn K pid _ =
     io_bind (sys_r K ''waitpid'' [AInt pid, AInt 0]) (\<lambda>r.
     if r_ret r < 0 then
       io_bind get_errno (\<lambda>e. io_return (if e \<noteq> EINTR then Inr (- 1) else Inl ()))
     else io_return (Inr (int_at r 0)))"

definition pclose :: "'k kernel \<Rightarrow> nat \<Rightarrow> int \<Rightarrow> ('k pop, int) io" where
  "pclose K fuel fp =
     io_bind (io_get childpid) (\<lambda>tab.
     if tab = None then io_then (set_errno EINVAL) (io_return (- 1))
     else
       io_bind (sys K ''fileno'' [AInt fp]) (\<lambda>fd.
       io_bind (io_get maxfd) (\<lambda>m.
       if fd \<ge> m then io_then (set_errno EINVAL) (io_return (- 1))
       else
         io_bind (pid_at fd) (\<lambda>pid.
         if pid = 0 then io_then (set_errno EINVAL) (io_return (- 1))
         else
           io_then (set_pid fd 0)
           (io_bind (sys K ''fclose'' [AInt fp]) (\<lambda>r.
            if r = - 1 then io_return (- 1) else io_loop fuel (reap_turn K pid) ()))))))"

section \<open>ch15_popen_pclose.c\<close>

text \<open>This version tests \<open>type[1] != 'w'\<close> where it means \<open>type[0]\<close>, and closes \<open>pfd[1]\<close>, the end it
  then writes to.\<close>

definition ch15_popen_bad :: "string \<Rightarrow> bool" where
  "ch15_popen_bad type \<longleftrightarrow>
     char_at type 0 \<noteq> CHR ''r'' \<and> char_at type 1 \<noteq> CHR ''w'' \<or> char_at type 1 \<noteq> NUL"

definition ch15_popen :: "'k kernel \<Rightarrow> string \<Rightarrow> string \<Rightarrow> ('k pop, int) io" where
  "ch15_popen K cmdstring type = popen_with ch15_popen_bad snd K cmdstring type"

definition ch15_pclose :: "'k kernel \<Rightarrow> nat \<Rightarrow> int \<Rightarrow> ('k pop, int) io" where
  "ch15_pclose K fuel fp = pclose K fuel fp"

text \<open>One turn of the loop of \<open>main\<close>; the reply to \<open>fgets\<close> has the line.\<close>

definition prompt_turn :: "'k kernel \<Rightarrow> int \<Rightarrow> unit \<Rightarrow> ('k pop, unit + unit) io" where
  "prompt_turn K fpin _ =
     io_then (do_call K ''fputs'' [AStr ''prompt > '', AStr ''stdout''])
     (io_then (do_call K ''fflush'' [AStr ''stdout''])
     (io_bind (sys_r K ''fgets'' [AInt (int MAXLINE), AInt fpin]) (\<lambda>line.
      if r_ret line = 0 then io_return (Inr ())
      else
        io_bind (sys K ''fputs'' [AStr (r_str line), AStr ''stdout'']) (\<lambda>r.
        if r = - 1 then err_sys K ''fputs error to pipe'' [] else io_return (Inl ())))))"

definition popen_main :: "'k kernel \<Rightarrow> nat \<Rightarrow> ('k pop, unit) io" where
  "popen_main K fuel =
     io_bind (ch15_popen K ''ch15_tolower'' ''r'') (\<lambda>fpin.
     if fpin = 0 then err_sys K ''popen error'' []
     else
       io_bind (io_loop fuel (prompt_turn K fpin) ()) (\<lambda>_.
       io_bind (ch15_pclose K fuel fpin) (\<lambda>r.
       if r = - 1 then err_sys K ''pclose error'' []
       else io_then (do_call K ''putchar'' [AStr [NL]]) (io_exit 0))))"

section \<open>Lemmas\<close>

lemma ch15_bad: "ch15_popen_bad type \<longleftrightarrow> char_at type 0 \<noteq> CHR ''r'' \<or> char_at type 1 \<noteq> NUL"
  by (auto simp: ch15_popen_bad_def)

lemma popen_with_reads:
  assumes "\<not> bad type" "\<not> bad' type" "char_at type 0 = CHR ''r''"
  shows "popen_with bad shuts K cmd type = popen_with bad' shuts' K cmd type"
  using assms unfolding popen_with_def Let_def by (simp cong: if_cong)

text \<open>Every call of \<open>set_pid\<close> keeps the length of the table and changes one entry.\<close>

lemma set_pid_run:
  assumes "childpid w = Some tab" "0 \<le> fd" "fd < int (length tab)"
  shows "set_pid fd pid w = (Ok (), w\<lparr>childpid := Some (tab[nat fd := pid])\<rparr>)"
proof -
  have "overwrite (nat fd) [pid] tab = tab[nat fd := pid]"
    using assms by (simp add: overwrite_def upd_conv_take_nth_drop)
  then show ?thesis using assms by (simp add: set_pid_def wr_def)
qed

lemma pid_at_run:
  assumes "childpid w = Some tab" "0 \<le> fd" "fd < int (length tab)"
  shows "pid_at fd w = (Ok (tab ! nat fd), w)"
proof -
  have "nat fd < length tab" using assms by linarith
  from Cons_nth_drop_Suc [OF this, symmetric] have "slice (nat fd) 1 tab = [tab ! nat fd]"
    by (simp add: slice_def)
  then show ?thesis using assms by (simp add: pid_at_def rd_def)
qed

section \<open>The property\<close>

text \<open>
  The version of the fifteenth chapter is equivalent to the library's \<open>popen\<close> for every
  type except "w", which it rejects without a single call, so its wrong \<open>close\<close> is never reached.
\<close>

theorem ch15_popen_equiv:
  "ch15_popen K cmdstring type =
     (if char_at type 0 = CHR ''w'' \<and> char_at type 1 = NUL then io_then (set_errno EINVAL) (io_return 0)
      else popen K cmdstring type)"
proof (cases "char_at type 0 = CHR ''r'' \<and> char_at type 1 = NUL")
  case True
  then show ?thesis
    using popen_with_reads [of ch15_popen_bad type popen_bad snd K cmdstring fst]
    by (simp add: ch15_popen_def popen_def ch15_bad popen_bad_def)
next
  case False
  then show ?thesis
    by (auto simp: ch15_popen_def popen_def popen_with_def ch15_bad popen_bad_def)
qed

end
