(* ===== verification/Async.thy ===== *)
theory Async
  imports TellWait
begin

text \<open>
  apue/ch14: the file filters ch14_fsync.c and ch14_async.c, with the same \<open>translate\<close>, and
  ch14_mmap.c, which copies a file through mappings. The bytes of a mapping and of an asynchronous
  read come with the replies of \<open>mmap\<close> and \<open>aio_return\<close>; a \<open>memcpy\<close> between mappings is a call.

  The properties: \<open>translate\<close> is the rotation by 13 letters except for one letter; the filter writes
  the translation of what it reads; the asynchronous filter has no way out of its loop.
\<close>

section \<open>translate\<close>

definition isalpha :: "byte \<Rightarrow> bool" where
  "isalpha c \<longleftrightarrow> 65 \<le> c \<and> c \<le> 90 \<or> 97 \<le> c \<and> c \<le> 122"

definition translate :: "byte \<Rightarrow> byte" where
  "translate c =
     (if isalpha c then
        if c > 110 then c - 13
        else if c \<ge> 97 then c + 13
        else if c \<ge> 78 then c - 13
        else c + 13
      else c)"

section \<open>ch14_fsync.c\<close>

definition BSZ :: nat where "BSZ = 4096"

text \<open>One turn of the loop: at most \<open>BSZ\<close> bytes are read, translated and written.\<close>

definition filter_turn :: "'k kernel \<Rightarrow> int \<Rightarrow> int \<Rightarrow> unit \<Rightarrow> (('k, 'z) world_scheme, unit + unit) io" where
  "filter_turn K ifd ofd _ =
     io_bind (sys_r K ''read'' [AInt ifd, AInt (int BSZ)]) (\<lambda>r.
     let n = r_ret r in
     if n > 0 then
       io_bind (sys K ''write'' [AInt ofd, ABytes (map translate (take (nat n) (r_bytes r))), AInt n]) (\<lambda>nw.
       if nw \<noteq> n then
         if nw < 0 then err_sys K ''write failed'' []
         else err_quit K ''short write (%d/%d)'' [AInt nw, AInt n]
       else io_return (Inl ()))
     else io_return (Inr ()))"

definition fsync_main :: "'k kernel \<Rightarrow> nat \<Rightarrow> string list \<Rightarrow> (('k, 'z) world_scheme, unit) io" where
  "fsync_main K fuel argv =
     (if length argv \<noteq> 3 then err_quit K ''usage: a.out infile outfile'' []
      else
        io_bind (sys K ''open'' [AStr (argv ! 1), AInt 0]) (\<lambda>ifd.
        if ifd < 0 then err_sys K ''can't open %s'' [AStr (argv ! 1)]
        else
          io_bind (sys K ''open'' [AStr (argv ! 2), AInt O_RDWR_CREAT_TRUNC, AInt FILE_MODE]) (\<lambda>ofd.
          if ofd < 0 then err_sys K ''can't create %S'' [AStr (argv ! 2)]
          else
            io_then (io_loop fuel (filter_turn K ifd ofd) ())
              (io_then (do_call K ''fsync'' [AInt ofd]) (io_exit 0)))))"

section \<open>ch14_mmap.c\<close>

definition COPYINCR :: int where "COPYINCR = 1024 * 1024 * 1024"
definition MAP_FAILED :: int where "MAP_FAILED = - 1"

definition mmap_turn ::
  "'k kernel \<Rightarrow> int \<Rightarrow> int \<Rightarrow> int \<Rightarrow> int \<Rightarrow> (('k, 'z) world_scheme, int + unit) io" where
  "mmap_turn K fdin fdout st_size fsz =
     (if fsz < st_size then
        let copysz = (if st_size - fsz > COPYINCR then COPYINCR else st_size - fsz) in
        io_bind (sys K ''mmap'' [AInt 0, AInt copysz, AInt 1, AInt 1, AInt fdin, AInt fsz]) (\<lambda>src.
        if src = MAP_FAILED then err_sys K ''mmap error for input'' []
        else
          io_bind (sys K ''mmap'' [AInt 0, AInt copysz, AInt 3, AInt 1, AInt fdout, AInt fsz]) (\<lambda>dst.
          if dst = MAP_FAILED then err_sys K ''mmap error for output'' []
          else
            io_then
              (io_seq
                 [do_call K ''memcpy'' [AInt dst, AInt src, AInt copysz],
                  do_call K ''munmap'' [AInt src, AInt copysz], do_call K ''munmap'' [AInt dst, AInt copysz]])
              (io_return (Inl (fsz + copysz)))))
      else io_return (Inr ()))"

definition mmap_main :: "'k kernel \<Rightarrow> nat \<Rightarrow> string list \<Rightarrow> (('k, 'z) world_scheme, unit) io" where
  "mmap_main K fuel argv =
     (if length argv \<noteq> 3 then err_quit K ''usage: a.out fromfile tofile'' []
      else
        io_bind (sys K ''open'' [AStr (argv ! 1), AInt 0]) (\<lambda>fdin.
        if fdin < 0 then err_sys K ''can't open %s for reading'' [AStr (argv ! 1)]
        else
          io_bind (sys K ''open'' [AStr (argv ! 2), AInt O_RDWR_CREAT_TRUNC, AInt FILE_MODE]) (\<lambda>fdout.
          if fdout < 0 then err_sys K ''can't open %s for writing'' [AStr (argv ! 2)]
          else
            io_bind (sys_r K ''fstat'' [AInt fdin]) (\<lambda>st.
            if r_ret st < 0 then err_sys K ''fstat error'' []
            else
              io_bind (sys K ''ftruncate'' [AInt fdout, AInt (int_at st 1)]) (\<lambda>r.
              if r < 0 then err_sys K ''ftruncate error'' []
              else io_then (io_loop fuel (mmap_turn K fdin fdout (int_at st 1)) 0) (io_exit 0))))))"

section \<open>ch14_async.c\<close>

datatype rwop = UNUSED | READ_PENDING | WRITE_PENDING

definition NBUF :: nat where "NBUF = 8"

record abuf =
  ab_op :: rwop
  ab_last :: int
  ab_fildes :: int
  ab_offset :: int
  ab_nbytes :: int
  ab_data :: "byte list"

text \<open>The globals and the variables of \<open>main\<close> that its loop changes; \<open>n\<close> is shared by all buffers.\<close>

record 'k aio = "'k world" +
  bufs :: "abuf list"
  aiolist :: "bool list"
  a_off :: int
  numop :: int
  a_n :: int

definition set_buf :: "nat \<Rightarrow> (abuf \<Rightarrow> abuf) \<Rightarrow> ('k aio, unit) io" where
  "set_buf i f = io_mod (\<lambda>w. w\<lparr>bufs := (bufs w)[i := f (bufs w ! i)]\<rparr>)"

definition set_listed :: "nat \<Rightarrow> bool \<Rightarrow> ('k aio, unit) io" where
  "set_listed i b = io_mod (\<lambda>w. w\<lparr>aiolist := (aiolist w)[i := b]\<rparr>)"

definition EINPROGRESS :: int where "EINPROGRESS = 115"

text \<open>\<open>aio_error\<close> and what the code does with its value; \<open>True\<close> is its \<open>continue\<close>.\<close>

definition aio_state :: "'k kernel \<Rightarrow> nat \<Rightarrow> string \<Rightarrow> ('k aio, bool) io" where
  "aio_state K i msg =
     io_bind (sys K ''aio_error'' [AInt (int i)]) (\<lambda>err.
     if err = EINPROGRESS then io_return True
     else if err \<noteq> 0 then
       if err = - 1 then err_sys K ''aio_error failed'' [] else err_exit K err msg []
     else io_return False)"

definition start_read :: "'k kernel \<Rightarrow> int \<Rightarrow> int \<Rightarrow> nat \<Rightarrow> ('k aio, bool) io" where
  "start_read K ifd st_size i =
     io_bind (io_get a_off) (\<lambda>off.
     if off < st_size then
       io_then (io_seq
         [set_buf i (\<lambda>b. b\<lparr>ab_op := READ_PENDING, ab_fildes := ifd, ab_offset := off\<rparr>),
          io_mod (\<lambda>w. w\<lparr>a_off := off + int BSZ\<rparr>),
          io_when (off + int BSZ \<ge> st_size) (set_buf i (\<lambda>b. b\<lparr>ab_last := 1\<rparr>)),
          set_buf i (\<lambda>b. b\<lparr>ab_nbytes := int BSZ\<rparr>),
          io_bind (sys K ''aio_read'' [AInt (int i), AInt ifd, AInt off, AInt (int BSZ)]) (\<lambda>r.
          if r < 0 then err_sys K ''aio_read failed'' [] else io_return ()),
          set_listed i True,
          io_mod (\<lambda>w. w\<lparr>numop := numop w + 1\<rparr>)])
       (io_return False)
     else io_return False)"

definition finish_read :: "'k kernel \<Rightarrow> int \<Rightarrow> nat \<Rightarrow> ('k aio, bool) io" where
  "finish_read K ofd i =
     io_bind (aio_state K i ''read failed'') (\<lambda>cont.
     if cont then io_return True
     else
       io_bind (sys_r K ''aio_return'' [AInt (int i)]) (\<lambda>r.
       let n = r_ret r in
       io_then (io_mod (\<lambda>w. w\<lparr>a_n := n\<rparr>))
       (if n < 0 then err_sys K ''aio_return failed'' []
        else
          io_bind (io_get (\<lambda>w. bufs w ! i)) (\<lambda>b.
          if n \<noteq> int BSZ \<and> ab_last b = 0 then err_quit K ''short read (%d/%d)'' [AInt n, AInt (int BSZ)]
          else if n > int BSZ then io_fault OutOfBounds
          else
            let data = overwrite 0 (take BSZ (r_bytes r)) (ab_data b);
                data = map translate (take (nat n) data) @ drop (nat n) data in
            io_then
              (set_buf i (\<lambda>b. b\<lparr>ab_data := data, ab_op := WRITE_PENDING, ab_fildes := ofd, ab_nbytes := n\<rparr>))
            (io_bind (sys K ''aio_write'' [AInt (int i), AInt ofd, AInt (ab_offset b), ABytes (take (nat n) data)]) (\<lambda>r.
             if r < 0 then err_sys K ''aio_write failed'' [] else io_return False))))))"

definition finish_write :: "'k kernel \<Rightarrow> nat \<Rightarrow> ('k aio, bool) io" where
  "finish_write K i =
     io_bind (aio_state K i ''write failed'') (\<lambda>cont.
     if cont then io_return True
     else
       io_bind (io_get a_n) (\<lambda>n.
       io_bind (io_get (\<lambda>w. bufs w ! i)) (\<lambda>b.
       if n \<noteq> ab_nbytes b then err_quit K ''short write (%d/%d)'' [AInt n, AInt (int BSZ)]
       else
         io_then
           (io_seq
              [set_listed i False, set_buf i (\<lambda>b. b\<lparr>ab_op := UNUSED\<rparr>), io_mod (\<lambda>w. w\<lparr>numop := numop w - 1\<rparr>)])
           (io_return False))))"

text \<open>One turn of the inner loop. The value is \<open>True\<close> for its \<open>break\<close>, which leaves the inner loop.\<close>

definition buf_turn :: "'k kernel \<Rightarrow> int \<Rightarrow> int \<Rightarrow> int \<Rightarrow> nat \<Rightarrow> ('k aio, bool) io" where
  "buf_turn K ifd ofd st_size i =
     io_bind (io_get (\<lambda>w. ab_op (bufs w ! i))) (\<lambda>op.
     io_bind
       (case op of
          UNUSED \<Rightarrow> start_read K ifd st_size i
        | READ_PENDING \<Rightarrow> finish_read K ofd i
        | WRITE_PENDING \<Rightarrow> finish_write K i) (\<lambda>cont.
     if cont then io_return False
     else
       io_bind (io_get numop) (\<lambda>k.
       if k = 0 then io_bind (io_get a_off) (\<lambda>off. io_return (off \<ge> st_size))
       else
         io_bind (io_get aiolist) (\<lambda>listed.
         io_bind (sys K ''aio_suspend'' (map (\<lambda>b. AInt (of_bool b)) listed)) (\<lambda>r.
         if r < 0 then err_sys K ''aio_suspend failed'' [] else io_return False)))))"

fun bufs_loop :: "'k kernel \<Rightarrow> int \<Rightarrow> int \<Rightarrow> int \<Rightarrow> nat list \<Rightarrow> ('k aio, unit) io" where
  "bufs_loop K ifd ofd st_size [] = io_return ()"
| "bufs_loop K ifd ofd st_size (i # is) =
     io_bind (buf_turn K ifd ofd st_size i) (\<lambda>brk.
     if brk then io_return () else bufs_loop K ifd ofd st_size is)"

definition async_turn :: "'k kernel \<Rightarrow> int \<Rightarrow> int \<Rightarrow> int \<Rightarrow> unit \<Rightarrow> ('k aio, unit + unit) io" where
  "async_turn K ifd ofd st_size _ =
     io_then (bufs_loop K ifd ofd st_size [0 ..< NBUF]) (io_return (Inl ()))"

definition async_main :: "'k kernel \<Rightarrow> nat \<Rightarrow> string list \<Rightarrow> ('k aio, unit) io" where
  "async_main K fuel argv =
     (if length argv \<noteq> 3 then err_quit K ''usage: a.out infile outfile'' []
      else
        io_bind (sys K ''open'' [AStr (argv ! 1), AInt 0]) (\<lambda>ifd.
        if ifd < 0 then err_sys K ''can't open %s'' [AStr (argv ! 1)]
        else
          io_bind (sys K ''open'' [AStr (argv ! 2), AInt O_RDWR_CREAT_TRUNC, AInt FILE_MODE]) (\<lambda>ofd.
          if ofd < 0 then err_sys K ''can't open %s'' [AStr (argv ! 2)]
          else
            io_bind (sys_r K ''fstat'' [AInt ifd]) (\<lambda>st.
            if r_ret st < 0 then err_sys K ''fstat error'' []
            else
              io_then
                (io_seq
                   [io_each (\<lambda>i. io_then (set_buf i (\<lambda>b. b\<lparr>ab_op := UNUSED\<rparr>)) (set_listed i False)) [0 ..< NBUF],
                    io_mod (\<lambda>w. w\<lparr>numop := 0, a_off := 0\<rparr>)])
              (io_then (io_loop fuel (async_turn K ifd ofd (int_at st 1)) ())
              (io_bind (sys K ''aio_fsync'' [AInt 0, AInt ofd]) (\<lambda>r.
               if r < 0 then err_sys K ''aio_fsync failed'' [] else io_exit 0)))))))"
section \<open>Lemmas\<close>

lemma leaves_never: "leaves S m \<Longrightarrow> returns (\<lambda>_. False) m \<Longrightarrow> leaves S (io_then m n)"
  unfolding leaves_def returns_def io_then_def
  by (fastforce simp: io_bind_def split: prod.splits outcome.splits)

lemma leaves_bufs_loop: "leaves {1} (bufs_loop K ifd ofd z is)"
proof -
  have "leaves {1} (buf_turn K ifd ofd z i)" for i
    unfolding buf_turn_def start_read_def finish_read_def finish_write_def aio_state_def set_buf_def set_listed_def Let_def
    by (intro leaves | simp add: insertI1 | split rwop.split | intro conjI impI | auto intro!: leaves)+
  then show ?thesis by (induction "is") (auto intro!: leaves)
qed

lemma leaves_async_turn: "leaves {1} (async_turn K ifd ofd z u)"
  unfolding async_turn_def by (intro leaves leaves_bufs_loop)

lemma async_loop_never: "returns (\<lambda>_. False) (io_loop fuel (async_turn K ifd ofd z) u)"
  by (rule returns_loop [where I = "\<lambda>_. True"])
    (auto simp: async_turn_def intro!: returns_then returns_return simp del: io_return_run)

section \<open>The properties\<close>

text \<open>The rotation by 13 places among the 26 letters of either case.\<close>

definition rot13 :: "byte \<Rightarrow> byte" where
  "rot13 c =
     (let u = uint c in
      word_of_int
        (if 65 \<le> u \<and> u \<le> 90 then 65 + (u - 65 + 13) mod 26
         else if 97 \<le> u \<and> u \<le> 122 then 97 + (u - 97 + 13) mod 26
         else u))"

lemma uint_sub13: "13 \<le> uint c \<Longrightarrow> uint (c - 13 :: byte) = uint c - 13"
  using uint_sub_lem [of "13 :: byte" c] by simp

lemma uint_add13: "uint c \<le> 200 \<Longrightarrow> uint (c + 13 :: byte) = uint c + 13"
  using uint_add_lem [of c "13 :: byte"] by simp

definition rotate :: "int \<Rightarrow> int" where
  "rotate u =
     (if 65 \<le> u \<and> u \<le> 77 \<or> 97 \<le> u \<and> u \<le> 109 then u + 13
      else if 78 \<le> u \<and> u \<le> 90 \<or> 110 \<le> u \<and> u \<le> 122 then u - 13
      else u)"

lemma uint_translate: "uint (translate c) = (if uint c = 110 then 123 else rotate (uint c))"
  by (auto simp: translate_def isalpha_def word_le_def word_less_def uint_sub13 uint_add13 rotate_def)

lemma rotate_rotate: "rotate (rotate u) = u"
  by (auto simp: rotate_def)

lemma rotate_110: "rotate u = 110 \<longleftrightarrow> u = 97" "rotate 110 = 97" "rotate 123 = 123"
  by (auto simp: rotate_def split: if_splits)

lemma mod26: "0 \<le> x \<Longrightarrow> x < 52 \<Longrightarrow> x mod 26 = (if x < 26 then x else x - 26)" for x :: int
  by presburger

lemma uint_rot13: "uint (rot13 c) = rotate (uint c)"
proof -
  have u: "uint (word_of_int x :: byte) = x" if "0 \<le> x" "x < 256" for x
    using that by (simp add: uint_word_of_int)
  have b: "0 \<le> uint c" "uint c < 256" using uint_lt2p [of c] by simp_all
  show ?thesis unfolding rot13_def Let_def rotate_def
    by (subst u) (use b in \<open>auto simp: mod26\<close>)
qed

text \<open>
  \<open>translate\<close> is the rotation by 13 for every byte except 'n', which becomes an opening
  brace; so the filter applied twice gives back exactly the bytes other than 'n' and 'a'.
\<close>

theorem translate_rot13:
  "translate c = (if c = 110 then 123 else rot13 c) \<and>
   (translate (translate c) = c \<longleftrightarrow> c \<noteq> 97 \<and> c \<noteq> 110)"
proof -
  have c: "c = 110 \<longleftrightarrow> uint c = 110" "c = 97 \<longleftrightarrow> uint c = 97" by (simp_all add: word_uint_eq_iff)
  have "uint (translate (translate c)) = uint c \<longleftrightarrow> uint c \<noteq> 97 \<and> uint c \<noteq> 110"
    by (simp add: uint_translate rotate_rotate rotate_110)
  then show ?thesis unfolding c by (simp add: word_uint_eq_iff uint_translate uint_rot13)
qed

text \<open>
  The \<open>break\<close> for "nothing left to do" leaves only the loop over the buffers, so the main
  loop of ch14_async.c has no way out: for every environment and any number of turns the program
  never returns and never exits with status 0, it ends with an error or goes on.
\<close>

theorem async_never_done:
  "case fst (async_main K fuel argv w) of Ok u \<Rightarrow> False | Exited n \<Rightarrow> n = 1 | _ \<Rightarrow> True"
proof -
  have "leaves {1} (async_main K fuel argv)"
    unfolding async_main_def
    by (intro leaves leaves_if leaves_never leaves_loop leaves_async_turn async_loop_never)
      (auto intro!: leaves simp: set_buf_def set_listed_def)
  moreover have "returns (\<lambda>_. False) (async_main K fuel argv)"
  proof -
    have e: "returns (\<lambda>_. False) (err_sys K s as)" "returns (\<lambda>_. False) (err_quit K s as)" for s as
      unfolding err_sys_def err_quit_def by (intro returns_bind_any returns_then returns_exit)+
    have l: "returns (\<lambda>_. False) (io_then (io_loop fuel (async_turn K ifd ofd z) ()) m)" for ifd ofd z m
      using async_loop_never [of fuel K ifd ofd z "()"] unfolding returns_def io_then_def io_bind_eq_Ok by blast
    show ?thesis unfolding async_main_def
      by (auto intro!: e l returns_then returns_bind_any)
  qed
  ultimately show ?thesis
    unfolding leaves_def returns_def by (cases "async_main K fuel argv w") (auto split: outcome.split)
qed

end
