(* ===== verification/RefCount.thy ===== *)
theory RefCount
  imports ErrLog
begin

text \<open>
  apue/ch11/ch11_pthread_mutex.c: an object with a reference count under a mutex. The heap maps an
  address to the object there; an access to a freed or NULL object is the fault \<open>OutOfBounds\<close>, and
  so is locking its mutex. The threads of \<open>main\<close> get a pointer that is not NULL and then only
  print, so nothing depends on when they run: they run at the \<open>pthread_join\<close> that waits for them.

  The properties: the count is right and the object is freed exactly when it reaches zero; \<open>main\<close>
  reads the object after it has freed it.
\<close>

section \<open>The object\<close>

record foo =
  f_count :: int
  f_id :: int

record 'k foos = "'k world" +
  f_heap :: "int \<Rightarrow> foo option"

definition INT_MAX :: int where "INT_MAX = 2147483647"

definition foo_at :: "int \<Rightarrow> ('k foos, foo) io" where
  "foo_at fp =
     io_bind (io_get f_heap) (\<lambda>h. case h fp of None \<Rightarrow> io_fault OutOfBounds | Some x \<Rightarrow> io_return x)"

definition set_foo :: "int \<Rightarrow> foo option \<Rightarrow> ('k foos, unit) io" where
  "set_foo fp x = io_mod (\<lambda>w. w\<lparr>f_heap := (f_heap w)(fp := x)\<rparr>)"

definition mutex_op :: "'k kernel \<Rightarrow> string \<Rightarrow> int \<Rightarrow> ('k foos, unit) io" where
  "mutex_op K nm fp = io_bind (foo_at fp) (\<lambda>_. do_call K nm [AInt fp])"

definition foo_alloc :: "'k kernel \<Rightarrow> int \<Rightarrow> ('k foos, int) io" where
  "foo_alloc K ident =
     io_bind (sys K ''malloc'' [AInt 48]) (\<lambda>fp.
     if fp \<noteq> 0 then
       io_then (set_foo fp (Some \<lparr>f_count = 1, f_id = ident\<rparr>))
       (io_bind (sys K ''pthread_mutex_init'' [AInt fp]) (\<lambda>r.
        if r \<noteq> 0 then io_then (io_seq [set_foo fp None, do_call K ''free'' [AInt fp]]) (io_return 0)
        else io_return fp))
     else io_return fp)"

definition foo_hold :: "'k kernel \<Rightarrow> int \<Rightarrow> ('k foos, unit) io" where
  "foo_hold K fp =
     io_then (mutex_op K ''pthread_mutex_lock'' fp)
     (io_bind (foo_at fp) (\<lambda>x.
      if f_count x = INT_MAX then io_fault IntOverflow
      else
        io_then (set_foo fp (Some (x\<lparr>f_count := f_count x + 1\<rparr>)))
          (mutex_op K ''pthread_mutex_unlock'' fp)))"

definition foo_rele :: "'k kernel \<Rightarrow> int \<Rightarrow> ('k foos, unit) io" where
  "foo_rele K fp =
     io_then (mutex_op K ''pthread_mutex_lock'' fp)
     (io_bind (foo_at fp) (\<lambda>x.
      io_then (set_foo fp (Some (x\<lparr>f_count := f_count x - 1\<rparr>)))
      (if f_count x - 1 = 0 then
         io_seq
           [printf K ''foo_rele free fp'' [], mutex_op K ''pthread_mutex_unlock'' fp,
            mutex_op K ''pthread_mutex_destroy'' fp, do_call K ''free'' [AInt fp], set_foo fp None]
       else mutex_op K ''pthread_mutex_unlock'' fp)))"

section \<open>The program\<close>

definition thr_fn1 :: "'k kernel \<Rightarrow> int \<Rightarrow> ('k foos, int) io" where
  "thr_fn1 K arg =
     io_then (printf K ''thread 1 running'' [])
     (if arg \<noteq> 0 then io_return (- 1)
      else io_then (io_seq [foo_hold K arg, foo_hold K arg, foo_hold K arg]) (io_return 1))"

definition thr_fn2 :: "'k kernel \<Rightarrow> int \<Rightarrow> ('k foos, int) io" where
  "thr_fn2 K arg =
     io_then (printf K ''thread 2 running'' [])
     (if arg \<noteq> 0 then io_return (- 2)
      else io_then (io_seq [foo_rele K arg, foo_rele K arg]) (io_return 2))"

text \<open>\<open>foo_rele\<close> clears only its own copy of the pointer, so \<open>fp\<close> is not NULL after it.\<close>

definition foo_main :: "'k kernel \<Rightarrow> ('k foos, unit) io" where
  "foo_main K =
     io_bind (sys K ''getpid'' []) (\<lambda>pid.
     io_bind (foo_alloc K pid) (\<lambda>fp.
     if fp = 0 then err_sys K ''foo_alloc error'' []
     else
       io_bind (sys K ''pthread_create'' [APtr ''thr_fn1'', AInt fp]) (\<lambda>err.
       if err \<noteq> 0 then err_sys K ''pthread_create error'' []
       else
         io_bind (sys K ''pthread_create'' [APtr ''thr_fn2'', AInt fp]) (\<lambda>err.
         if err \<noteq> 0 then err_sys K ''pthread_create 2 error'' []
         else
           io_then (do_call K ''pthread_join'' [APtr ''tid''])
           (io_bind (thr_fn1 K fp) (\<lambda>tret.
            io_then (printf K ''thread 1 return code %ld'' [AInt tret])
            (io_then (do_call K ''pthread_join'' [APtr ''tid2''])
            (io_bind (thr_fn2 K fp) (\<lambda>tret.
             io_then (printf K ''thread 2 return code %ld'' [AInt tret])
             (io_then
               (if fp \<noteq> 0 then
                  io_bind (foo_at fp) (\<lambda>x.
                  io_then (printf K ''f_count = %d'' [AInt (f_count x)]) (foo_rele K fp))
                else io_return ())
             (io_then
               (if fp = 0 then printf K ''parent: foo free'' []
                else io_bind (foo_at fp) (\<lambda>x. printf K ''f_count = %d'' [AInt (f_count x)]))
               (io_exit 0))))))))))))"

section \<open>Lemmas\<close>

lemma call_run: "\<exists>w'. do_call K nm args w = (Ok (), w') \<and> f_heap w' = f_heap w"
  by (simp add: do_call_def io_bind_def sys_r_run)

lemma mutex_run:
  "f_heap w fp = Some x \<Longrightarrow> \<exists>w'. mutex_op K nm fp w = (Ok (), w') \<and> f_heap w' = f_heap w"
  using call_run [of K nm "[AInt fp]" w] by (auto simp: mutex_op_def foo_at_def io_bind_def)

lemma hold_run:
  assumes "f_heap w fp = Some x" "f_count x \<noteq> INT_MAX"
  shows "\<exists>w'. foo_hold K fp w = (Ok (), w') \<and> f_heap w' = (f_heap w)(fp \<mapsto> x\<lparr>f_count := f_count x + 1\<rparr>)"
proof -
  obtain w1 where 1: "mutex_op K ''pthread_mutex_lock'' fp w = (Ok (), w1)" "f_heap w1 = f_heap w"
    using mutex_run [OF assms(1)] by blast
  let ?w1 = "w1\<lparr>f_heap := (f_heap w1)(fp \<mapsto> x\<lparr>f_count := f_count x + 1\<rparr>)\<rparr>"
  obtain w2 where "mutex_op K ''pthread_mutex_unlock'' fp ?w1 = (Ok (), w2)" "f_heap w2 = f_heap ?w1"
    using mutex_run [of ?w1 fp "x\<lparr>f_count := f_count x + 1\<rparr>"] by fastforce
  with 1 assms show ?thesis
    by (simp add: foo_hold_def io_then_def io_bind_def foo_at_def set_foo_def)
qed

lemma rele_run:
  assumes "f_heap w fp = Some x"
  shows "\<exists>w'. foo_rele K fp w = (Ok (), w') \<and>
    f_heap w' = (f_heap w)(fp := if f_count x = 1 then None else Some (x\<lparr>f_count := f_count x - 1\<rparr>))"
proof -
  let ?x = "x\<lparr>f_count := f_count x - 1\<rparr>"
  obtain w1 where 1: "mutex_op K ''pthread_mutex_lock'' fp w = (Ok (), w1)" "f_heap w1 = f_heap w"
    using mutex_run [OF assms(1)] by blast
  let ?w1 = "w1\<lparr>f_heap := (f_heap w1)(fp \<mapsto> ?x)\<rparr>"
  show ?thesis
  proof (cases "f_count x = 1")
    case False
    obtain w2 where "mutex_op K ''pthread_mutex_unlock'' fp ?w1 = (Ok (), w2)" "f_heap w2 = f_heap ?w1"
      using mutex_run [of ?w1 fp ?x] by fastforce
    with 1 assms False show ?thesis
      by (simp add: foo_rele_def io_then_def io_bind_def foo_at_def set_foo_def)
  next
    case True
    obtain w2 where 2: "printf K ''foo_rele free fp'' [] ?w1 = (Ok (), w2)" "f_heap w2 = f_heap ?w1"
      using call_run [of K "''printf''" _ ?w1] unfolding printf_def by blast
    then have h2: "f_heap w2 fp = Some ?x" by simp
    obtain w3 where 3: "mutex_op K ''pthread_mutex_unlock'' fp w2 = (Ok (), w3)" "f_heap w3 = f_heap w2"
      using mutex_run [OF h2] by blast
    obtain w4 where 4: "mutex_op K ''pthread_mutex_destroy'' fp w3 = (Ok (), w4)" "f_heap w4 = f_heap w3"
      using mutex_run [of w3 fp ?x] h2 3(2) by fastforce
    obtain w5 where 5: "do_call K ''free'' [AInt fp] w4 = (Ok (), w5)" "f_heap w5 = f_heap w4"
      using call_run by blast
    show ?thesis using 1 2 3 4 5 assms True
      by (simp add: foo_rele_def io_then_def io_bind_def foo_at_def set_foo_def)
  qed
qed

section \<open>The properties\<close>

definition foo_op :: "'k kernel \<Rightarrow> int \<Rightarrow> bool \<Rightarrow> ('k foos, unit) io" where
  "foo_op K fp hold = (if hold then foo_hold K fp else foo_rele K fp)"

text \<open>How a sequence of holds (\<open>True\<close>) and releases changes the count.\<close>

definition balance :: "bool list \<Rightarrow> int" where
  "balance ops = sum_list (map (\<lambda>h. if h then 1 else - 1) ops)"

lemma balance_simps [simp]: "balance [] = 0" "balance (h # ops) = (if h then 1 else - 1) + balance ops"
  by (simp_all add: balance_def)

text \<open>
  Claim C26. Holds and releases of an object, in any order in which no operation comes after the
  count has reached zero: all of them return, and the object is freed exactly if the count is zero
  at the end; otherwise it has the balanced count. No other object changes.
\<close>

theorem foo_count_right:
  assumes "f_heap w fp = Some x"
    and "\<And>n. n < length ops \<Longrightarrow> 0 < f_count x + balance (take n ops)"
    and "f_count x + int (length ops) < INT_MAX"
  shows "\<exists>w'. io_each (foo_op K fp) ops w = (Ok (), w') \<and>
    f_heap w' = (f_heap w)(fp := if f_count x + balance ops = 0 \<and> ops \<noteq> [] then None
      else Some (x\<lparr>f_count := f_count x + balance ops\<rparr>))"
  using assms
proof (induction ops arbitrary: w x)
  case Nil
  then show ?case by (simp add: fun_upd_idem)
next
  case (Cons h ops)
  let ?y = "x\<lparr>f_count := f_count x + (if h then 1 else - 1)\<rparr>"
  have pos: "0 < f_count x" using Cons.prems(2) [of 0] by simp
  have step: "\<exists>w1. foo_op K fp h w = (Ok (), w1) \<and>
      f_heap w1 = (f_heap w)(fp := if f_count ?y = 0 then None else Some ?y)"
    using hold_run [OF Cons.prems(1), of K] rele_run [OF Cons.prems(1), of K] Cons.prems(3) pos
    by (cases h) (auto simp: foo_op_def)
  then obtain w1 where w1: "foo_op K fp h w = (Ok (), w1)"
    "f_heap w1 = (f_heap w)(fp := if f_count ?y = 0 then None else Some ?y)" by blast
  show ?case
  proof (cases "ops = []")
    case True
    then show ?thesis using w1 by (auto simp: io_then_def io_bind_def)
  next
    case False
    then have "0 < f_count ?y" using Cons.prems(2) [of 1] by (cases ops) auto
    then have "f_heap w1 fp = Some ?y" using w1(2) by simp
    moreover have "0 < f_count ?y + balance (take n ops)" if "n < length ops" for n
      using Cons.prems(2) [of "Suc n"] that by (simp add: algebra_simps)
    moreover have "f_count ?y + int (length ops) < INT_MAX" using Cons.prems(3) by (simp split: if_splits)
    ultimately obtain w2 where "io_each (foo_op K fp) ops w1 = (Ok (), w2)"
      "f_heap w2 = (f_heap w1)(fp := if f_count ?y + balance ops = 0 \<and> ops \<noteq> [] then None
        else Some (?y\<lparr>f_count := f_count ?y + balance ops\<rparr>))"
      using Cons.IH [of w1 ?y] by blast
    then show ?thesis using w1 False
      by (cases h) (auto simp: io_then_def io_bind_def fun_eq_iff algebra_simps)
  qed
qed

text \<open>What \<open>foo_alloc\<close> delivers.\<close>

lemma alloc_run:
  "\<exists>fp w'. foo_alloc K ident w = (Ok fp, w') \<and>
     (fp = 0 \<or> f_heap w' fp = Some \<lparr>f_count = 1, f_id = ident\<rparr>)"
  by (simp add: foo_alloc_def io_then_def io_bind_def sys_def sys_r_run set_foo_def do_call_def)

lemma sys_keeps: "\<exists>r w'. sys K nm args w = (Ok r, w') \<and> f_heap w' = f_heap w"
  by (simp add: sys_def io_bind_def sys_r_run)

lemma thread_run:
  "fp \<noteq> 0 \<Longrightarrow> \<exists>w'. thr_fn1 K fp w = (Ok (- 1), w') \<and> f_heap w' = f_heap w"
  "fp \<noteq> 0 \<Longrightarrow> \<exists>w'. thr_fn2 K fp w = (Ok (- 2), w') \<and> f_heap w' = f_heap w"
  by (simp_all add: thr_fn1_def thr_fn2_def printf_def do_call_def io_then_def io_bind_def sys_r_run)

lemma printf_keeps: "\<exists>w'. printf K fmt args w = (Ok (), w') \<and> f_heap w' = f_heap w"
  unfolding printf_def by (rule call_run)

text \<open>The end of \<open>main\<close>, once the threads are joined.\<close>

lemma last_lines:
  assumes "f_heap w fp = Some \<lparr>f_count = 1, f_id = ident\<rparr>" "fp \<noteq> 0"
  shows "fst (io_then
      (if fp \<noteq> 0 then io_bind (foo_at fp) (\<lambda>x. io_then (printf K ''f_count = %d'' [AInt (f_count x)]) (foo_rele K fp))
       else io_return ())
    (io_then
      (if fp = 0 then printf K ''parent: foo free'' []
       else io_bind (foo_at fp) (\<lambda>x. printf K ''f_count = %d'' [AInt (f_count x)]))
      (io_exit 0)) w) = (Faulted OutOfBounds :: unit outcome)"
proof -
  obtain w1 where 1: "printf K ''f_count = %d'' [AInt 1] w = (Ok (), w1)" "f_heap w1 = f_heap w"
    using printf_keeps by blast
  then have "f_heap w1 fp = Some \<lparr>f_count = 1, f_id = ident\<rparr>" using assms(1) by simp
  from rele_run [OF this, of K] obtain w2 where 2: "foo_rele K fp w1 = (Ok (), w2)" "f_heap w2 fp = None" by auto
  show ?thesis using 1 2 assms by (simp add: io_then_def io_bind_def foo_at_def)
qed

text \<open>
  \<open>main\<close> never ends well: in every environment it stops in \<open>err_sys\<close>, because the object
  or a thread could not be made, or it reads the count of the object it has just freed.
\<close>

theorem foo_main_reads_freed:
  "fst (foo_main K w) = Exited 1 \<or> fst (foo_main K w) = Faulted OutOfBounds"
proof -
  obtain pid w1 where 1: "sys K ''getpid'' [] w = (Ok pid, w1)" using sys_keeps by blast
  obtain fp w2 where 2: "foo_alloc K pid w1 = (Ok fp, w2)"
    "fp = 0 \<or> f_heap w2 fp = Some \<lparr>f_count = 1, f_id = pid\<rparr>" using alloc_run by blast
  obtain e3 w3 where 3: "sys K ''pthread_create'' [APtr ''thr_fn1'', AInt fp] w2 = (Ok e3, w3)" "f_heap w3 = f_heap w2"
    using sys_keeps by blast
  obtain e4 w4 where 4: "sys K ''pthread_create'' [APtr ''thr_fn2'', AInt fp] w3 = (Ok e4, w4)" "f_heap w4 = f_heap w3"
    using sys_keeps by blast
  show ?thesis
  proof (cases "fp = 0 \<or> e3 \<noteq> 0 \<or> e4 \<noteq> 0")
    case True
    then show ?thesis using 1 2(1) 3(1) 4(1) err_sys_exits
      by (auto simp: foo_main_def io_bind_def)
  next
    case False
    obtain w5 where 5: "do_call K ''pthread_join'' [APtr ''tid''] w4 = (Ok (), w5)" "f_heap w5 = f_heap w4"
      using call_run by blast
    obtain w6 where 6: "thr_fn1 K fp w5 = (Ok (- 1), w6)" "f_heap w6 = f_heap w5" using thread_run(1) False by blast
    obtain w7 where 7: "printf K ''thread 1 return code %ld'' [AInt (- 1)] w6 = (Ok (), w7)" "f_heap w7 = f_heap w6"
      using printf_keeps by blast
    obtain w8 where 8: "do_call K ''pthread_join'' [APtr ''tid2''] w7 = (Ok (), w8)" "f_heap w8 = f_heap w7"
      using call_run by blast
    obtain w9 where 9: "thr_fn2 K fp w8 = (Ok (- 2), w9)" "f_heap w9 = f_heap w8" using thread_run(2) False by blast
    obtain w10 where 10: "printf K ''thread 2 return code %ld'' [AInt (- 2)] w9 = (Ok (), w10)" "f_heap w10 = f_heap w9"
      using printf_keeps by blast
    have "f_heap w10 fp = Some \<lparr>f_count = 1, f_id = pid\<rparr>"
      using 2(2) False 3(2) 4(2) 5(2) 6(2) 7(2) 8(2) 9(2) 10(2) by simp
    note last = last_lines [OF this, of K, unfolded io_then_def]
    show ?thesis using last False 1 2(1) 3(1) 4(1) 5(1) 6(1) 7(1) 8(1) 9(1) 10(1)
      by (simp add: foo_main_def io_then_def io_bind_Ok)
  qed
qed

section \<open>Witness\<close>

theorem foo_count_right_witness:
  "\<exists>w'. io_each (foo_op scripted 8) [True, False, False]
      \<lparr>w_kern = [], w_errno = 0, w_trace = [], f_heap = [8 \<mapsto> \<lparr>f_count = 1, f_id = 7\<rparr>]\<rparr> = (Ok (), w') \<and>
    f_heap w' 8 = None"
proof -
  let ?w = "\<lparr>w_kern = [], w_errno = 0, w_trace = [], f_heap = [8 \<mapsto> \<lparr>f_count = 1, f_id = 7\<rparr>]\<rparr> :: reply list foos"
  have "0 < 1 + balance (take n [True, False, False])" if "n < length [True, False, False]" for n
  proof -
    from that consider "n = 0" | "n = 1" | "n = 2" by fastforce
    then show ?thesis by cases (simp_all add: numeral_2_eq_2)
  qed
  then show ?thesis
    using foo_count_right [of ?w 8 "\<lparr>f_count = 1, f_id = 7\<rparr>" "[True, False, False]" scripted]
    by (auto simp: INT_MAX_def)
qed

end
