(* ===== verification/Barrier.thy ===== *)
theory Barrier
  imports ErrLog
begin

text \<open>
  apue/ch11/ch11_pthread_barrier.c: eight threads sort the eight parts of an array, the main thread
  merges them. The number of threads and the length of a part are arguments. \<open>heapsort\<close> belongs to
  another library; its call replies with the new contents of the part. The threads work on disjoint
  parts and nothing reads them before the barrier, so they run at the barrier, one after another.
  The text has \<open>idex\<close> for \<open>idx\<close> in one place, for which no declaration exists; the model has \<open>idx\<close>.

  The property: if every part is sorted and below \<open>LONG_MAX\<close>, the merge is the sorted whole.
\<close>

section \<open>The code\<close>

definition NTHR :: nat where "NTHR = 8"
definition NUMNUM :: nat where "NUMNUM = 8000000"
definition TNUM :: nat where "TNUM = NUMNUM div NTHR"
definition LONG_MAX :: int where "LONG_MAX = 2 ^ 63 - 1"

definition comlong :: "int \<Rightarrow> int \<Rightarrow> int" where
  "comlong a b = (if a = b then 0 else if a < b then - 1 else 1)"

text \<open>The inner loop over the parts: the smallest head so far and the part it is in.\<close>

fun pick_loop :: "nat \<Rightarrow> int list \<Rightarrow> nat list \<Rightarrow> nat list \<Rightarrow> int \<times> nat option \<Rightarrow> int \<times> nat option" where
  "pick_loop t nums idx [] s = s"
| "pick_loop t nums idx (i # is) (num, minidx) =
     pick_loop t nums idx is
       (if idx ! i < (i + 1) * t \<and> nums ! (idx ! i) < num then (nums ! (idx ! i), Some i) else (num, minidx))"

text \<open>
  The outer loop, with the number of turns left; the result is what it stores in \<open>snums\<close>.
  \<open>minidx\<close> keeps its value from turn to turn and has none at first.
\<close>

fun kmerge_loop :: "nat \<Rightarrow> nat \<Rightarrow> int list \<Rightarrow> nat \<Rightarrow> nat list \<Rightarrow> nat option \<Rightarrow> int list result" where
  "kmerge_loop n t nums 0 idx minidx = Inr []"
| "kmerge_loop n t nums (Suc k) idx minidx =
     (case snd (pick_loop t nums idx [0 ..< n] (LONG_MAX, minidx)) of
        None \<Rightarrow> Inl OutOfBounds
      | Some i \<Rightarrow>
          if idx ! i < length nums then
            rbind (kmerge_loop n t nums k (idx[i := idx ! i + 1]) (Some i)) (\<lambda>zs. Inr (nums ! (idx ! i) # zs))
          else Inl OutOfBounds)"

definition kmerge :: "nat \<Rightarrow> nat \<Rightarrow> int list \<Rightarrow> int list result" where
  "kmerge n t nums = kmerge_loop n t nums (n * t) (map (\<lambda>i. i * t) [0 ..< n]) None"

record 'k bar = "'k world" +
  nums :: "int list"
  snums :: "int list"

definition barrier_thread :: "'k kernel \<Rightarrow> nat \<Rightarrow> nat \<Rightarrow> ('k bar, unit) io" where
  "barrier_thread K t idx =
     io_bind (io_get nums) (\<lambda>a.
     io_bind (sys_r K ''heapsort'' (map AInt (slice idx t a))) (\<lambda>r.
     io_then (io_mod (\<lambda>w. w\<lparr>nums := overwrite idx (take t (r_ints r @ drop (length (r_ints r)) (slice idx t a))) a\<rparr>))
       (do_call K ''pthread_barrier_wait'' [])))"

definition barrier_main :: "'k kernel \<Rightarrow> nat \<Rightarrow> nat \<Rightarrow> ('k bar, unit) io" where
  "barrier_main K n t =
     io_then (do_call K ''srandom'' [AInt 1])
     (io_then (io_mod (\<lambda>w. w\<lparr>nums := replicate (n * t) 0\<rparr>))
     (io_then (io_each (\<lambda>i. io_bind (sys K ''random'' []) (\<lambda>x. io_mod (\<lambda>w. w\<lparr>nums := (nums w)[i := x]\<rparr>))) [0 ..< n * t])
     (io_bind (sys_r K ''gettimeofday'' []) (\<lambda>start.
      io_then (do_call K ''pthread_barrier_init'' [AInt (int n + 1)])
      (io_then
        (io_each (\<lambda>i.
           io_bind (sys K ''pthread_create'' [APtr ''thr_fn'', AInt (int (i * t))]) (\<lambda>err.
           if err \<noteq> 0 then err_exit K err ''can't create thread'' [] else io_return ())) [0 ..< n])
      (io_then (io_each (\<lambda>i. barrier_thread K t (i * t)) [0 ..< n])
      (io_then (do_call K ''pthread_barrier_wait'' [])
      (io_bind (io_get nums) (\<lambda>a.
       io_bind (io_lift (kmerge n t a)) (\<lambda>zs.
       io_then (io_mod (\<lambda>w. w\<lparr>snums := zs\<rparr>))
       (io_bind (sys_r K ''gettimeofday'' []) (\<lambda>end'.
        let startusec = int_at start 0 * 1000000 + int_at start 1;
            endusec = int_at end' 0 * 1000000 + int_at end' 1 in
        io_then (printf K ''sort took %.4f seconds'' [ARat (of_int (endusec - startusec) / 1000000)])
        (io_then (io_each (\<lambda>x. printf K ''%ld'' [AInt x]) zs) (io_exit 0))))))))))))))"

section \<open>The rest of each part\<close>

definition rest :: "nat \<Rightarrow> int list \<Rightarrow> nat list \<Rightarrow> nat \<Rightarrow> int list" where
  "rest t a idx i = drop (idx ! i) (take ((i + 1) * t) a)"

definition rests :: "nat \<Rightarrow> nat \<Rightarrow> int list \<Rightarrow> nat list \<Rightarrow> int multiset" where
  "rests n t a idx = (\<Sum>i \<in> {0 ..< n}. mset (rest t a idx i))"

definition merging :: "nat \<Rightarrow> nat \<Rightarrow> int list \<Rightarrow> nat list \<Rightarrow> bool" where
  "merging n t a idx \<longleftrightarrow> length a = n * t \<and> length idx = n \<and>
     (\<forall>i < n. idx ! i \<le> (i + 1) * t \<and> sorted (rest t a idx i)) \<and> (\<forall>x \<in> set a. x < LONG_MAX)"

lemma part_bound: "i < n \<Longrightarrow> (i + 1) * t \<le> n * (t :: nat)"
  using mult_le_mono1 [of "i + 1" n t] by simp

lemma rest_Cons:
  assumes "merging n t a idx" "i < n" "idx ! i < (i + 1) * t"
  shows "rest t a idx i = a ! (idx ! i) # rest t a (idx[i := idx ! i + 1]) i" "idx ! i < length a"
proof -
  have "idx ! i < length (take ((i + 1) * t) a)"
    using assms part_bound [OF assms(2), of t] by (simp add: merging_def)
  then show "idx ! i < length a" by simp
  from \<open>idx ! i < length (take ((i + 1) * t) a)\<close> show "rest t a idx i = a ! (idx ! i) # rest t a (idx[i := idx ! i + 1]) i"
    using Cons_nth_drop_Suc [of "idx ! i" "take ((i + 1) * t) a"] assms(1,2,3) by (simp add: rest_def merging_def)
qed

lemma rest_Nil: "\<not> idx ! i < (i + 1) * t \<Longrightarrow> rest t a idx i = []"
  by (simp add: rest_def)

lemma rest_other: "k \<noteq> i \<Longrightarrow> rest t a (idx[i := x]) k = rest t a idx k"
  by (simp add: rest_def)

lemma set_rest: "set (rest t a idx i) \<subseteq> set a"
  unfolding rest_def by (meson order_trans set_drop_subset set_take_subset)

text \<open>What the inner loop finds.\<close>

lemma pick_loop_result:
  "pick_loop t a idx is (num, m) = (num', m') \<Longrightarrow>
     (num' = num \<and> m' = m \<or> num' < num \<and> (\<exists>i \<in> set is. m' = Some i \<and> idx ! i < (i + 1) * t \<and> num' = a ! (idx ! i))) \<and>
     (\<forall>i \<in> set is. idx ! i < (i + 1) * t \<longrightarrow> num' \<le> a ! (idx ! i))"
proof (induction "is" arbitrary: num m)
  case Nil
  then show ?case by simp
next
  case (Cons i "is")
  show ?case
  proof (cases "idx ! i < (i + 1) * t \<and> a ! (idx ! i) < num")
    case True
    then have "pick_loop t a idx is (a ! (idx ! i), Some i) = (num', m')" using Cons.prems by simp
    from Cons.IH [OF this] True show ?thesis by fastforce
  next
    case False
    then have "pick_loop t a idx is (num, m) = (num', m')" using Cons.prems by (simp split: if_splits)
    from Cons.IH [OF this] False show ?thesis by fastforce
  qed
qed

lemma rests_step:
  assumes "merging n t a idx" "i < n" "idx ! i < (i + 1) * t"
  shows "rests n t a idx = add_mset (a ! (idx ! i)) (rests n t a (idx[i := idx ! i + 1]))"
proof -
  have "rests n t a idx = mset (rest t a idx i) + (\<Sum>k \<in> {0 ..< n} - {i}. mset (rest t a idx k))"
    unfolding rests_def using assms(2) by (intro sum.remove) auto
  moreover have "rests n t a (idx[i := idx ! i + 1]) =
      mset (rest t a (idx[i := idx ! i + 1]) i) + (\<Sum>k \<in> {0 ..< n} - {i}. mset (rest t a idx k))"
    unfolding rests_def using assms(2) by (subst sum.remove [of _ i]) (auto simp: rest_other intro!: sum.cong)
  ultimately show ?thesis using rest_Cons [OF assms] by simp
qed

lemma merging_step:
  assumes "merging n t a idx" "i < n" "idx ! i < (i + 1) * t"
  shows "merging n t a (idx[i := idx ! i + 1])"
proof -
  have "sorted (rest t a (idx[i := idx ! i + 1]) k)" if "k < n" for k
  proof (cases "k = i")
    case True
    have "sorted (rest t a idx i)" using assms(1,2) by (simp add: merging_def)
    then show ?thesis using rest_Cons(1) [OF assms] True by simp
  next
    case False
    then show ?thesis using assms(1) that by (simp add: merging_def rest_other)
  qed
  then show ?thesis using assms by (auto simp: merging_def nth_list_update)
qed

lemma in_rests: "x \<in># rests n t a idx \<longleftrightarrow> (\<exists>i < n. x \<in> set (rest t a idx i))"
  by (auto simp: rests_def set_mset_sum)

text \<open>While something is left the loop picks the least element that is left.\<close>

lemma pick_least:
  assumes "merging n t a idx" "rests n t a idx \<noteq> {#}"
  obtains i where "snd (pick_loop t a idx [0 ..< n] (LONG_MAX, m)) = Some i" "i < n" "idx ! i < (i + 1) * t"
    "\<forall>y \<in># rests n t a idx. a ! (idx ! i) \<le> y"
proof -
  obtain num' m' where p: "pick_loop t a idx [0 ..< n] (LONG_MAX, m) = (num', m')" by fastforce
  note res = pick_loop_result [OF p]
  have least: "num' \<le> y" if "y \<in># rests n t a idx" for y
  proof -
    from that obtain k where k: "k < n" "y \<in> set (rest t a idx k)" by (auto simp: in_rests)
    then have lt: "idx ! k < (k + 1) * t" using rest_Nil [of idx k t a] by force
    have "sorted (rest t a idx k)" using assms(1) k(1) by (simp add: merging_def)
    then have "a ! (idx ! k) \<le> y" using k(2) rest_Cons(1) [OF assms(1) k(1) lt] by auto
    moreover have "num' \<le> a ! (idx ! k)" using res lt k(1) by simp
    ultimately show ?thesis by simp
  qed
  obtain y where y: "y \<in># rests n t a idx" using assms(2) by (auto simp: multiset_nonemptyE)
  then have "y \<in> set a" using set_rest by (fastforce simp: in_rests)
  then have "num' < LONG_MAX" using least [OF y] assms(1) by (auto simp: merging_def)
  then obtain i where "i < n" "m' = Some i" "idx ! i < (i + 1) * t" "num' = a ! (idx ! i)" using res by auto
  then show thesis using that p least by auto
qed

lemma kmerge_loop_sorts:
  "merging n t a idx \<Longrightarrow> size (rests n t a idx) = k \<Longrightarrow>
   \<exists>zs. kmerge_loop n t a k idx m = Inr zs \<and> sorted zs \<and> mset zs = rests n t a idx"
proof (induction k arbitrary: idx m)
  case 0
  then show ?case by simp
next
  case (Suc k)
  then have ne: "rests n t a idx \<noteq> {#}" by auto
  obtain i where i: "snd (pick_loop t a idx [0 ..< n] (LONG_MAX, m)) = Some i" "i < n" "idx ! i < (i + 1) * t"
    "\<forall>y \<in># rests n t a idx. a ! (idx ! i) \<le> y"
    by (rule pick_least [OF Suc.prems(1) ne, of m])
  let ?idx = "idx[i := idx ! i + 1]"
  have r: "rests n t a idx = add_mset (a ! (idx ! i)) (rests n t a ?idx)"
    by (rule rests_step [OF Suc.prems(1) i(2,3)])
  then have "size (rests n t a ?idx) = k" using Suc.prems(2) by simp
  from Suc.IH [OF merging_step [OF Suc.prems(1) i(2,3)] this, of "Some i"] obtain zs where
    zs: "kmerge_loop n t a k ?idx (Some i) = Inr zs" "sorted zs" "mset zs = rests n t a ?idx" by blast
  have "idx ! i < length a" by (rule rest_Cons(2) [OF Suc.prems(1) i(2,3)])
  then have "kmerge_loop n t a (Suc k) idx m = Inr (a ! (idx ! i) # zs)" using i(1) zs(1) by simp
  moreover have "\<forall>y \<in> set zs. a ! (idx ! i) \<le> y" using i(4) r zs(3) by (metis set_mset_mset union_iff add_mset_add_single)
  ultimately show ?case using zs r by auto
qed

text \<open>At the start the rests are the parts.\<close>

lemma rest_start: "i < n \<Longrightarrow> length a = n * t \<Longrightarrow> rest t a (map (\<lambda>i. i * t) [0 ..< n]) i = slice (i * t) t a"
  by (simp add: rest_def slice_def drop_take)

lemma parts_sum: "length a = n * t \<Longrightarrow> (\<Sum>i \<in> {0 ..< n}. mset (slice (i * t) t a)) = mset a"
proof (induction n arbitrary: a)
  case 0
  then show ?case by simp
next
  case (Suc n)
  let ?b = "take (n * t) a"
  have b: "length ?b = n * t" using Suc.prems by simp
  have s: "slice (i * t) t ?b = slice (i * t) t a" if "i < n" for i
    using part_bound [OF that, of t] by (intro slice_take) (simp add: algebra_simps)
  have "mset a = mset ?b + mset (drop (n * t) a)" by (metis append_take_drop_id mset_append)
  also have "mset ?b = (\<Sum>i \<in> {0 ..< n}. mset (slice (i * t) t a))"
    unfolding Suc.IH [OF b, symmetric] by (rule sum.cong) (simp_all add: s)
  also have "drop (n * t) a = slice (n * t) t a" using Suc.prems by (simp add: slice_def)
  finally show ?case by (simp add: add.commute)
qed

section \<open>The property\<close>



end
