(* ===== verification/Ftw.thy ===== *)
theory Ftw
  imports FdIO
begin

text \<open>
  apue/ch04/ch04_dirent.c: a walk over a file hierarchy that counts the files of each kind. The
  path lies in one buffer that the walk extends and cuts; its contents and its size are globals, and
  every write is checked against the size. The seven counters are a function of the kind. Both the
  depth of the recursion and the entries of a directory are the environment's, so the walk has fuel.

  The property: on a file system that answers from a finite tree, the walk returns 0 within the fuel
  that its size asks for, counts every file of the tree once under its kind, and leaves the path as
  it was, inside its buffer.
\<close>

section \<open>The code\<close>

datatype kind = Reg | Dir | Blk | Chr | Fifo | Slink | Sock

definition S_IFREG :: int where "S_IFREG = 32768"
definition S_IFDIR :: int where "S_IFDIR = 16384"
definition S_IFBLK :: int where "S_IFBLK = 24576"
definition S_IFCHR :: int where "S_IFCHR = 8192"
definition S_IFIFO :: int where "S_IFIFO = 4096"
definition S_IFLNK :: int where "S_IFLNK = 40960"
definition NAME_MAX :: int where "NAME_MAX = 255"

datatype ftw_type = FTW_F | FTW_D | FTW_DNR | FTW_NS

record 'k ftw = "'k lim" +
  tally :: "kind \<Rightarrow> int"
  fullpath :: string
  pathlen :: int

definition count_up :: "kind \<Rightarrow> ('k ftw, unit) io" where
  "count_up k = io_mod (\<lambda>w. w\<lparr>tally := (tally w)(k := tally w k + 1)\<rparr>)"

definition myfunc :: "'k kernel \<Rightarrow> string \<Rightarrow> int \<Rightarrow> ftw_type \<Rightarrow> ('k ftw, int) io" where
  "myfunc K pathname st_mode type =
     io_then
       (case type of
          FTW_F \<Rightarrow>
            let m = and st_mode S_IFMT in
            if m = S_IFREG then count_up Reg
            else if m = S_IFBLK then count_up Blk
            else if m = S_IFCHR then count_up Chr
            else if m = S_IFIFO then count_up Fifo
            else if m = S_IFLNK then count_up Slink
            else if m = S_IFSOCK then count_up Sock
            else if m = S_IFDIR then err_dump K ''for S_IFDIR for %s'' [AStr pathname]
            else io_return ()
        | FTW_D \<Rightarrow> count_up Dir
        | FTW_DNR \<Rightarrow> err_ret K ''can't read directory %s'' [AStr pathname]
        | FTW_NS \<Rightarrow> err_ret K ''stat error for %s'' [AStr pathname])
     (io_return 0)"

text \<open>A string stored at position \<open>n\<close> of the path buffer, with its terminator.\<close>

definition put_path :: "nat \<Rightarrow> string \<Rightarrow> ('k ftw, unit) io" where
  "put_path n s =
     io_bind (io_get (\<lambda>w. (fullpath w, pathlen w))) (\<lambda>(p, z).
     if int (n + length s) + 1 > z then io_fault OutOfBounds
     else io_mod (\<lambda>w. w\<lparr>fullpath := take n p @ s\<rparr>))"

text \<open>Room for a slash, a name and the terminator after the first \<open>n\<close> characters.\<close>

definition grow_path :: "'k kernel \<Rightarrow> nat \<Rightarrow> ('k ftw, unit) io" where
  "grow_path K n =
     io_bind (io_get pathlen) (\<lambda>z.
     if int n + NAME_MAX + 2 > z then
       io_then (io_mod (\<lambda>w. w\<lparr>pathlen := z * 2\<rparr>))
       (io_bind (sys K ''realloc'' [AInt (z * 2)]) (\<lambda>p.
        if p = 0 then err_sys K ''realloc failed'' [] else io_return ()))
     else io_return ())"

text \<open>One turn of the loop over a directory; \<open>walk\<close> is the recursive call.\<close>

definition dir_turn :: "'k kernel \<Rightarrow> ('k ftw, int) io \<Rightarrow> int \<Rightarrow> nat \<Rightarrow> int \<Rightarrow> ('k ftw, int + int) io" where
  "dir_turn K walk dp n ret =
     io_bind (sys_r K ''readdir'' [AInt dp]) (\<lambda>dirp.
     if r_ret dirp = 0 then io_return (Inr ret)
     else if r_str dirp = ''.'' \<or> r_str dirp = ''..'' then io_return (Inl ret)
     else
       io_then (put_path n (r_str dirp))
       (io_bind walk (\<lambda>ret. io_return (if ret \<noteq> 0 then Inr ret else Inl ret))))"

fun dopath :: "'k kernel \<Rightarrow> nat \<Rightarrow> ('k ftw, int) io" where
  "dopath K 0 = io_fault Diverged"
| "dopath K (Suc fuel) =
     io_bind (io_get fullpath) (\<lambda>path.
     io_bind (sys_r K ''lstat'' [AStr path]) (\<lambda>st.
     if r_ret st < 0 then myfunc K path (int_at st 0) FTW_NS
     else if and (int_at st 0) S_IFMT \<noteq> S_IFDIR then myfunc K path (int_at st 0) FTW_F
     else
       io_bind (myfunc K path (int_at st 0) FTW_D) (\<lambda>ret.
       if ret \<noteq> 0 then io_return ret
       else
         let n = length path in
         io_then (grow_path K n)
         (io_then (put_path n ''/'')
         (io_bind (io_get fullpath) (\<lambda>path.
          io_bind (sys K ''opendir'' [AStr path]) (\<lambda>dp.
          if dp = 0 then myfunc K path (int_at st 0) FTW_DNR
          else
            io_bind (io_loop fuel (dir_turn K (dopath K fuel) dp (n + 1)) ret) (\<lambda>ret.
            io_then (put_path n '''')
            (io_bind (sys K ''closedir'' [AInt dp]) (\<lambda>r.
             if r < 0 then io_bind (io_get fullpath) (\<lambda>path. err_sys K ''can't close directory %s'' [AStr path])
             else io_return ret))))))))))"

definition myftw :: "'k kernel \<Rightarrow> nat \<Rightarrow> string \<Rightarrow> ('k ftw, int) io" where
  "myftw K fuel pathname =
     io_bind (path_alloc K) (\<lambda>(ptr, sz).
     io_then (io_mod (\<lambda>w. w\<lparr>pathlen := sz\<rparr>))
     (io_then
       (if sz \<le> int (length pathname) then
          io_then (io_mod (\<lambda>w. w\<lparr>pathlen := int (length pathname) * 2\<rparr>))
          (io_bind (sys K ''realloc'' [AInt (int (length pathname) * 2)]) (\<lambda>p.
           if p = 0 then err_sys K ''realloc failed'' [] else io_return ()))
        else io_return ())
     (io_then (put_path 0 pathname) (dopath K fuel))))"

definition ftw_line :: "'k kernel \<Rightarrow> string \<Rightarrow> int \<Rightarrow> int \<Rightarrow> ('k ftw, unit) io" where
  "ftw_line K what n ntot =
     printf K (what @ ''= %7ld, %5.2f%%'') [AInt n, ARat (of_int n * 100 / of_int ntot)]"

definition ftw_main :: "'k kernel \<Rightarrow> nat \<Rightarrow> string list \<Rightarrow> ('k ftw, unit) io" where
  "ftw_main K fuel argv =
     (if length argv \<noteq> 2 then err_quit K ''usage: ftw <starting-pathname>'' []
      else
        io_bind (myftw K fuel (argv ! 1)) (\<lambda>ret.
        io_bind (io_get tally) (\<lambda>t.
        let ntot = t Reg + t Dir + t Blk + t Chr + t Fifo + t Slink + t Sock;
            ntot = (if ntot = 0 then 1 else ntot) in
        io_then
          (io_seq
             [ftw_line K (''regular files '' @ [CHR 0x09]) (t Reg) ntot, ftw_line K (''directories '' @ [CHR 0x09]) (t Dir) ntot,
              ftw_line K (''block special '' @ [CHR 0x09]) (t Blk) ntot, ftw_line K (''char special '' @ [CHR 0x09]) (t Chr) ntot,
              ftw_line K (''FIFOs  '' @ [CHR 0x09, CHR 0x09]) (t Fifo) ntot, ftw_line K (''symbolic links '' @ [CHR 0x09]) (t Slink) ntot,
              ftw_line K (''sockets'' @ [CHR 0x09, CHR 0x09]) (t Sock) ntot])
          (io_exit ret))))"

section \<open>A file system\<close>

text \<open>A tree of files; a directory has its entries with their names, besides the two dots.\<close>

datatype node = Leaf kind | Folder "(string \<times> node) list"

definition mode_of :: "node \<Rightarrow> int" where
  "mode_of t =
     (case t of
        Folder es \<Rightarrow> S_IFDIR
      | Leaf k \<Rightarrow>
          (case k of
             Reg \<Rightarrow> S_IFREG | Dir \<Rightarrow> S_IFDIR | Blk \<Rightarrow> S_IFBLK | Chr \<Rightarrow> S_IFCHR
           | Fifo \<Rightarrow> S_IFIFO | Slink \<Rightarrow> S_IFLNK | Sock \<Rightarrow> S_IFSOCK))"

text \<open>The names a path consists of.\<close>

fun segments :: "string \<Rightarrow> string list" where
  "segments [] = [[]]"
| "segments (c # cs) =
     (if c = CHR ''/'' then [] # segments cs else (c # hd (segments cs)) # tl (segments cs))"

definition comps :: "string \<Rightarrow> string list" where
  "comps p = filter (\<lambda>s. s \<noteq> []) (segments p)"

fun lookup :: "node \<Rightarrow> string list \<Rightarrow> node option" where
  "lookup t [] = Some t"
| "lookup (Leaf k) (s # ss) = None"
| "lookup (Folder es) (s # ss) = (case map_of es s of None \<Rightarrow> None | Some t \<Rightarrow> lookup t ss)"

text \<open>
  The calls of the walk answered from a tree. The state has the number of directories opened so far
  and, for each, the names still to be read, the two dots first. Every other call answers 1.
\<close>

type_synonym fs = "nat \<times> (nat \<Rightarrow> string list)"

definition answer :: "int \<Rightarrow> int list \<Rightarrow> string \<Rightarrow> reply" where
  "answer r ns s = \<lparr>r_ret = r, r_err = None, r_ints = ns, r_bytes = [], r_str = s\<rparr>"

definition tree_fs :: "node \<Rightarrow> fs kernel" where
  "tree_fs rt c k =
     (case (c, k) of
        ((nm, args), (cnt, left)) \<Rightarrow>
          if nm = ''lstat'' then
            (case args of
               [AStr p] \<Rightarrow>
                 (case lookup rt (comps p) of
                    None \<Rightarrow> (answer (- 1) [] [], k)
                  | Some t \<Rightarrow> (answer 0 [mode_of t] [], k))
             | _ \<Rightarrow> (answer (- 1) [] [], k))
          else if nm = ''opendir'' then
            (case args of
               [AStr p] \<Rightarrow>
                 (case lookup rt (comps p) of
                    Some (Folder es) \<Rightarrow>
                      (answer (int cnt + 1) [] [], (Suc cnt, left(Suc cnt := ''.'' # ''..'' # map fst es)))
                  | _ \<Rightarrow> (answer 0 [] [], k))
             | _ \<Rightarrow> (answer 0 [] [], k))
          else if nm = ''readdir'' then
            (case args of
               [AInt d] \<Rightarrow>
                 (case left (nat d) of
                    [] \<Rightarrow> (answer 0 [] [], k)
                  | s # ss \<Rightarrow> (answer 1 [] s, (cnt, left(nat d := ss))))
             | _ \<Rightarrow> (answer 0 [] [], k))
          else (answer 1 [] [], k))"

fun tally_of :: "node \<Rightarrow> kind \<Rightarrow> int" where
  "tally_of (Leaf k) j = (if j = k then 1 else 0)"
| "tally_of (Folder es) j = (if j = Dir then 1 else 0) + sum_list (map (\<lambda>e. tally_of (snd e) j) es)"

text \<open>Names as a file system has them.\<close>

definition good_name :: "string \<Rightarrow> bool" where
  "good_name s \<longleftrightarrow> s \<noteq> [] \<and> CHR ''/'' \<notin> set s \<and> s \<noteq> ''.'' \<and> s \<noteq> ''..'' \<and> int (length s) \<le> NAME_MAX"

fun good_tree :: "node \<Rightarrow> bool" where
  "good_tree (Leaf k) \<longleftrightarrow> k \<noteq> Dir"
| "good_tree (Folder es) \<longleftrightarrow> distinct (map fst es) \<and> (\<forall>e \<in> set es. good_name (fst e) \<and> good_tree (snd e))"

text \<open>The fuel a tree asks for: its depth, and three more turns than a directory has entries.\<close>

fun fuel_of :: "node \<Rightarrow> nat" where
  "fuel_of (Leaf k) = 1"
| "fuel_of (Folder es) = Suc (length es + 3 + sum_list (map (\<lambda>e. fuel_of (snd e)) es))"
section \<open>Paths\<close>

lemma segments_not_empty [simp]: "segments p \<noteq> []"
  by (induction p) auto

lemma segments_slash: "segments (p @ CHR ''/'' # q) = segments p @ segments q"
  by (induction p) auto

lemma segments_name: "CHR ''/'' \<notin> set s \<Longrightarrow> segments s = [s]"
  by (induction s) auto

lemma comps_slash [simp]: "comps (p @ ''/'') = comps p"
  by (simp add: comps_def segments_slash)

lemma comps_name: "good_name s \<Longrightarrow> comps (p @ CHR ''/'' # s) = comps p @ [s]"
  by (simp add: comps_def segments_slash segments_name good_name_def)

lemma lookup_snoc: "lookup t ss = Some (Folder es) \<Longrightarrow> lookup t (ss @ [s]) = map_of es s"
proof (induction t ss rule: lookup.induct)
  case (1 t)
  then show ?case by (simp split: option.split)
qed (auto split: option.splits)

section \<open>The walk counts a tree\<close>

text \<open>What a walk at the path of a tree does.\<close>

definition roomy :: "'k ftw \<Rightarrow> bool" where
  "roomy w \<longleftrightarrow> int (length (fullpath w)) < pathlen w \<and> NAME_MAX + 2 \<le> pathlen w"

definition counted :: "nat set \<Rightarrow> node list \<Rightarrow> fs ftw \<Rightarrow> fs ftw \<Rightarrow> bool" where
  "counted D ts w w' \<longleftrightarrow>
     tally w' = (\<lambda>j. tally w j + sum_list (map (\<lambda>t. tally_of t j) ts)) \<and> pathlen w \<le> pathlen w' \<and>
     fst (w_kern w) \<le> fst (w_kern w') \<and>
     (\<forall>d \<le> fst (w_kern w). d \<in> D \<or> snd (w_kern w') d = snd (w_kern w) d)"

definition walks :: "node \<Rightarrow> node \<Rightarrow> (fs ftw, int) io \<Rightarrow> bool" where
  "walks rt t walk \<longleftrightarrow> (\<forall>w. roomy w \<and> lookup rt (comps (fullpath w)) = Some t \<longrightarrow>
     (\<exists>w'. walk w = (Ok 0, w') \<and> fullpath w' = fullpath w \<and> counted {} [t] w w'))"

lemma counted_trans:
  assumes "counted D ts w w1" "counted D us w1 w2"
  shows "counted D (ts @ us) w w2"
  unfolding counted_def
proof (intro conjI allI impI)
  show "tally w2 = (\<lambda>j. tally w j + sum_list (map (\<lambda>t. tally_of t j) (ts @ us)))"
    using assms by (simp add: counted_def fun_eq_iff)
  show "pathlen w \<le> pathlen w2" "fst (w_kern w) \<le> fst (w_kern w2)"
    using assms by (auto simp: counted_def intro: order_trans)
  fix d assume d: "d \<le> fst (w_kern w)"
  then have "d \<le> fst (w_kern w1)" using assms(1) by (simp add: counted_def)
  with d assms show "d \<in> D \<or> snd (w_kern w2) d = snd (w_kern w) d" unfolding counted_def by metis
qed

lemma counted_refl: "counted D [] w w"
  by (simp add: counted_def)

lemma counted_mono: "counted D ts w w1 \<Longrightarrow> D \<subseteq> E \<Longrightarrow> counted E ts w w1"
  unfolding counted_def by blast

lemma counted_fullpath: "counted D ts w w1 \<Longrightarrow> counted D ts w (w1\<lparr>fullpath := p\<rparr>)"
  by (simp add: counted_def)

lemmas mode_defs = mode_of_def S_IFMT_def S_IFREG_def S_IFBLK_def S_IFCHR_def S_IFIFO_def S_IFLNK_def
  S_IFSOCK_def S_IFDIR_def

lemma mode_of_dir [simp]: "and (mode_of t) S_IFMT = mode_of t"
proof (cases t)
  case (Leaf k)
  then show ?thesis by (cases k) (simp_all add: mode_defs)
qed (simp add: mode_defs)

lemma mode_of_leaf: "k \<noteq> Dir \<Longrightarrow> mode_of (Leaf k) \<noteq> S_IFDIR"
  by (cases k) (simp_all add: mode_defs)

lemma dir_mode: "and S_IFDIR S_IFMT = S_IFDIR"
  by (simp add: mode_defs)

lemma mode_of_folder: "mode_of (Folder es) = S_IFDIR"
  by (simp add: mode_defs)

lemma myfunc_leaf:
  "k \<noteq> Dir \<Longrightarrow> myfunc K p (mode_of (Leaf k)) FTW_F w = (Ok 0, w\<lparr>tally := (tally w)(k := tally w k + 1)\<rparr>)"
  unfolding myfunc_def Let_def ftw_type.case mode_of_dir
  by (cases k) (simp_all add: mode_defs io_then_def count_up_def)

lemma myfunc_dir: "myfunc K p m FTW_D w = (Ok 0, w\<lparr>tally := (tally w)(Dir := tally w Dir + 1)\<rparr>)"
  by (simp add: myfunc_def io_then_def count_up_def)

lemma put_path_run:
  "int (n + length s) < pathlen w \<Longrightarrow> put_path n s w = (Ok (), w\<lparr>fullpath := take n (fullpath w) @ s\<rparr>)"
  by (simp add: put_path_def)

text \<open>The calls.\<close>

definition moved :: "fs ftw \<Rightarrow> fs \<Rightarrow> fs ftw \<Rightarrow> bool" where
  "moved w k w' \<longleftrightarrow>
     fullpath w' = fullpath w \<and> pathlen w' = pathlen w \<and> tally w' = tally w \<and> w_kern w' = k"

lemma fs_call_r:
  "tree_fs rt (nm, args) (w_kern w) = (r, k) \<Longrightarrow> \<exists>w'. sys_r (tree_fs rt) nm args w = (Ok r, w') \<and> moved w k w'"
  by (simp add: sys_r_run moved_def)

lemma fs_call:
  "tree_fs rt (nm, args) (w_kern w) = (r, k) \<Longrightarrow> \<exists>w'. sys (tree_fs rt) nm args w = (Ok (r_ret r), w') \<and> moved w k w'"
  by (simp add: sys_def io_bind_def sys_r_run moved_def)

lemma answer_sel [simp]:
  "r_ret (answer n ns s) = n" "int_at (answer n [m] s) 0 = m" "r_str (answer n ns s) = s"
  by (simp_all add: answer_def int_at_def)

lemma fs_lstat: "lookup rt (comps p) = Some t \<Longrightarrow> tree_fs rt (''lstat'', [AStr p]) k = (answer 0 [mode_of t] [], k)"
  by (simp add: tree_fs_def split_beta)

lemma fs_opendir:
  "lookup rt (comps p) = Some (Folder es) \<Longrightarrow>
   tree_fs rt (''opendir'', [AStr p]) (cnt, left) =
     (answer (int cnt + 1) [] [], (Suc cnt, left(Suc cnt := ''.'' # ''..'' # map fst es)))"
  by (simp add: tree_fs_def)

lemma fs_readdir:
  "left d = s # ss \<Longrightarrow> tree_fs rt (''readdir'', [AInt (int d)]) (cnt, left) = (answer 1 [] s, (cnt, left(d := ss)))"
  by (simp add: tree_fs_def)

lemma fs_readdir_end:
  "left d = [] \<Longrightarrow> tree_fs rt (''readdir'', [AInt (int d)]) (cnt, left) = (answer 0 [] [], (cnt, left))"
  by (simp add: tree_fs_def)

lemma fs_plain: "tree_fs rt (''closedir'', args) k = (answer 1 [] [], k)" "tree_fs rt (''realloc'', args) k = (answer 1 [] [], k)"
  by (simp_all add: tree_fs_def split_beta)

lemma readdir_call:
  assumes "w_kern w = (cnt, left)" "left d = s # ss"
  shows "\<exists>w'. sys_r (tree_fs rt) ''readdir'' [AInt (int d)] w = (Ok (answer 1 [] s), w') \<and>
     moved w (cnt, left(d := ss)) w'"
  by (rule fs_call_r) (simp only: assms(1) fs_readdir [where left = left, OF assms(2)])

lemma readdir_end_call:
  assumes "w_kern w = (cnt, left)" "left d = []"
  shows "\<exists>w'. sys_r (tree_fs rt) ''readdir'' [AInt (int d)] w = (Ok (answer 0 [] []), w') \<and> moved w (cnt, left) w'"
  by (rule fs_call_r) (simp only: assms(1) fs_readdir_end [where left = left, OF assms(2)])

text \<open>One turn: a dot is passed over, an entry is walked.\<close>

lemma turn_dot:
  assumes "w_kern w = (cnt, left)" "left d = s # ss" "s = ''.'' \<or> s = ''..''"
  shows "\<exists>w'. dir_turn (tree_fs rt) walk (int d) n ret w = (Ok (Inl ret), w') \<and> moved w (cnt, left(d := ss)) w'"
proof -
  obtain w1 where "sys_r (tree_fs rt) ''readdir'' [AInt (int d)] w = (Ok (answer 1 [] s), w1)"
    "moved w (cnt, left(d := ss)) w1"
    using readdir_call [OF assms(1,2)] by blast
  with assms(3) show ?thesis by (auto simp: dir_turn_def io_bind_def)
qed

lemma turn_end:
  assumes "w_kern w = (cnt, left)" "left d = []"
  shows "\<exists>w'. dir_turn (tree_fs rt) walk (int d) n ret w = (Ok (Inr ret), w') \<and> moved w (cnt, left) w'"
proof -
  obtain w1 where "sys_r (tree_fs rt) ''readdir'' [AInt (int d)] w = (Ok (answer 0 [] []), w1)"
    "moved w (cnt, left) w1"
    using readdir_end_call [OF assms] by blast
  then show ?thesis by (auto simp: dir_turn_def io_bind_def)
qed

lemma counted_moved:
  "w_kern w = (cnt, left) \<Longrightarrow> moved w (cnt, left(d := ss)) w' \<Longrightarrow> counted {d} [] w w'"
  "w_kern w = (cnt, left) \<Longrightarrow> moved w (cnt, left) w' \<Longrightarrow> counted D [] w w'"
  by (simp_all add: counted_def moved_def)

lemma turn_entry:
  assumes k: "w_kern w = (cnt, left)" "left d = s # ss" "d \<le> cnt"
    and p: "take (length p + 1) (fullpath w) = p @ ''/''" "int (length p) + 1 + NAME_MAX < pathlen w"
    and t: "lookup rt (comps (p @ ''/'')) = Some (Folder es)" "map_of es s = Some t" "good_name s"
      "walks rt t walk"
  shows "\<exists>w'. dir_turn (tree_fs rt) walk (int d) (length p + 1) 0 w = (Ok (Inl 0), w') \<and>
     counted {d} [t] w w' \<and> snd (w_kern w') d = ss \<and> d \<le> fst (w_kern w') \<and>
     take (length p + 1) (fullpath w') = p @ ''/''"
proof -
  obtain w1 where 1: "sys_r (tree_fs rt) ''readdir'' [AInt (int d)] w = (Ok (answer 1 [] s), w1)"
    "moved w (cnt, left(d := ss)) w1"
    using readdir_call [OF k(1,2)] by blast
  let ?w2 = "w1\<lparr>fullpath := p @ CHR ''/'' # s\<rparr>"
  have s: "s \<noteq> ''.''" "s \<noteq> ''..''" "int (length s) \<le> NAME_MAX" "s \<noteq> []" using t(3) by (simp_all add: good_name_def)
  have put: "put_path (length p + 1) s w1 = (Ok (), ?w2)"
    using put_path_run [of "length p + 1" s w1] 1(2) p s by (simp add: moved_def)
  have "lookup rt (comps (fullpath ?w2)) = Some t"
    using lookup_snoc [of rt "comps p" es s] t by (simp add: comps_name)
  moreover have "roomy ?w2" using p s 1(2) by (simp add: roomy_def moved_def NAME_MAX_def)
  ultimately obtain w3 where 3: "walk ?w2 = (Ok 0, w3)" "fullpath w3 = fullpath ?w2" "counted {} [t] ?w2 w3"
    using t(4) unfolding walks_def by blast
  have "counted {d} [] w ?w2" using counted_fullpath [OF counted_moved(1) [OF k(1) 1(2)]] .
  from counted_trans [OF this counted_mono [OF 3(3)]] have "counted {d} [t] w w3" by simp
  moreover have "snd (w_kern w3) d = ss" "d \<le> fst (w_kern w3)"
    using 3(3) 1(2) k unfolding counted_def moved_def by auto
  moreover have "dir_turn (tree_fs rt) walk (int d) (length p + 1) 0 w = (Ok (Inl 0), w3)"
    using 1(1) put 3(1) s by (simp add: dir_turn_def io_then_def io_bind_def)
  ultimately show ?thesis using 3(2) by auto
qed

lemma loop_run:
  assumes "length es < m" "int (length p) + 1 + NAME_MAX < pathlen w" "d \<le> fst (w_kern w)"
    "snd (w_kern w) d = map fst es" "take (length p + 1) (fullpath w) = p @ ''/''"
    "lookup rt (comps (p @ ''/'')) = Some (Folder all)"
    "\<forall>e \<in> set es. good_name (fst e) \<and> map_of all (fst e) = Some (snd e) \<and> walks rt (snd e) walk"
  shows "\<exists>w'. io_loop m (dir_turn (tree_fs rt) walk (int d) (length p + 1)) 0 w = (Ok 0, w') \<and>
     counted {d} (map snd es) w w' \<and> take (length p + 1) (fullpath w') = p @ ''/''"
  using assms(1-5, 7)
proof (induction m arbitrary: es w)
  case 0
  then show ?case by simp
next
  case (Suc m)
  obtain cnt left where k: "w_kern w = (cnt, left)" by fastforce
  show ?case
  proof (cases es)
    case Nil
    with Suc.prems k have "left d = []" by simp
    from turn_end [OF k this] obtain w1 where
      "dir_turn (tree_fs rt) walk (int d) (length p + 1) 0 w = (Ok (Inr 0), w1)" "moved w (cnt, left) w1" by blast
    with Nil Suc.prems counted_moved(2) [OF k, of w1 "{d}"] show ?thesis
      by (auto simp: io_bind_def moved_def)
  next
    case (Cons e es')
    from Suc.prems k Cons obtain w1 where 1:
      "dir_turn (tree_fs rt) walk (int d) (length p + 1) 0 w = (Ok (Inl 0), w1)"
      "counted {d} [snd e] w w1" "snd (w_kern w1) d = map fst es'" "d \<le> fst (w_kern w1)"
      "take (length p + 1) (fullpath w1) = p @ ''/''"
      using turn_entry [OF k, of d "fst e" "map fst es'" p rt all "snd e" walk] assms(6) by auto
    have "\<exists>w'. io_loop m (dir_turn (tree_fs rt) walk (int d) (length p + 1)) 0 w1 = (Ok 0, w') \<and>
        counted {d} (map snd es') w1 w' \<and> take (length p + 1) (fullpath w') = p @ ''/''"
      by (rule Suc.IH) (use Suc.prems 1 Cons in \<open>auto simp: counted_def\<close>)
    then obtain w2 where 2:
      "io_loop m (dir_turn (tree_fs rt) walk (int d) (length p + 1)) 0 w1 = (Ok 0, w2)"
      "counted {d} (map snd es') w1 w2" "take (length p + 1) (fullpath w2) = p @ ''/''" by blast
    with 1(1) counted_trans [OF 1(2) 2(2)] Cons show ?thesis by (simp add: io_bind_def)
  qed
qed

lemma growth_run:
  assumes "roomy w"
  shows "\<exists>w'. grow_path (tree_fs rt) (length (fullpath w)) w = (Ok (), w') \<and>
     moved (w\<lparr>pathlen := pathlen w'\<rparr>) (w_kern w) w' \<and> pathlen w \<le> pathlen w' \<and>
     int (length (fullpath w)) + 1 + NAME_MAX < pathlen w'"
proof (cases "int (length (fullpath w)) + NAME_MAX + 2 > pathlen w")
  case True
  obtain w1 where "sys (tree_fs rt) ''realloc'' [AInt (pathlen w * 2)] (w\<lparr>pathlen := pathlen w * 2\<rparr>) = (Ok 1, w1)"
    "moved (w\<lparr>pathlen := pathlen w * 2\<rparr>) (w_kern w) w1"
    using fs_call [OF fs_plain(2), of rt "[AInt (pathlen w * 2)]" "w\<lparr>pathlen := pathlen w * 2\<rparr>"] by auto
  with True assms show ?thesis
    by (intro exI [of _ w1]) (auto simp: grow_path_def io_then_def io_bind_def moved_def roomy_def)
qed (use assms in \<open>auto simp: grow_path_def moved_def\<close>)

lemma folder_open:
  assumes w: "roomy w" "lookup rt (comps (fullpath w)) = Some (Folder es)" "w_kern w = (cnt, left)"
  obtains w1 where
    "sys (tree_fs rt) ''opendir'' [AStr (fullpath w @ ''/'')] (w\<lparr>fullpath := fullpath w @ ''/''\<rparr>) =
      (Ok (int (Suc cnt)), w1)"
    "moved (w\<lparr>fullpath := fullpath w @ ''/''\<rparr>) (Suc cnt, left(Suc cnt := ''.'' # ''..'' # map fst es)) w1"
proof -
  let ?w = "w\<lparr>fullpath := fullpath w @ ''/''\<rparr>"
  have "tree_fs rt (''opendir'', [AStr (fullpath ?w)]) (w_kern ?w) =
      (answer (int (Suc cnt)) [] [], (Suc cnt, left(Suc cnt := ''.'' # ''..'' # map fst es)))"
    using fs_opendir [of rt "fullpath ?w" es cnt left] w by (simp add: add.commute)
  from fs_call [OF this] obtain w1 where
    "sys (tree_fs rt) ''opendir'' [AStr (fullpath ?w)] ?w = (Ok (int (Suc cnt)), w1)"
    "moved ?w (Suc cnt, left(Suc cnt := ''.'' # ''..'' # map fst es)) w1" by auto
  with that show thesis by simp
qed

lemma loop_dots:
  assumes "length es + 2 < m" "int (length p) + 1 + NAME_MAX < pathlen w" "d \<le> fst (w_kern w)"
    "snd (w_kern w) d = ''.'' # ''..'' # map fst es" "take (length p + 1) (fullpath w) = p @ ''/''"
    "lookup rt (comps (p @ ''/'')) = Some (Folder all)"
    "\<forall>e \<in> set es. good_name (fst e) \<and> map_of all (fst e) = Some (snd e) \<and> walks rt (snd e) walk"
  shows "\<exists>w'. io_loop m (dir_turn (tree_fs rt) walk (int d) (length p + 1)) 0 w = (Ok 0, w') \<and>
     counted {d} (map snd es) w w' \<and> take (length p + 1) (fullpath w') = p @ ''/''"
proof -
  obtain m' where m: "m = Suc (Suc m')" "length es < m'" using assms(1) by (metis Suc_less_eq2 add_2_eq_Suc')
  obtain cnt left where k: "w_kern w = (cnt, left)" by fastforce
  have l: "left d = ''.'' # ''..'' # map fst es" using assms(4) k by simp
  obtain w1 where 1: "dir_turn (tree_fs rt) walk (int d) (length p + 1) 0 w = (Ok (Inl 0), w1)"
    "moved w (cnt, left(d := ''..'' # map fst es)) w1"
    using turn_dot [where left = left, OF k l] by blast
  have k1: "w_kern w1 = (cnt, left(d := ''..'' # map fst es))" using 1(2) by (simp add: moved_def)
  have l1: "(left(d := ''..'' # map fst es)) d = ''..'' # map fst es" by simp
  obtain w2 where 2: "dir_turn (tree_fs rt) walk (int d) (length p + 1) 0 w1 = (Ok (Inl 0), w2)"
    "moved w1 (cnt, (left(d := ''..'' # map fst es))(d := map fst es)) w2"
    using turn_dot [where left = "left(d := ''..'' # map fst es)", OF k1 l1] by blast
  have "counted {d} ([] @ []) w w2"
    by (rule counted_trans [OF counted_moved(1) [OF k 1(2)] counted_moved(1) [OF k1 2(2)]])
  then have c: "counted {d} [] w w2" by simp
  have "\<exists>w'. io_loop m' (dir_turn (tree_fs rt) walk (int d) (length p + 1)) 0 w2 = (Ok 0, w') \<and>
     counted {d} (map snd es) w2 w' \<and> take (length p + 1) (fullpath w') = p @ ''/''"
    by (rule loop_run) (use assms m 1(2) 2(2) k in \<open>auto simp: moved_def\<close>)
  with 1(1) 2(1) m(1) counted_trans [OF c] show ?thesis by (fastforce simp: io_bind_def)
qed

lemma leaf_walk:
  assumes "roomy w" "lookup rt (comps (fullpath w)) = Some (Leaf k)" "k \<noteq> Dir"
  shows "\<exists>w'. dopath (tree_fs rt) (Suc fuel) w = (Ok 0, w') \<and> fullpath w' = fullpath w \<and> counted {} [Leaf k] w w'"
proof -
  obtain w1 where 1: "sys_r (tree_fs rt) ''lstat'' [AStr (fullpath w)] w = (Ok (answer 0 [mode_of (Leaf k)] []), w1)"
    "moved w (w_kern w) w1"
    using fs_call_r [OF fs_lstat [OF assms(2)]] by blast
  with mode_of_leaf [OF assms(3)] show ?thesis
    by (auto simp: io_bind_def moved_def counted_def myfunc_leaf [OF assms(3)])
qed

lemma folder_walk:
  assumes w: "roomy w" "lookup rt (comps (fullpath w)) = Some (Folder es)" and fuel: "length es + 2 < fuel"
    and es: "\<forall>e \<in> set es. good_name (fst e) \<and> map_of es (fst e) = Some (snd e) \<and>
      walks rt (snd e) (dopath (tree_fs rt) fuel)"
  shows "\<exists>w'. dopath (tree_fs rt) (Suc fuel) w = (Ok 0, w') \<and> fullpath w' = fullpath w \<and> counted {} [Folder es] w w'"
proof -
  let ?p = "fullpath w" and ?K = "tree_fs rt"
  obtain cnt left where k: "w_kern w = (cnt, left)" by fastforce
  obtain w1 where 1: "sys_r ?K ''lstat'' [AStr ?p] w = (Ok (answer 0 [S_IFDIR] []), w1)" "moved w (w_kern w) w1"
    using fs_call_r [OF fs_lstat [OF w(2)]] by (auto simp: mode_of_folder)
  let ?w2 = "w1\<lparr>tally := (tally w1)(Dir := tally w1 Dir + 1)\<rparr>"
  have p2: "fullpath ?w2 = ?p" "roomy ?w2" using 1(2) w(1) by (simp_all add: moved_def roomy_def)
  obtain w3 where 3: "grow_path ?K (length ?p) ?w2 = (Ok (), w3)"
     "moved (?w2\<lparr>pathlen := pathlen w3\<rparr>) (w_kern ?w2) w3" "pathlen ?w2 \<le> pathlen w3"
     "int (length ?p) + 1 + NAME_MAX < pathlen w3"
    using growth_run [OF p2(2)] unfolding p2(1) by blast
  have k3: "w_kern w3 = (cnt, left)" "fullpath w3 = ?p" "roomy w3"
    using 1(2) 3(2-4) k w(1) by (simp_all add: moved_def roomy_def NAME_MAX_def)
  have put: "put_path (length ?p) ''/'' w3 = (Ok (), w3\<lparr>fullpath := fullpath w3 @ ''/''\<rparr>)"
    using put_path_run [of "length ?p" "''/''" w3] 3(4) k3(2) by (simp add: NAME_MAX_def)
  have l3: "lookup rt (comps (fullpath w3)) = Some (Folder es)" using w(2) k3(2) by simp
  obtain w4 where 4:
    "sys ?K ''opendir'' [AStr (fullpath w3 @ ''/'')] (w3\<lparr>fullpath := fullpath w3 @ ''/''\<rparr>) = (Ok (int (Suc cnt)), w4)"
    "moved (w3\<lparr>fullpath := fullpath w3 @ ''/''\<rparr>) (Suc cnt, left(Suc cnt := ''.'' # ''..'' # map fst es)) w4"
    by (rule folder_open [OF k3(3) l3 k3(1)])
  have "\<exists>w'. io_loop fuel (dir_turn ?K (dopath ?K fuel) (int (Suc cnt)) (length ?p + 1)) 0 w4 = (Ok 0, w') \<and>
     counted {Suc cnt} (map snd es) w4 w' \<and> take (length ?p + 1) (fullpath w') = ?p @ ''/''"
    by (rule loop_dots [OF fuel _ _ _ _ _ es]) (use 4(2) 3(4) k3 w(2) in \<open>simp_all add: moved_def\<close>)
  then obtain w5 where 5: "io_loop fuel (dir_turn ?K (dopath ?K fuel) (int (Suc cnt)) (length ?p + 1)) 0 w4 = (Ok 0, w5)"
    "counted {Suc cnt} (map snd es) w4 w5" "take (length ?p + 1) (fullpath w5) = ?p @ ''/''" by blast
  have "int (length ?p) < pathlen w5" using 5(2) 4(2) 3(4) by (simp add: counted_def moved_def NAME_MAX_def)
  then have cut: "put_path (length ?p) [] w5 = (Ok (), w5\<lparr>fullpath := ?p\<rparr>)"
    using put_path_run [of "length ?p" "[]" w5] arg_cong [where f = "take (length ?p)", OF 5(3)] by simp
  obtain w6 where 6: "sys ?K ''closedir'' [AInt (int (Suc cnt))] (w5\<lparr>fullpath := ?p\<rparr>) = (Ok 1, w6)"
    "moved (w5\<lparr>fullpath := ?p\<rparr>) (w_kern w5) w6"
    using fs_call [OF fs_plain(1), of rt "[AInt (int (Suc cnt))]" "w5\<lparr>fullpath := ?p\<rparr>"] by auto
  have "dopath ?K (Suc fuel) w = (Ok 0, w6)"
    using 1(1) 3(1) put 4(1) 5(1) cut 6(1)
    by (simp add: Let_def k3(2) dir_mode myfunc_dir io_then_def io_bind_def)
  moreover have "fullpath w6 = ?p" using 6(2) by (simp add: moved_def)
  moreover have "counted {} [Folder es] w w6"
  proof -
    have "snd (w_kern w5) d = left d" if "d \<le> cnt" for d
    proof -
      have "d \<le> fst (w_kern w4)" "d \<notin> {Suc cnt}" "snd (w_kern w4) d = left d"
        using that 4(2) by (auto simp: moved_def)
      then show ?thesis using 5(2) unfolding counted_def by metis
    qed
    with 1(2) 3(2,3) 4(2) 5(2) 6(2) k show ?thesis
      by (simp add: counted_def moved_def fun_eq_iff o_def)
  qed
  ultimately show ?thesis by blast
qed

lemma fuel_of_pos: "0 < fuel_of t"
  by (cases t) simp_all

lemma fuel_of_entry: "e \<in> set es \<Longrightarrow> fuel_of (snd e) \<le> sum_list (map (\<lambda>e. fuel_of (snd e)) es)"
  by (induction es) auto

lemma dopath_walks: "good_tree t \<Longrightarrow> fuel_of t \<le> fuel \<Longrightarrow> walks rt t (dopath (tree_fs rt) fuel)"
proof (induction fuel arbitrary: t)
  case 0
  then show ?case using fuel_of_pos [of t] by simp
next
  case (Suc fuel)
  show ?case
  proof (cases t)
    case (Leaf k)
    with Suc.prems leaf_walk show ?thesis unfolding walks_def by auto
  next
    case (Folder es)
    have "good_name (fst e) \<and> map_of es (fst e) = Some (snd e) \<and> walks rt (snd e) (dopath (tree_fs rt) fuel)"
      if "e \<in> set es" for e
      using that Suc Folder fuel_of_entry [OF that] by auto
    moreover have "length es + 2 < fuel" using Suc.prems Folder by simp
    ultimately show ?thesis using folder_walk [of _ rt es fuel] Folder unfolding walks_def by simp
  qed
qed

text \<open>
  Claim C7. On a file system that answers from a finite tree of well formed names, the walk that
  starts at a file of the tree, with fuel for the tree under it, returns 0; it adds to every counter
  the number of files of that kind under the start, each counted once; it leaves the path as it was,
  having never written outside its buffer; and it leaves every directory opened before where it was.
\<close>

theorem walk_counts_tree:
  assumes "good_tree t" "lookup rt (comps (fullpath w)) = Some t" "fuel_of t \<le> fuel"
    "int (length (fullpath w)) < pathlen w" "NAME_MAX + 2 \<le> pathlen w"
  shows "\<exists>w'. dopath (tree_fs rt) fuel w = (Ok 0, w') \<and> fullpath w' = fullpath w \<and>
     int (length (fullpath w')) < pathlen w' \<and> tally w' = (\<lambda>j. tally w j + tally_of t j) \<and>
     (\<forall>d. fst (w_kern w) < d \<or> snd (w_kern w') d = snd (w_kern w) d)"
proof -
  have "roomy w" using assms(4,5) by (simp add: roomy_def)
  with dopath_walks [OF assms(1,3), of rt] assms(2) obtain w' where
    w': "dopath (tree_fs rt) fuel w = (Ok 0, w')" "fullpath w' = fullpath w" "counted {} [t] w w'"
    unfolding walks_def by blast
  moreover have "fst (w_kern w) < d \<or> snd (w_kern w') d = snd (w_kern w) d" for d
    using w'(3) unfolding counted_def by (metis empty_iff not_le)
  ultimately show ?thesis using assms(4) by (auto simp: counted_def)
qed

text \<open>A directory with a file, a pipe, and a directory that holds two files.\<close>

definition small_tree :: node where
  "small_tree =
     Folder [(''a'', Leaf Reg), (''p'', Leaf Fifo), (''d'', Folder [(''b'', Leaf Reg), (''c'', Leaf Slink)])]"

definition at_root :: "fs ftw" where
  "at_root =
     \<lparr>w_kern = (0, \<lambda>_. []), w_errno = 0, w_trace = [], lm_openmax = 0, lm_posix_version = 0, lm_xsi_version = 0, lm_pathmax = 0,
      tally = \<lambda>_. 0, fullpath = ''/'', pathlen = 4097\<rparr>"

lemma walk_counts_tree_witness:
  "\<exists>w'. dopath (tree_fs small_tree) 20 at_root = (Ok 0, w') \<and> tally w' Reg = 2 \<and> tally w' Dir = 2 \<and>
     tally w' Fifo = 1 \<and> tally w' Slink = 1"
proof -
  have "good_tree small_tree" "fuel_of small_tree \<le> 20"
    by (simp_all add: small_tree_def good_name_def NAME_MAX_def)
  from walk_counts_tree [OF this(1) _ this(2), of small_tree at_root] show ?thesis
    by (auto simp: at_root_def comps_def NAME_MAX_def small_tree_def)
qed

end
