(* ===== verification/System.thy ===== *)
theory System
  imports Signals FdIO
begin

text \<open>
  The programs that run a command and wait for it: \<open>system\<close> with signals (ch10_system2.c) and without
  (ch08_system.c), a program that catches signals meanwhile (ch10_system.c), \<open>abort\<close> (ch10_abort.c),
  wait statuses (ch08_wait.c) and nice values (ch08_nice.c). An action of a signal is the list of
  numbers in its \<open>struct sigaction\<close>, the handler first.

  The properties: \<open>system\<close> puts back the actions and the mask it found, in the parent and, before the
  shell starts, in the child; whatever the handler, \<open>abort\<close> never returns.
\<close>

section \<open>ch10_system2.c\<close>

definition SIG_DFL :: int where "SIG_DFL = 0"
definition SIG_IGN :: int where "SIG_IGN = 1"
definition SIGABRT :: int where "SIGABRT = 6"
definition SIGCHLD :: int where "SIGCHLD = 17"

definition sigaction :: "'k kernel \<Rightarrow> int \<Rightarrow> int list \<Rightarrow> (('k, 'z) world_scheme, reply) io" where
  "sigaction K signo act = sys_r K ''sigaction'' (AInt signo # map AInt act)"

text \<open>\<open>while (waitpid(pid, &status, 0) < 0)\<close>, with -1 for a status that could not be had.\<close>

definition waitpid_turn :: "'k kernel \<Rightarrow> int \<Rightarrow> unit \<Rightarrow> (('k, 'z) world_scheme, unit + int) io" where
  "waitpid_turn K pid _ =
     io_bind (sys_r K ''waitpid'' [AInt pid, AInt 0]) (\<lambda>r.
     if r_ret r < 0 then
       io_bind get_errno (\<lambda>e. io_return (if e \<noteq> EINTR then Inr (- 1) else Inl ()))
     else io_return (Inr (int_at r 0)))"

definition exec_shell :: "'k kernel \<Rightarrow> string \<Rightarrow> (('k, 'z) world_scheme, 'a) io" where
  "exec_shell K cmdstring =
     io_then (exec K ''execl'' [AStr ''/bin/sh'', AStr ''sh'', AStr ''-c'', AStr cmdstring]) (io_exit 127)"

definition run_command ::
  "'k kernel \<Rightarrow> nat \<Rightarrow> string \<Rightarrow> int list \<Rightarrow> int list \<Rightarrow> int list \<Rightarrow> (('k, 'z) world_scheme, int) io" where
  "run_command K fuel cmdstring saveintr savequit savemask =
     io_bind (sys K ''fork'' []) (\<lambda>pid.
     if pid < 0 then io_return (- 1)
     else if pid = 0 then
       io_bind (sigaction K SIGINT saveintr) (\<lambda>_.
       io_bind (sigaction K SIGQUIT savequit) (\<lambda>_.
       io_bind (sigprocmask K SIG_SETMASK savemask) (\<lambda>_.
       exec_shell K cmdstring)))
     else io_loop fuel (waitpid_turn K pid) ())"

definition restore_signals ::
  "'k kernel \<Rightarrow> int list \<Rightarrow> int list \<Rightarrow> int list \<Rightarrow> int \<Rightarrow> (('k, 'z) world_scheme, int) io" where
  "restore_signals K saveintr savequit savemask status =
     io_bind (sigaction K SIGINT saveintr) (\<lambda>r.
     if r_ret r < 0 then io_return (- 1)
     else
       io_bind (sigaction K SIGQUIT savequit) (\<lambda>r.
       if r_ret r < 0 then io_return (- 1)
       else
         io_bind (sigprocmask K SIG_SETMASK savemask) (\<lambda>(r, _).
         io_return (if r < 0 then - 1 else status))))"

definition system :: "'k kernel \<Rightarrow> nat \<Rightarrow> string option \<Rightarrow> (('k, 'z) world_scheme, int) io" where
  "system K fuel cmdstring =
     (case cmdstring of
        None \<Rightarrow> io_return 1
      | Some cmdstring \<Rightarrow>
          io_bind (sigaction K SIGINT [SIG_IGN, 0]) (\<lambda>saveintr.
          if r_ret saveintr < 0 then io_return (- 1)
          else
            io_bind (sigaction K SIGQUIT [SIG_IGN, 0]) (\<lambda>savequit.
            if r_ret savequit < 0 then io_return (- 1)
            else
              io_bind (sigprocmask K SIG_BLOCK [SIGCHLD]) (\<lambda>(r, savemask).
              if r < 0 then io_return (- 1)
              else
                io_bind (run_command K fuel cmdstring (r_ints saveintr) (r_ints savequit) savemask) (\<lambda>status.
                restore_signals K (r_ints saveintr) (r_ints savequit) savemask status)))))"

definition system2_main :: "'k kernel \<Rightarrow> nat \<Rightarrow> (('k, 'z) world_scheme, unit) io" where
  "system2_main K fuel = io_bind (system K fuel (Some ''ls'')) (\<lambda>_. io_return ())"

section \<open>ch08_system.c, ch10_system.c\<close>

definition system2 :: "'k kernel \<Rightarrow> nat \<Rightarrow> string option \<Rightarrow> (('k, 'z) world_scheme, int) io" where
  "system2 K fuel cmdtring =
     (case cmdtring of
        None \<Rightarrow> io_return 1
      | Some cmdtring \<Rightarrow>
          io_bind (sys K ''fork'' []) (\<lambda>pid.
          if pid < 0 then io_return (- 1)
          else if pid = 0 then exec_shell K cmdtring
          else io_loop fuel (waitpid_turn K pid) ()))"

text \<open>The first three commands go to the C library's \<open>system\<close>.\<close>

definition report :: "'k kernel \<Rightarrow> (('k, 'z) world_scheme, int) io \<Rightarrow> (('k, 'z) world_scheme, unit) io" where
  "report K command =
     io_bind command (\<lambda>status.
     if status < 0 then err_sys K ''system() error'' [] else pr_exit K status)"

definition ch08_system_main :: "'k kernel \<Rightarrow> nat \<Rightarrow> (('k, 'z) world_scheme, unit) io" where
  "ch08_system_main K fuel =
     io_seq
       [report K (sys K ''system'' [AStr ''date'']), report K (sys K ''system'' [AStr ''nocmdexist'']),
        report K (sys K ''system'' [AStr ''who; exit 44'']), report K (system2 K fuel (Some ''ls'')),
        io_exit 0]"

definition catch_both :: "'k kernel \<Rightarrow> int \<Rightarrow> (('k, 'z) world_scheme, unit) io" where
  "catch_both K signo =
     (if signo = SIGINT then printf K ''caught SIGINT'' []
      else if signo = SIGCHLD then printf K ''caught SIGCHLD'' []
      else io_return ())"

definition ch10_system_main :: "'k kernel \<Rightarrow> (('k, 'z) world_scheme, unit) io" where
  "ch10_system_main K =
     io_bind (signal K SIGINT (APtr ''sig_int'')) (\<lambda>r.
     if r = SIG_ERR then err_sys K ''signal(SIGINT) error'' []
     else
       io_bind (signal K SIGCHLD (APtr ''sig_chld'')) (\<lambda>r.
       if r = SIG_ERR then err_sys K ''signal(SIGCHLD) error'' []
       else
         io_bind (catching K (catch_both K) ''system'' [AStr ''/bin/ed'']) (\<lambda>r.
         if r < 0 then err_sys K ''system() error'' [] else io_exit 0)))"

section \<open>ch10_abort.c\<close>

text \<open>
  A signal to oneself: the default action of \<open>SIGABRT\<close> ends the process; otherwise the handler of
  the process runs, which is a parameter and may itself leave.
\<close>

definition kill_self ::
  "'k kernel \<Rightarrow> int \<Rightarrow> int \<Rightarrow> (int \<Rightarrow> (('k, 'z) world_scheme, unit) io) \<Rightarrow> (('k, 'z) world_scheme, unit) io" where
  "kill_self K signo action handler =
     io_bind (sys K ''getpid'' []) (\<lambda>pid.
     io_then (do_call K ''kill'' [AInt pid, AInt signo])
     (if action = SIG_DFL then io_kill signo else handler signo))"

definition ch10_abort ::
  "'k kernel \<Rightarrow> (int \<Rightarrow> (('k, 'z) world_scheme, unit) io) \<Rightarrow> (('k, 'z) world_scheme, unit) io" where
  "ch10_abort K handler =
     io_bind (sys_r K ''sigaction'' [AInt SIGABRT]) (\<lambda>old.
     let h = int_at old 0 in
     io_bind
       (if h = SIG_IGN then
          io_bind (sigaction K SIGABRT (SIG_DFL # tl (r_ints old))) (\<lambda>_. io_return SIG_DFL)
        else io_return h) (\<lambda>h.
     io_then (io_when (h = SIG_DFL) (do_call K ''fflush'' [ANull]))
     (io_then (do_call K ''sigprocmask'' [AInt SIG_SETMASK, AStr ''all but SIGABRT''])
     (io_then (kill_self K SIGABRT h handler)
     (io_then (do_call K ''fflush'' [ANull])
     (io_bind (sigaction K SIGABRT (SIG_DFL # tl (r_ints old))) (\<lambda>_.
      io_then (do_call K ''sigprocmask'' [AInt SIG_SETMASK, AStr ''all but SIGABRT''])
      (io_then (kill_self K SIGABRT SIG_DFL handler) (io_exit 1)))))))))"

definition abort_main ::
  "'k kernel \<Rightarrow> (int \<Rightarrow> (('k, 'z) world_scheme, unit) io) \<Rightarrow> (('k, 'z) world_scheme, unit) io" where
  "abort_main K handler = io_then (printf K ''hello'' []) (ch10_abort K handler)"

section \<open>ch08_wait.c\<close>

definition wait_pr_exit :: "'k kernel \<Rightarrow> int \<Rightarrow> (('k, 'z) world_scheme, unit) io" where
  "wait_pr_exit K status =
     (if WIFEXITED status then printf K ''normal termination,exit status = %d'' [AInt (WEXITSTATUS status)]
      else if WIFSIGNALED status then
        printf K ''abnormal termination, signal number = %d%s''
          [AInt (WTERMSIG status), AStr (if WCOREDUMP status then ''(core file generated)'' else '''')]
      else if WIFSTOPPED status then printf K ''child stopped, signal number = %d'' [AInt (WEXITSTATUS status)]
      else io_return ())"

definition fork_and_wait :: "'k kernel \<Rightarrow> (('k, 'z) world_scheme, unit) io \<Rightarrow> (('k, 'z) world_scheme, unit) io" where
  "fork_and_wait K child =
     io_bind (sys K ''fork'' []) (\<lambda>pid.
     if pid < 0 then err_sys K ''fork error'' []
     else
       io_then (if pid = 0 then child else io_return ())
       (io_bind (sys_r K ''wait'' []) (\<lambda>r.
        if r_ret r \<noteq> pid then err_sys K ''wait error'' [] else wait_pr_exit K (int_at r 0))))"

text \<open>The third child divides by zero.\<close>

definition wait_main :: "'k kernel \<Rightarrow> (('k, 'z) world_scheme, unit) io" where
  "wait_main K =
     io_seq
       [fork_and_wait K (io_exit 7), fork_and_wait K (abort K), fork_and_wait K (io_fault DivByZero),
        io_exit 0]"

section \<open>ch08_nice.c\<close>

record 'k nicew = "'k world" +
  nice_count :: "64 word"
  end_sec :: int
  end_usec :: int

definition checktime :: "'k kernel \<Rightarrow> string \<Rightarrow> ('k nicew, unit) io" where
  "checktime K str =
     io_bind (sys_r K ''gettimeofday'' []) (\<lambda>tv.
     io_bind (io_get (\<lambda>w. (end_sec w, end_usec w, nice_count w))) (\<lambda>(es, eu, c).
     if int_at tv 0 \<ge> es \<and> int_at tv 1 \<ge> eu then
       io_then (printf K ''%s count %lld'' [AStr str, AInt (sint c)]) (io_exit 0)
     else io_return ()))"

definition nice_turn :: "'k kernel \<Rightarrow> string \<Rightarrow> unit \<Rightarrow> ('k nicew, unit + unit) io" where
  "nice_turn K s _ =
     io_then (io_mod (\<lambda>w. w\<lparr>nice_count := nice_count w + 1\<rparr>))
     (io_bind (io_get nice_count) (\<lambda>c.
      io_then (if c = 0 then err_quit K ''%s counter wrap'' [AStr s] else io_return ())
      (io_then (checktime K s) (io_return (Inl ())))))"

definition nice_child :: "'k kernel \<Rightarrow> int \<Rightarrow> int \<Rightarrow> ('k nicew, string) io" where
  "nice_child K nzero adj =
     io_bind (sys K ''nice'' [AInt 0]) (\<lambda>n.
     io_then (printf K ''current nice value in child is %d, adjusting by %d'' [AInt (n + nzero), AInt adj])
     (io_then (set_errno 0)
     (io_bind (sys K ''nice'' [AInt adj]) (\<lambda>ret.
      io_bind get_errno (\<lambda>e.
      io_then (if ret = - 1 \<and> e \<noteq> 0 then err_sys K ''child set scheduling priority'' [] else io_return ())
      (io_then (printf K ''now child nice value is %d'' [AInt (ret + nzero)]) (io_return ''child'')))))))"

text \<open>\<open>strtol\<close> is a call: its reply is the number its argument starts with.\<close>

definition nice_main :: "'k kernel \<Rightarrow> nat \<Rightarrow> string list \<Rightarrow> ('k nicew, unit) io" where
  "nice_main K fuel argv =
     io_then (do_call K ''setbuf'' [AStr ''stdout'', ANull])
     (io_bind (sys K ''sysconf'' [AStr ''_SC_NZERO'']) (\<lambda>nzero.
      io_then (printf K ''NZEOR = %d'' [AInt nzero])
      (io_bind (if length argv = 2 then sys K ''strtol'' [AStr (argv ! 1)] else io_return 0) (\<lambda>adj.
       io_bind (sys_r K ''gettimeofday'' []) (\<lambda>tv.
       io_then (io_mod (\<lambda>w. w\<lparr>end_sec := int_at tv 0 + 10, end_usec := int_at tv 1\<rparr>))
       (io_bind (sys K ''fork'' []) (\<lambda>pid.
        io_bind
          (if pid < 0 then err_sys K ''fork failed'' []
           else if pid = 0 then nice_child K nzero adj
           else
             io_bind (sys K ''nice'' [AInt 0]) (\<lambda>n.
             io_then (printf K ''current nice value in parent is %d'' [AInt (n + nzero)]) (io_return ''parent''))) (\<lambda>s.
        io_loop fuel (nice_turn K s) ()))))))))"
section \<open>A kernel with signals\<close>

text \<open>
  Its state has the action of every signal (the handler and the rest of the structure) and the mask;
  \<open>sigaction\<close> and \<open>sigprocmask\<close> work on them as POSIX has it, every other call is left to \<open>K0\<close>.
\<close>

type_synonym 'k sigs = "(int \<Rightarrow> int \<times> int list) \<times> int list \<times> 'k"

fun number :: "arg \<Rightarrow> int" where
  "number (AInt i) = i"
| "number _ = 0"

definition listing :: "int list \<Rightarrow> reply" where
  "listing ns = \<lparr>r_ret = 0, r_err = None, r_ints = ns, r_bytes = [], r_str = []\<rparr>"

definition sig_kernel :: "'k kernel \<Rightarrow> 'k sigs kernel" where
  "sig_kernel K0 c k =
     (case (c, k) of ((nm, args), (d, m, k)) \<Rightarrow>
        if nm = ''sigaction'' then
          (case map number args of
             s # h # rest \<Rightarrow> (listing (fst (d s) # snd (d s)), (d(s := (h, rest)), m, k))
           | [s] \<Rightarrow> (listing (fst (d s) # snd (d s)), (d, m, k))
           | [] \<Rightarrow> (failed_with EINVAL, (d, m, k)))
        else if nm = ''sigprocmask'' then
          (case map number args of
             how # sigs \<Rightarrow>
               (listing m,
                (d, (if how = SIG_BLOCK then m @ sigs else if how = SIG_SETMASK then sigs
                     else filter (\<lambda>s. s \<notin> set sigs) m), k))
           | [] \<Rightarrow> (failed_with EINVAL, (d, m, k)))
        else (let (r, k') = K0 (nm, args) k in (r, (d, m, k'))))"

definition sigs_of :: "('k sigs, 'z) world_scheme \<Rightarrow> (int \<Rightarrow> int \<times> int list) \<times> int list" where
  "sigs_of w = (fst (w_kern w), fst (snd (w_kern w)))"

lemma sigaction_run:
  "sigs_of w = (d, m) \<Longrightarrow>
   \<exists>w'. sigaction (sig_kernel K0) s (h # rest) w = (Ok (listing (fst (d s) # snd (d s))), w') \<and>
     sigs_of w' = (d(s := (h, rest)), m)"
  by (auto simp: sigaction_def sys_r_run sig_kernel_def split_beta sigs_of_def o_def)

lemma block_run:
  "sigs_of w = (d, m) \<Longrightarrow>
   \<exists>w'. sigprocmask (sig_kernel K0) SIG_BLOCK sigs w = (Ok (0, m), w') \<and> sigs_of w' = (d, m @ sigs)"
  by (auto simp: sigprocmask_def io_bind_def sys_r_run sig_kernel_def split_beta sigs_of_def o_def listing_def)

lemma setmask_run:
  "sigs_of w = (d, m) \<Longrightarrow>
   \<exists>w'. sigprocmask (sig_kernel K0) SIG_SETMASK sigs w = (Ok (0, m), w') \<and> sigs_of w' = (d, sigs)"
  by (auto simp: sigprocmask_def io_bind_def sys_r_run sig_kernel_def split_beta sigs_of_def o_def listing_def
      SIG_SETMASK_def SIG_BLOCK_def)

lemma other_run:
  "nm \<noteq> ''sigaction'' \<Longrightarrow> nm \<noteq> ''sigprocmask'' \<Longrightarrow>
   \<exists>r w'. sys_r (sig_kernel K0) nm args w = (Ok r, w') \<and> sigs_of w' = sigs_of w"
  by (auto simp: sys_r_run sig_kernel_def split_beta sigs_of_def)

lemma listing_sel [simp]: "r_ret (listing ns) = 0" "r_ints (listing ns) = ns"
  by (simp_all add: listing_def)

lemma wait_loop_sigs:
  "\<exists>res w'. io_loop n (waitpid_turn (sig_kernel K0) pid) () w = (res, w') \<and> sigs_of w' = sigs_of w \<and>
     (case res of Ok _ \<Rightarrow> True | Faulted e \<Rightarrow> e = Diverged | _ \<Rightarrow> False)"
proof (induction n arbitrary: w)
  case 0
  then show ?case by simp
next
  case (Suc n)
  obtain r w1 where 1: "sys_r (sig_kernel K0) ''waitpid'' [AInt pid, AInt 0] w = (Ok r, w1)" "sigs_of w1 = sigs_of w"
    using other_run [of "''waitpid''" K0 "[AInt pid, AInt 0]" w] by auto
  show ?case
    using 1 Suc.IH [of w1] by (auto simp: io_bind_def waitpid_turn_def get_errno_def)
qed

lemma run_command_sigs:
  assumes "sigs_of w = (d, m)"
  shows "\<exists>res w'. run_command (sig_kernel K0) fuel cmd (h1 # r1) (h2 # r2) savemask w = (res, w') \<and>
     (case res of
        Ok _ \<Rightarrow> sigs_of w' = (d, m)
      | Faulted e \<Rightarrow> e = Diverged \<and> sigs_of w' = (d, m)
      | Exited n \<Rightarrow> n = 127 \<and> sigs_of w' = (d(SIGINT := (h1, r1), SIGQUIT := (h2, r2)), savemask)
      | Replaced \<Rightarrow> sigs_of w' = (d(SIGINT := (h1, r1), SIGQUIT := (h2, r2)), savemask)
      | Killed _ \<Rightarrow> False)"
proof -
  let ?K = "sig_kernel K0"
  obtain r w1 where 1: "sys_r ?K ''fork'' [] w = (Ok r, w1)" "sigs_of w1 = (d, m)"
    using other_run [of "''fork''" K0 "[]" w] assms(1) by auto
  obtain w2 where 2: "sigaction ?K SIGINT (h1 # r1) w1 = (Ok (listing (fst (d SIGINT) # snd (d SIGINT))), w2)"
    "sigs_of w2 = (d(SIGINT := (h1, r1)), m)"
    using sigaction_run [OF 1(2)] by blast
  obtain a w3 where 3: "sigaction ?K SIGQUIT (h2 # r2) w2 = (Ok a, w3)"
    "sigs_of w3 = (d(SIGINT := (h1, r1), SIGQUIT := (h2, r2)), m)"
    using sigaction_run [OF 2(2)] by blast
  obtain b w4 where 4: "sigprocmask ?K SIG_SETMASK savemask w3 = (Ok b, w4)"
    "sigs_of w4 = (d(SIGINT := (h1, r1), SIGQUIT := (h2, r2)), savemask)"
    using setmask_run [OF 3(2)] by blast
  obtain x w5 where 5: "sys_r ?K ''execl'' [AStr ''/bin/sh'', AStr ''sh'', AStr ''-c'', AStr cmd] w4 = (Ok x, w5)"
    "sigs_of w5 = sigs_of w4"
    using other_run [of "''execl''" K0 "[AStr ''/bin/sh'', AStr ''sh'', AStr ''-c'', AStr cmd]" w4] by auto
  consider "r_ret r < 0" | "r_ret r = 0" | "r_ret r > 0" by linarith
  then show ?thesis
  proof cases
    case 3
    obtain res w' where l: "io_loop fuel (waitpid_turn ?K (r_ret r)) () w1 = (res, w')" "sigs_of w' = (d, m)"
      "case res of Ok _ \<Rightarrow> True | Faulted e \<Rightarrow> e = Diverged | _ \<Rightarrow> False"
      using wait_loop_sigs [of fuel K0 "r_ret r" w1] 1 by auto
    then have "run_command ?K fuel cmd (h1 # r1) (h2 # r2) savemask w = (res, w')"
      using 1 3 by (simp add: run_command_def sys_def io_bind_def)
    with l(2,3) show ?thesis by (cases res) auto
  qed (use 1 2 3 4 5 in \<open>simp_all add: run_command_def sys_def io_bind_def exec_shell_def exec_def io_then_def\<close>)
qed

lemma put_back:
  assumes "sigs_of w = (d, m)"
  shows "\<exists>w'. restore_signals (sig_kernel K0) (h1 # r1) (h2 # r2) savemask status w = (Ok status, w') \<and>
    sigs_of w' = (d(SIGINT := (h1, r1), SIGQUIT := (h2, r2)), savemask)"
proof -
  let ?K = "sig_kernel K0"
  obtain a w1 where 1: "sigaction ?K SIGINT (h1 # r1) w = (Ok (listing a), w1)" "sigs_of w1 = (d(SIGINT := (h1, r1)), m)"
    using sigaction_run [OF assms] by blast
  obtain b w2 where 2: "sigaction ?K SIGQUIT (h2 # r2) w1 = (Ok (listing b), w2)"
    "sigs_of w2 = (d(SIGINT := (h1, r1), SIGQUIT := (h2, r2)), m)"
    using sigaction_run [OF 1(2)] by blast
  obtain c w3 where 3: "sigprocmask ?K SIG_SETMASK savemask w2 = (Ok (0, c), w3)"
    "sigs_of w3 = (d(SIGINT := (h1, r1), SIGQUIT := (h2, r2)), savemask)"
    using setmask_run [OF 2(2)] by blast
  from 1 2 3 show ?thesis by (simp add: restore_signals_def io_bind_def)
qed

section \<open>The properties\<close>

text \<open>
  Claim C11. On a kernel with the signal actions and masks of POSIX, whatever its answers to \<open>fork\<close>,
  \<open>waitpid\<close> and \<open>execl\<close>: when \<open>system\<close> returns, and when its child starts the shell or fails to,
  the actions of all signals and the mask are those of the call. While it waits, and only then, it
  ignores \<open>SIGINT\<close> and \<open>SIGQUIT\<close> and keeps \<open>SIGCHLD\<close> blocked; nothing else can happen.
\<close>

theorem system_restores_signals:
  "case system (sig_kernel K0) fuel cmd w of
     (Ok _, w') \<Rightarrow> sigs_of w' = sigs_of w
   | (Replaced, w') \<Rightarrow> sigs_of w' = sigs_of w
   | (Exited n, w') \<Rightarrow> n = 127 \<and> sigs_of w' = sigs_of w
   | (Faulted e, w') \<Rightarrow> e = Diverged \<and>
       sigs_of w' = ((fst (sigs_of w))(SIGINT := (SIG_IGN, [0]), SIGQUIT := (SIG_IGN, [0])),
         snd (sigs_of w) @ [SIGCHLD])
   | (Killed _, _) \<Rightarrow> False"
proof (cases cmd)
  case None
  then show ?thesis by (simp add: system_def)
next
  case (Some c)
  let ?K = "sig_kernel K0"
  obtain d m where dm: "sigs_of w = (d, m)" by fastforce
  have ne: "SIGINT \<noteq> SIGQUIT" by (simp add: SIGINT_def SIGQUIT_def)
  let ?d = "d(SIGINT := (SIG_IGN, [0]), SIGQUIT := (SIG_IGN, [0]))"
  have restored: "?d(SIGINT := (fst (d SIGINT), snd (d SIGINT)), SIGQUIT := (fst (d SIGQUIT), snd (d SIGQUIT))) = d"
    by (simp add: fun_eq_iff)
  obtain w1 where 1: "sigaction ?K SIGINT [SIG_IGN, 0] w = (Ok (listing (fst (d SIGINT) # snd (d SIGINT))), w1)"
    "sigs_of w1 = (d(SIGINT := (SIG_IGN, [0])), m)"
    using sigaction_run [OF dm] by blast
  obtain w2 where 2: "sigaction ?K SIGQUIT [SIG_IGN, 0] w1 = (Ok (listing (fst (d SIGQUIT) # snd (d SIGQUIT))), w2)"
    "sigs_of w2 = (?d, m)"
    using sigaction_run [OF 1(2), of K0 SIGQUIT SIG_IGN "[0]"] ne by auto
  obtain w3 where 3: "sigprocmask ?K SIG_BLOCK [SIGCHLD] w2 = (Ok (0, m), w3)"
    "sigs_of w3 = (?d, m @ [SIGCHLD])"
    using block_run [OF 2(2)] by blast
  obtain res w4 where 4: "run_command ?K fuel c (fst (d SIGINT) # snd (d SIGINT)) (fst (d SIGQUIT) # snd (d SIGQUIT)) m w3 =
      (res, w4)"
    "case res of
        Ok _ \<Rightarrow> sigs_of w4 = (?d, m @ [SIGCHLD])
      | Faulted e \<Rightarrow> e = Diverged \<and> sigs_of w4 = (?d, m @ [SIGCHLD])
      | Exited n \<Rightarrow> n = 127 \<and> sigs_of w4 = (d, m)
      | Replaced \<Rightarrow> sigs_of w4 = (d, m)
      | Killed _ \<Rightarrow> False"
    using run_command_sigs [OF 3(2), of K0 fuel c "fst (d SIGINT)" "snd (d SIGINT)" "fst (d SIGQUIT)" "snd (d SIGQUIT)" m]
      unfolding restored by blast
  show ?thesis
  proof (cases res)
    case (Ok status)
    with 4(2) have "sigs_of w4 = (?d, m @ [SIGCHLD])" by simp
    from put_back [OF this, of K0 "fst (d SIGINT)" "snd (d SIGINT)" "fst (d SIGQUIT)" "snd (d SIGQUIT)" m status]
    show ?thesis using 1(1) 2(1) 3(1) 4(1) Ok Some dm unfolding restored
      by (auto simp: system_def io_bind_def)
  qed (use 1 2 3 4 Some dm in \<open>auto simp: system_def io_bind_def\<close>)
qed
text \<open>
  \<open>abort\<close> ends the process with \<open>SIGABRT\<close> for every action of the signal and every handler that
  returns, and never returns itself.
\<close>

definition ends_by :: "int \<Rightarrow> ('w, 'a) io \<Rightarrow> bool" where
  "ends_by s m \<longleftrightarrow> (\<forall>w. fst (m w) = Killed s)"

lemma ends_by_later:
  assumes "total (\<lambda>_. True) m (\<lambda>_ _. True)" "\<And>a. ends_by s (f a)"
  shows "ends_by s (io_bind m f)"
  unfolding ends_by_def
proof
  fix w
  obtain a w' where "m w = (Ok a, w')" using assms(1) unfolding total_def by blast
  with assms(2) show "fst (io_bind m f w) = Killed s" by (simp add: io_bind_def ends_by_def)
qed

lemma ends_by_first:
  assumes "ends_by s m"
  shows "ends_by s (io_bind m f)"
  unfolding ends_by_def
proof
  fix w
  have "fst (m w) = Killed s" using assms by (simp add: ends_by_def)
  then show "fst (io_bind m f w) = Killed s" by (cases "m w") (simp add: io_bind_def)
qed

lemma total_calls [intro]:
  "total (\<lambda>_. True) (sys_r K nm args) (\<lambda>_ _. True)" "total (\<lambda>_. True) (sys K nm args) (\<lambda>_ _. True)"
  "total (\<lambda>_. True) (do_call K nm args) (\<lambda>_ _. True)" "total (\<lambda>_. True) (sigaction K s act) (\<lambda>_ _. True)"
  by (auto simp: total_def sigaction_def do_call_def sys_def io_bind_def sys_r_run)

lemma ends_by_kill: "ends_by s (io_kill s)"
  by (simp add: ends_by_def)

lemma kill_self_default: "ends_by s (kill_self K s SIG_DFL handler)"
  unfolding kill_self_def io_then_def by (intro ends_by_later total_calls) (simp add: ends_by_kill)

lemma kill_self_caught:
  assumes "total (\<lambda>_. True) (handler s) (\<lambda>_ _. True)" "h \<noteq> SIG_DFL"
  shows "total (\<lambda>_. True) (kill_self K s h handler) (\<lambda>_ _. True)"
  unfolding kill_self_def io_then_def
  by (rule total_bind [OF total_calls(2)], rule total_bind [OF total_calls(3)]) (simp add: assms)

lemma abort_kills:
  assumes "\<And>w. fst (handler SIGABRT w) = Ok ()"
  shows "fst (ch10_abort K handler w) = Killed SIGABRT"
proof -
  have h: "total (\<lambda>_. True) (handler SIGABRT) (\<lambda>_ _. True)"
    unfolding total_def using assms by (metis prod.collapse)
  have late: "ends_by SIGABRT (io_bind (do_call K ''fflush'' [ANull]) (\<lambda>_. io_bind (sigaction K SIGABRT act) (\<lambda>_.
      io_bind (do_call K ''sigprocmask'' set) (\<lambda>_. io_bind (kill_self K SIGABRT SIG_DFL handler) (\<lambda>_. io_exit 1)))))" for act set
    by (intro ends_by_later total_calls ends_by_first kill_self_default)
  have first: "ends_by SIGABRT (io_bind (kill_self K SIGABRT a handler) f)" if "\<And>x. ends_by SIGABRT (f x)" for a f
    by (cases "a = SIG_DFL") (auto intro: ends_by_first kill_self_default ends_by_later kill_self_caught h that)
  have act: "total (\<lambda>_. True) (if c then io_bind (sigaction K SIGABRT x) (\<lambda>_. io_return a) else io_return b) (\<lambda>_ _. True)"
    for c x and a b :: int
    by (auto intro!: total_bind [OF total_calls(4)] total_return simp del: io_return_run)
  have flush: "total (\<lambda>_. True) (io_when c (do_call K nm args)) (\<lambda>_ _. True)" for c nm args
    by (auto intro!: total_calls total_return simp: io_when_def simp del: io_return_run)
  have "ends_by SIGABRT (ch10_abort K handler)"
    unfolding ch10_abort_def io_then_def Let_def
    by (rule ends_by_later [OF total_calls(1)], rule ends_by_later [OF act], rule ends_by_later [OF flush],
        rule ends_by_later [OF total_calls(3)], rule first, rule late)
  then show ?thesis by (simp add: ends_by_def)
qed

text \<open>
  \<open>checktime\<close> compares seconds and microseconds apart: at 11.1 s it does not see that 10.9 s is over.
\<close>

lemma checktime_misses:
  "fst (checktime scripted s \<lparr>w_kern = [listing [11, 100000]], w_errno = 0, w_trace = [],
     nice_count = 5, end_sec = 10, end_usec = 900000\<rparr>) = Ok ()"
  by (simp add: checktime_def io_bind_def sys_r_run scripted_def listing_def int_at_def)

end
