(* ===== verification/Getenv.thy ===== *)
theory Getenv
  imports ErrLog "HOL-Library.Sublist"
begin

text \<open>
  apue/ch12/ch12_getenv.c: \<open>getenv\<close> with a buffer per thread. The environment is a list of strings;
  the buffers that \<open>malloc\<close> has handed out are a map from addresses to their characters, with the
  contents the allocator left there (the string of its reply). A write to no buffer is a fault. The
  threads of \<open>main\<close> meet only at the mutex; each is run at the \<open>pthread_join\<close> that waits for it.

  The property: what \<open>getenv\<close> finds, and that every call allocates a buffer, because the address is
  never stored under the key.
\<close>

section \<open>The code\<close>

definition MAXSTRINGSZ :: nat where "MAXSTRINGSZ = 4096"

record 'k envs = "'k world" +
  environ :: "string list"
  bufs :: "int \<Rightarrow> string option"

text \<open>The character of a C string at a position up to its terminator.\<close>

definition c_at :: "string \<Rightarrow> nat \<Rightarrow> char" where
  "c_at s i = (if i < length s then s ! i else NUL)"

text \<open>\<open>strncmp(a, b, n) == 0\<close>, character by character.\<close>

fun strncmp_eq :: "string \<Rightarrow> string \<Rightarrow> nat \<Rightarrow> bool" where
  "strncmp_eq a b 0 \<longleftrightarrow> True"
| "strncmp_eq a b (Suc n) \<longleftrightarrow>
     c_at a 0 = c_at b 0 \<and> (c_at a 0 = NUL \<or> strncmp_eq (tl a) (tl b) n)"

text \<open>\<open>strncpy\<close> fills up with zeros; the buffer has to hold all \<open>n\<close> characters.\<close>

definition strncpy_at :: "int \<Rightarrow> string \<Rightarrow> nat \<Rightarrow> ('k envs, unit) io" where
  "strncpy_at dst src n =
     io_bind (io_get bufs) (\<lambda>h.
     case h dst of
       None \<Rightarrow> io_fault OutOfBounds
     | Some old \<Rightarrow>
         if length old < n then io_fault OutOfBounds
         else io_mod (\<lambda>w. w\<lparr>bufs := h(dst \<mapsto> take n (src @ replicate n NUL) @ drop n old)\<rparr>))"

definition malloc_buf :: "'k kernel \<Rightarrow> nat \<Rightarrow> ('k envs, int) io" where
  "malloc_buf K n =
     io_bind (sys_r K ''malloc'' [AInt (int n)]) (\<lambda>r.
     io_then
       (io_when (r_ret r \<noteq> 0)
         (io_mod (\<lambda>w. w\<lparr>bufs := (bufs w)(r_ret r \<mapsto> take n (r_str r @ replicate n NUL))\<rparr>)))
       (io_return (r_ret r)))"

definition thread_init :: "'k kernel \<Rightarrow> ('k envs, unit) io" where
  "thread_init K = do_call K ''pthread_key_create'' [APtr ''key'', APtr ''free'']"

text \<open>The reply to \<open>pthread_once\<close> says whether the initialiser runs in this call.\<close>

definition once :: "'k kernel \<Rightarrow> ('k envs, unit) io" where
  "once K =
     io_bind (sys_r K ''pthread_once'' [APtr ''init_done'', APtr ''thread_init'']) (\<lambda>r.
     io_when (int_at r 0 \<noteq> 0) (thread_init K))"

fun search_env :: "string \<Rightarrow> int \<Rightarrow> string list \<Rightarrow> ('k envs, int) io" where
  "search_env name envbuf [] = io_return 0"
| "search_env name envbuf (e # es) =
     (let len = length name in
      if strncmp_eq name e len \<and> c_at e len = CHR ''='' then
        io_then (strncpy_at envbuf (drop (len + 1) e) (MAXSTRINGSZ - 1)) (io_return envbuf)
      else search_env name envbuf es)"

definition getenv :: "'k kernel \<Rightarrow> string \<Rightarrow> ('k envs, int) io" where
  "getenv K name =
     io_then (once K)
     (io_then (do_call K ''pthread_mutex_lock'' [APtr ''env_mutex''])
     (io_bind (sys K ''pthread_getspecific'' [APtr ''key'']) (\<lambda>envbuf.
      io_bind (if envbuf = 0 then malloc_buf K MAXSTRINGSZ else io_return envbuf) (\<lambda>envbuf.
      if envbuf = 0 then
        io_then (do_call K ''pthread_mutex_unlock'' [APtr ''env_mutex'']) (io_return 0)
      else
        io_bind (io_get environ) (\<lambda>es.
        io_bind (search_env name envbuf es) (\<lambda>p.
        io_then (do_call K ''pthread_mutex_unlock'' [APtr ''env_mutex'']) (io_return p)))))))"

text \<open>The string at an address: up to the first zero, which has to be inside the buffer.\<close>

definition string_at :: "int \<Rightarrow> ('k envs, string) io" where
  "string_at p =
     io_bind (io_get bufs) (\<lambda>h.
     case h p of
       None \<Rightarrow> io_fault OutOfBounds
     | Some b \<Rightarrow> if NUL \<in> set b then io_return (takeWhile (\<lambda>c. c \<noteq> NUL) b) else io_fault OutOfBounds)"

definition func1 :: "'k kernel \<Rightarrow> string \<Rightarrow> ('k envs, int) io" where
  "func1 K name =
     io_bind (getenv K name) (\<lambda>p.
     io_bind (string_at p) (\<lambda>v.
     io_then (printf K ''in thread: %s: %s'' [AStr name, AStr v]) (io_return 0)))"

definition getenv_main :: "'k kernel \<Rightarrow> string list \<Rightarrow> ('k envs, unit) io" where
  "getenv_main K argv =
     (if length argv < 2 then err_sys K ''usage: ./a.out envname'' []
      else
        io_then
          (io_each (\<lambda>a.
             io_bind (sys K ''pthread_create'' [APtr ''func1'', AStr a]) (\<lambda>err.
             if err \<noteq> 0 then err_sys K ''create thread error'' [] else io_return ())) (tl argv))
        (io_then
          (io_each (\<lambda>a. io_then (do_call K ''pthread_join'' [AStr a])
             (io_bind (func1 K a) (\<lambda>_. io_return ()))) (tl argv))
        (io_then (printf K ''done'' []) (io_exit 0))))"

section \<open>The search\<close>

text \<open>What an environment says about a name: the rest of the first entry that starts with it and \<open>=\<close>.\<close>

fun env_value :: "string \<Rightarrow> string list \<Rightarrow> string option" where
  "env_value name [] = None"
| "env_value name (e # es) =
     (if prefix (name @ ''='') e then Some (drop (length name + 1) e) else env_value name es)"

text \<open>C strings have no zero inside.\<close>

lemma strncmp_eq_prefix:
  "NUL \<notin> set name \<Longrightarrow> NUL \<notin> set e \<Longrightarrow> strncmp_eq name e (length name) \<longleftrightarrow> prefix name e"
proof (induction name arbitrary: e)
  case Nil
  then show ?case by simp
next
  case (Cons c name)
  then show ?case by (cases e) (auto simp: c_at_def)
qed

lemma prefix_snoc_at: "prefix (name @ [c]) e \<longleftrightarrow> prefix name e \<and> length name < length e \<and> e ! length name = c"
proof (induction name arbitrary: e)
  case Nil
  then show ?case by (cases e) auto
next
  case (Cons d name)
  then show ?case by (cases e) auto
qed

lemma match_prefix:
  "NUL \<notin> set name \<Longrightarrow> NUL \<notin> set e \<Longrightarrow>
   strncmp_eq name e (length name) \<and> c_at e (length name) = CHR ''='' \<longleftrightarrow> prefix (name @ ''='') e"
  by (auto simp: strncmp_eq_prefix prefix_snoc_at c_at_def)

lemma strncpy_at_run:
  "bufs w p = Some old \<Longrightarrow> n \<le> length old \<Longrightarrow>
   strncpy_at p src n w = (Ok (), w\<lparr>bufs := (bufs w)(p \<mapsto> take n (src @ replicate n NUL) @ drop n old)\<rparr>)"
  by (simp add: strncpy_at_def)

lemma search_env_run:
  assumes "bufs w p = Some old" "length old = MAXSTRINGSZ" "NUL \<notin> set name" "\<forall>e \<in> set es. NUL \<notin> set e"
  shows "\<exists>w'. search_env name p es w = (Ok (case env_value name es of None \<Rightarrow> 0 | Some v \<Rightarrow> p), w') \<and>
     environ w' = environ w \<and> w_trace w' = w_trace w \<and> w_kern w' = w_kern w \<and>
     bufs w' = (bufs w)(p \<mapsto> case env_value name es of None \<Rightarrow> old
       | Some v \<Rightarrow> take (MAXSTRINGSZ - 1) (v @ replicate (MAXSTRINGSZ - 1) NUL) @ [last old])"
  using assms(4)
proof (induction es)
  case Nil
  with assms(1) show ?case by (simp add: fun_upd_idem)
next
  case (Cons e es)
  have tail: "drop (MAXSTRINGSZ - 1) old = [last old]"
  proof -
    have "old \<noteq> []" using assms(2) by (auto simp: MAXSTRINGSZ_def)
    then have "old = butlast old @ [last old]" by simp
    moreover have "length (butlast old) = MAXSTRINGSZ - 1" using assms(2) by simp
    ultimately show ?thesis by (metis append_eq_conv_conj)
  qed
  show ?case
  proof (cases "prefix (name @ ''='') e")
    case True
    with assms Cons.prems tail show ?thesis
      by (simp add: match_prefix Let_def io_then_def io_bind_def strncpy_at_run MAXSTRINGSZ_def fun_eq_iff)
  next
    case False
    with assms Cons show ?thesis by (simp add: match_prefix)
  qed
qed

section \<open>The calls of getenv\<close>

definition kept :: "('k envs) \<Rightarrow> 'k envs \<Rightarrow> bool" where
  "kept w w' \<longleftrightarrow> environ w' = environ w \<and> bufs w' = bufs w"

definition mallocs :: "'k envs \<Rightarrow> nat" where
  "mallocs w = calls_of ''malloc'' (w_trace w)"

lemma do_call_kept:
  "nm \<noteq> ''malloc'' \<Longrightarrow> \<exists>w'. do_call K nm args w = (Ok (), w') \<and> kept w w' \<and> mallocs w' = mallocs w"
  by (simp add: do_call_def io_bind_def sys_r_run kept_def mallocs_def)

lemma sys_kept:
  "nm \<noteq> ''malloc'' \<Longrightarrow>
   \<exists>k w'. sys K nm args w = (Ok (r_ret (fst (K (nm, args) k))), w') \<and> kept w w' \<and> mallocs w' = mallocs w"
  by (auto simp: sys_def io_bind_def sys_r_run kept_def mallocs_def)

lemma once_kept: "\<exists>w'. once K w = (Ok (), w') \<and> kept w w' \<and> mallocs w' = mallocs w"
  by (simp add: once_def thread_init_def do_call_def io_bind_def sys_r_run kept_def mallocs_def io_when_def)

lemma malloc_run:
  "\<exists>k w'. malloc_buf K n w = (Ok (r_ret (fst (K (''malloc'', [AInt (int n)]) k))), w') \<and>
     environ w' = environ w \<and> mallocs w' = Suc (mallocs w) \<and>
     (r_ret (fst (K (''malloc'', [AInt (int n)]) k)) = 0 \<or>
      (\<exists>old. bufs w' = (bufs w)(r_ret (fst (K (''malloc'', [AInt (int n)]) k)) \<mapsto> old) \<and> length old = n))"
  by (auto simp: malloc_buf_def io_bind_def io_then_def sys_r_run mallocs_def io_when_def intro!: exI [of _ "w_kern w"])


text \<open>A library whose allocator counts: keys have no value.\<close>

definition counting :: "nat kernel" where
  "counting c k = (if fst c = ''malloc'' then (ret_only (int k + 1), Suc k) else (ret_only 0, k))"


end
