(* ===== verification/Timeout.thy ===== *)
theory Timeout
  imports ErrLog
begin

text \<open>
  apue/ch12/ch12_mutexattr.c: a function to be called at a time. \<open>timeout\<close> starts a thread that
  sleeps and then calls the function, or calls it at once when the time has come or no thread can
  be had. A time is a pair of seconds and nanoseconds. The started threads are recorded, with what they got; their
  code is \<open>timeout_helper\<close>. The function is a parameter.

  The property: in every year after 2001 the seconds that the thread sleeps are always fewer than asked for, and
  136 years when the time lies within the current second.
\<close>

section \<open>The code\<close>

type_synonym timespec = "int \<times> int"

record to_info =
  to_arg :: int
  to_wait :: timespec

record 'k tmo = "'k world" +
  started :: "to_info list"

definition SECTONSEC :: int where "SECTONSEC = 1000000000"

text \<open>\<open>makethread\<close>; the new thread is recorded when it was created.\<close>

definition makethread :: "'k kernel \<Rightarrow> to_info \<Rightarrow> ('k tmo, int) io" where
  "makethread K tip =
     io_bind (sys K ''pthread_attr_init'' []) (\<lambda>err.
     if err \<noteq> 0 then io_return err
     else
       io_bind (sys K ''pthread_attr_setdetachstate'' [AStr ''PTHREAD_CREATE_DETACHED'']) (\<lambda>err.
       io_bind
         (if err = 0 then
            io_bind (sys K ''pthread_create'' [APtr ''timeout_helper'']) (\<lambda>err.
            io_then (io_when (err = 0) (io_mod (\<lambda>w. w\<lparr>started := started w @ [tip]\<rparr>))) (io_return err))
          else io_return err) (\<lambda>err.
       io_then (do_call K ''pthread_attr_destroy'' []) (io_return err))))"

text \<open>\<open>sleep\<close> takes an unsigned number of 32 bits.\<close>

definition sleep_arg :: "int \<Rightarrow> int" where
  "sleep_arg n = n mod 2 ^ 32"

definition timeout_helper :: "'k kernel \<Rightarrow> (int \<Rightarrow> ('k tmo, unit) io) \<Rightarrow> to_info \<Rightarrow> ('k tmo, int) io" where
  "timeout_helper K to_fn tip =
     io_then (do_call K ''sleep'' [AInt (sleep_arg (fst (to_wait tip)))])
     (io_then (to_fn (to_arg tip))
     (io_then (do_call K ''free'' [APtr ''arg'']) (io_return 0)))"

text \<open>What is put into \<open>to_wait\<close>: the test compares nanoseconds with seconds.\<close>

definition wait_of :: "timespec \<Rightarrow> timespec \<Rightarrow> timespec" where
  "wait_of when now =
     (let s = fst when - fst now in
      if snd when \<ge> fst now then (s, snd when - snd now)
      else (s - 1, SECTONSEC - snd now + snd when))"

definition later :: "timespec \<Rightarrow> timespec \<Rightarrow> bool" where
  "later when now \<longleftrightarrow> fst when > fst now \<or> fst when = fst now \<and> snd when > snd now"

definition clock_gettime :: "'k kernel \<Rightarrow> (('k, 'z) world_scheme, timespec) io" where
  "clock_gettime K =
     io_bind (sys_r K ''clock_gettime'' [AStr ''CLOCK_REALTIME'']) (\<lambda>r. io_return (int_at r 0, int_at r 1))"

definition timeout :: "'k kernel \<Rightarrow> timespec \<Rightarrow> (int \<Rightarrow> ('k tmo, unit) io) \<Rightarrow> int \<Rightarrow> ('k tmo, unit) io" where
  "timeout K when func arg =
     io_bind (clock_gettime K) (\<lambda>now.
     if later when now then
       io_bind (sys K ''malloc'' [AInt 32]) (\<lambda>tip.
       if tip \<noteq> 0 then
         io_bind (makethread K \<lparr>to_arg = arg, to_wait = wait_of when now\<rparr>) (\<lambda>err.
         if err = 0 then io_return ()
         else io_then (do_call K ''free'' [AInt tip]) (func arg))
       else func arg)
     else func arg)"

definition retry :: "'k kernel \<Rightarrow> int \<Rightarrow> ('k tmo, unit) io" where
  "retry K arg =
     io_seq [do_call K ''pthread_mutex_lock'' [APtr ''mutex''], do_call K ''pthread_mutex_unlock'' [APtr ''mutex'']]"

definition timeout_main :: "'k kernel \<Rightarrow> ('k tmo, unit) io" where
  "timeout_main K =
     io_bind (sys K ''pthread_mutexattr_init'' [APtr ''attr'']) (\<lambda>err.
     if err \<noteq> 0 then err_exit K err ''pthread_mutexattr_init failed'' []
     else
       io_bind (sys K ''pthread_mutexattr_settype'' [APtr ''attr'', AStr ''PTHREAD_MUTEX_RECURSIVE'']) (\<lambda>err.
       if err \<noteq> 0 then err_exit K err ''can't set recursive type'' []
       else
         io_bind (sys K ''pthread_mutex_init'' [APtr ''mutex'', APtr ''attr'']) (\<lambda>err.
         if err \<noteq> 0 then err_exit K err ''can't create recursive mutex'' []
         else
           io_then (do_call K ''pthread_mutex_lock'' [APtr ''mutex''])
           (io_bind (clock_gettime K) (\<lambda>when.
            io_then (timeout K (fst when + 10, snd when) (retry K) 10)
            (io_then (do_call K ''pthread_mutex_unlock'' [APtr ''mutex'']) (io_exit 0)))))))"

section \<open>How long the thread sleeps\<close>

definition nanos :: "timespec \<Rightarrow> int" where
  "nanos t = fst t * SECTONSEC + snd t"

text \<open>Seconds and nanoseconds together are always right, whichever branch is taken.\<close>

lemma nanos_wait_of: "nanos (wait_of when now) = nanos when - nanos now"
  by (simp add: nanos_def wait_of_def Let_def SECTONSEC_def algebra_simps)

lemma wait_of_year:
  assumes "SECTONSEC \<le> fst now" "snd when < SECTONSEC"
  shows "wait_of when now = (fst when - fst now - 1, SECTONSEC - snd now + snd when)"
  using assms by (simp add: wait_of_def Let_def)

text \<open>
  At any time after the second 1000000000 of the epoch, for a time in the future with
  proper nanoseconds, with memory and a thread to be had: \<open>timeout\<close> returns and has started one
  thread, whose first call is to sleep the whole seconds of the difference less one. So the function is
  called before its time when that lies in a later second, and some 136 years after it when it lies in
  the current second.
\<close>

theorem timeout_sleeps:
  assumes "\<And>k. r_ints (fst (K (''clock_gettime'', [AStr ''CLOCK_REALTIME'']) k)) = [fst now, snd now]"
    and "\<And>k. r_ret (fst (K (''malloc'', [AInt 32]) k)) \<noteq> 0"
    and "\<And>k. r_ret (fst (K (''pthread_attr_init'', []) k)) = 0"
    and "\<And>k. r_ret (fst (K (''pthread_attr_setdetachstate'', [AStr ''PTHREAD_CREATE_DETACHED'']) k)) = 0"
    and "\<And>k. r_ret (fst (K (''pthread_create'', [APtr ''timeout_helper'']) k)) = 0"
    and "SECTONSEC \<le> fst now" "snd now < SECTONSEC" "0 \<le> snd when" "snd when < SECTONSEC"
    and "later when now" "fst when - fst now < 2 ^ 32"
  shows "\<exists>w' tip n. timeout K when func arg w = (Ok (), w') \<and> started w' = started w @ [tip] \<and>
     timeout_helper K func tip =
       io_then (do_call K ''sleep'' [AInt n])
         (io_then (func arg) (io_then (do_call K ''free'' [APtr ''arg'']) (io_return 0))) \<and>
     (if fst when = fst now then n = 2 ^ 32 - 1
      else n = fst when - fst now - 1 \<and> n * SECTONSEC < nanos when - nanos now)"
proof -
  let ?tip = "\<lparr>to_arg = arg, to_wait = wait_of when now\<rparr>"
  let ?n = "sleep_arg (fst when - fst now - 1)"
  have run: "\<exists>w'. timeout K when func arg w = (Ok (), w') \<and> started w' = started w @ [?tip]"
    using assms(1-5) assms(10)
    by (simp add: timeout_def clock_gettime_def makethread_def sys_def do_call_def io_then_def io_bind_def
        sys_r_run io_when_def int_at_def)
  have wait: "wait_of when now = (fst when - fst now - 1, SECTONSEC - snd now + snd when)"
    by (rule wait_of_year [OF assms(6,9)])
  have "if fst when = fst now then ?n = 2 ^ 32 - 1
      else ?n = fst when - fst now - 1 \<and> ?n * SECTONSEC < nanos when - nanos now"
  proof (cases "fst when = fst now")
    case False
    with assms(10,11) have "?n = fst when - fst now - 1" by (auto simp: later_def sleep_arg_def)
    moreover have "(fst when - fst now - 1) * SECTONSEC < nanos when - nanos now"
      using assms(7,8) by (simp add: nanos_def SECTONSEC_def)
    ultimately show ?thesis using False by simp
  qed (simp add: sleep_arg_def)
  with run show ?thesis
    by (elim exE conjE) (intro exI conjI, assumption, assumption, simp add: timeout_helper_def wait, assumption)
qed

text \<open>A library at a fixed time; the call is for ten seconds later.\<close>

definition clock_kernel :: "timespec \<Rightarrow> unit kernel" where
  "clock_kernel now c k =
     (if fst c = ''clock_gettime'' then ((ret_only 0)\<lparr>r_ints := [fst now, snd now]\<rparr>, k)
      else if fst c = ''malloc'' then (ret_only 1, k) else (ret_only 0, k))"

lemma timeout_sleeps_witness:
  "\<exists>w' tip n. timeout (clock_kernel (1700000000, 5)) (1700000010, 5) (\<lambda>_. io_return ()) 10
       \<lparr>w_kern = (), w_errno = 0, w_trace = [], started = []\<rparr> = (Ok (), w') \<and> started w' = [tip] \<and>
     timeout_helper (clock_kernel (1700000000, 5)) (\<lambda>_. io_return ()) tip =
       io_then (do_call (clock_kernel (1700000000, 5)) ''sleep'' [AInt n])
         (io_then (io_return ())
           (io_then (do_call (clock_kernel (1700000000, 5)) ''free'' [APtr ''arg'']) (io_return 0))) \<and> n = 9"
  using timeout_sleeps [of "clock_kernel (1700000000, 5)" "(1700000000, 5)" "(1700000010, 5)" "\<lambda>_. io_return ()" 10
      "\<lparr>w_kern = (), w_errno = 0, w_trace = [], started = []\<rparr>"]
  by (auto simp: clock_kernel_def ret_only_def SECTONSEC_def later_def)

end
