(* ===== verification/MsgQueue.thy ===== *)
theory MsgQueue
  imports Prelude
begin

text \<open>
  apue/ch11/ch11_pthread_cond.c: messages in a linked list under a mutex, with a condition variable
  for its readers. Threads are numbered; each runs \<open>process_msg\<close> for ever or calls \<open>enqueue_msg\<close> for
  the messages it has to send. A step is one call or one statement between calls; the thread and, for
  \<open>pthread_cond_signal\<close>, the waiting thread it wakes are chosen freely, and a waiting thread may also
  wake by itself. The source misspells \<open>mp\<close>, the signal call and an address; what it means is modelled.

  The property: no reader takes from an empty list, every message is delivered at most once and is
  never lost, and no message lies in the list while all readers sleep and no sender is to wake one.
\<close>

section \<open>The code\<close>

datatype pc =
    C_lock | C_test | C_wait | C_woken | C_take | C_unlock int | C_fault
  | P_idle | P_lock | P_put | P_unlock | P_signal

text \<open>\<open>taken\<close> lists the messages already processed; \<open>todo\<close> those a thread still has to send.\<close>

record mqs =
  m_next :: "int \<Rightarrow> int"
  workq :: int
  holder :: "nat option"
  pcs :: "nat \<Rightarrow> pc"
  todo :: "nat \<Rightarrow> int list"
  taken :: "int list"

definition goto :: "nat \<Rightarrow> pc \<Rightarrow> mqs \<Rightarrow> mqs" where
  "goto i p s = s\<lparr>pcs := (pcs s)(i := p)\<rparr>"

definition acquire :: "nat \<Rightarrow> pc \<Rightarrow> mqs \<Rightarrow> mqs option" where
  "acquire i p s = (if holder s = None then Some (goto i p (s\<lparr>holder := Some i\<rparr>)) else None)"

definition release :: "nat \<Rightarrow> pc \<Rightarrow> mqs \<Rightarrow> mqs option" where
  "release i p s = Some (goto i p (s\<lparr>holder := None\<rparr>))"

definition process_step :: "nat \<Rightarrow> mqs \<Rightarrow> mqs option" where
  "process_step i s =
     (case pcs s i of
        C_lock \<Rightarrow> acquire i C_test s
      | C_test \<Rightarrow> if workq s = 0 then release i C_wait s else Some (goto i C_take s)
      | C_woken \<Rightarrow> acquire i C_test s
      | C_take \<Rightarrow>
          if workq s = 0 then Some (goto i C_fault s)
          else Some (goto i (C_unlock (workq s)) (s\<lparr>workq := m_next s (workq s)\<rparr>))
      | C_unlock m \<Rightarrow> release i C_lock (s\<lparr>taken := taken s @ [m]\<rparr>)
      | _ \<Rightarrow> None)"

definition enqueue_step :: "nat \<Rightarrow> nat \<Rightarrow> mqs \<Rightarrow> mqs option" where
  "enqueue_step i j s =
     (case pcs s i of
        P_idle \<Rightarrow> if todo s i = [] then None else Some (goto i P_lock s)
      | P_lock \<Rightarrow> acquire i P_put s
      | P_put \<Rightarrow>
          let mp = hd (todo s i) in
          Some (goto i P_unlock
            (s\<lparr>m_next := (m_next s)(mp := workq s), workq := mp, todo := (todo s)(i := tl (todo s i))\<rparr>))
      | P_unlock \<Rightarrow> release i P_signal s
      | P_signal \<Rightarrow>
          Some (goto i P_idle (if pcs s j = C_wait then goto j C_woken s else s))
      | _ \<Rightarrow> None)"

text \<open>A signal wakes a thread that waits if there is one.\<close>

inductive mq_step :: "mqs \<Rightarrow> mqs \<Rightarrow> bool" where
  process: "process_step i s = Some t \<Longrightarrow> mq_step s t"
| enqueue: "enqueue_step i j s = Some t \<Longrightarrow> pcs s j = C_wait \<or> (\<forall>k. pcs s k \<noteq> C_wait) \<Longrightarrow> mq_step s t"
| spurious: "pcs s i = C_wait \<Longrightarrow> mq_step s (goto i C_woken s)"

section \<open>The invariant\<close>

fun linked :: "(int \<Rightarrow> int) \<Rightarrow> int \<Rightarrow> int list \<Rightarrow> bool" where
  "linked nx h [] \<longleftrightarrow> h = 0"
| "linked nx h (m # ms) \<longleftrightarrow> h = m \<and> m \<noteq> 0 \<and> linked nx (nx m) ms"

definition owned :: "mqs \<Rightarrow> nat \<Rightarrow> int list" where
  "owned s i = (case pcs s i of C_unlock m \<Rightarrow> [m] | _ \<Rightarrow> []) @ todo s i"

definition critical :: "pc \<Rightarrow> bool" where
  "critical p \<longleftrightarrow> (case p of C_test \<Rightarrow> True | C_take \<Rightarrow> True | C_unlock _ \<Rightarrow> True | P_put \<Rightarrow> True | P_unlock \<Rightarrow> True
     | _ \<Rightarrow> False)"

definition consumer :: "pc \<Rightarrow> bool" where
  "consumer p \<longleftrightarrow> (case p of C_lock \<Rightarrow> True | C_test \<Rightarrow> True | C_wait \<Rightarrow> True | C_woken \<Rightarrow> True | C_take \<Rightarrow> True
     | C_unlock _ \<Rightarrow> True | _ \<Rightarrow> False)"

text \<open>The messages are shared out between a list and the threads, each in one place.\<close>

definition parts :: "int set \<Rightarrow> int list \<Rightarrow> (nat \<Rightarrow> int list) \<Rightarrow> bool" where
  "parts M xs f \<longleftrightarrow> distinct xs \<and> 0 \<notin> M \<and> M = set xs \<union> (\<Union>i. set (f i)) \<and>
     (\<forall>i. distinct (f i) \<and> set (f i) \<inter> set xs = {}) \<and> (\<forall>i j. i \<noteq> j \<longrightarrow> set (f i) \<inter> set (f j) = {})"

definition awake :: "mqs \<Rightarrow> bool" where
  "awake s \<longleftrightarrow> workq s = 0 \<or> (\<exists>i. pcs s i = P_unlock \<or> pcs s i = P_signal) \<or>
     (\<exists>i. consumer (pcs s i) \<and> pcs s i \<noteq> C_wait) \<or> (\<forall>i. \<not> consumer (pcs s i))"

definition mq_inv :: "int set \<Rightarrow> mqs \<Rightarrow> bool" where
  "mq_inv M s \<longleftrightarrow>
     (\<forall>i. critical (pcs s i) \<longleftrightarrow> holder s = Some i) \<and>
     (\<forall>i. pcs s i \<noteq> C_fault \<and> (pcs s i = C_take \<longrightarrow> workq s \<noteq> 0) \<and>
       (pcs s i = P_lock \<or> pcs s i = P_put \<longrightarrow> todo s i \<noteq> [])) \<and>
     (\<exists>qs. linked (m_next s) (workq s) qs \<and> parts M (qs @ taken s) (owned s)) \<and> awake s"

definition mq_start :: "int set \<Rightarrow> mqs \<Rightarrow> bool" where
  "mq_start M s \<longleftrightarrow> workq s = 0 \<and> holder s = None \<and> taken s = [] \<and>
     (\<forall>i. pcs s i = C_lock \<or> pcs s i = P_idle) \<and> parts M [] (todo s)"

lemma linked_other: "m \<notin> set qs \<Longrightarrow> linked (nx(m := x)) h qs = linked nx h qs"
  by (induction qs arbitrary: h) auto

lemma linked_pos: "linked nx h qs \<Longrightarrow> h \<noteq> 0 \<Longrightarrow> \<exists>qs'. qs = h # qs' \<and> linked nx (nx h) qs'"
  by (cases qs) auto

lemma parts_give:
  assumes "parts M xs f" "f i = m # rest" "mset ys = add_mset m (mset xs)"
  shows "parts M ys (f(i := rest))"
proof -
  have set_ys: "set ys = insert m (set xs)" using assms(3) by (metis set_mset_add_mset_insert set_mset_mset)
  have "m \<notin> set xs" "m \<notin> set rest" using assms(1,2) unfolding parts_def by (metis disjoint_iff list.set_intros(1), metis distinct.simps(2))
  then have "distinct ys" using assms(1,3) unfolding parts_def by (metis distinct.simps(2) mset.simps(2) mset_eq_imp_distinct_iff)
  moreover have "(\<exists>j. x \<in> set (f j)) \<longleftrightarrow> x = m \<or> (\<exists>j. x \<in> set ((f(i := rest)) j))" for x
    using assms(2) by (metis fun_upd_apply list.set_intros set_ConsD)
  then have "(\<Union>j. set (f j)) = insert m (\<Union>j. set ((f(i := rest)) j))" by blast
  moreover have "m \<notin> set (f j)" if "j \<noteq> i" for j
    using assms(1,2) that unfolding parts_def by (metis disjoint_iff list.set_intros(1))
  moreover have "distinct ((f(i := rest)) j) \<and> set ((f(i := rest)) j) \<inter> set ys = {}" for j
  proof (cases "j = i")
    case True
    have "distinct (m # rest)" "set (m # rest) \<inter> set xs = {}" using assms(1,2) unfolding parts_def by metis+
    with True set_ys show ?thesis by auto
  next
    case False
    have "distinct (f j)" "set (f j) \<inter> set xs = {}" "m \<notin> set (f j)"
      using assms(1) calculation(3) False unfolding parts_def by metis+
    with False set_ys show ?thesis by auto
  qed
  moreover have "set ((f(i := rest)) j) \<inter> set ((f(i := rest)) k) = {}" if "j \<noteq> k" for j k
  proof -
    have "set (f j) \<inter> set (f k) = {}" using assms(1) that unfolding parts_def by metis
    moreover have "set ((f(i := rest)) l) \<subseteq> set (f l)" for l using assms(2) by auto
    ultimately show ?thesis by fast
  qed
  moreover have "0 \<notin> M" "M = set xs \<union> (\<Union>j. set (f j))"
    using assms(1) unfolding parts_def by metis+
  ultimately show ?thesis using set_ys unfolding parts_def by auto
qed

lemma parts_get:
  assumes "parts M xs f" "mset xs = add_mset m (mset ys)"
  shows "parts M ys (f(i := m # f i))"
proof -
  have set_xs: "set xs = insert m (set ys)" using assms(2) by (metis set_mset_add_mset_insert set_mset_mset)
  have d: "distinct (m # ys)" using assms unfolding parts_def by (metis mset.simps(2) mset_eq_imp_distinct_iff)
  have "(\<Union>j. set ((f(i := m # f i)) j)) = insert m (\<Union>j. set (f j))" by (auto split: if_splits)
  with assms(1) set_xs d show ?thesis unfolding parts_def by (auto simp: disjoint_iff)
qed

section \<open>Every step keeps it\<close>

text \<open>A thread that moves by itself: the lock and the messages stay where they are.\<close>

lemma owned_goto [simp]:
  "owned (goto i p s) j = (if j = i then (case p of C_unlock m \<Rightarrow> [m] | _ \<Rightarrow> []) @ todo s i else owned s j)"
  by (simp add: owned_def goto_def)

lemma goto_sel [simp]:
  "m_next (goto i p s) = m_next s" "workq (goto i p s) = workq s" "holder (goto i p s) = holder s"
  "todo (goto i p s) = todo s" "taken (goto i p s) = taken s" "pcs (goto i p s) = (pcs s)(i := p)"
  by (simp_all add: goto_def)

lemma owned_update [simp]:
  "owned (s\<lparr>holder := h\<rparr>) = owned s" "owned (s\<lparr>workq := q\<rparr>) = owned s" "owned (s\<lparr>taken := t\<rparr>) = owned s"
  "owned (s\<lparr>m_next := n\<rparr>) = owned s"
  by (simp_all add: owned_def fun_eq_iff)

definition plain :: "pc \<Rightarrow> bool" where
  "plain p \<longleftrightarrow> (case p of C_unlock _ \<Rightarrow> False | _ \<Rightarrow> True)"

lemma owned_plain: "plain (pcs s i) \<Longrightarrow> owned s i = todo s i"
  by (auto simp: plain_def owned_def split: pc.splits)

text \<open>The parts of the invariant that say where threads are.\<close>

definition places :: "mqs \<Rightarrow> bool" where
  "places s \<longleftrightarrow> (\<forall>i. critical (pcs s i) \<longleftrightarrow> holder s = Some i) \<and>
     (\<forall>i. pcs s i \<noteq> C_fault \<and> (pcs s i = C_take \<longrightarrow> workq s \<noteq> 0) \<and>
       (pcs s i = P_lock \<or> pcs s i = P_put \<longrightarrow> todo s i \<noteq> []))"

definition shared :: "int set \<Rightarrow> mqs \<Rightarrow> bool" where
  "shared M s \<longleftrightarrow> (\<exists>qs. linked (m_next s) (workq s) qs \<and> parts M (qs @ taken s) (owned s))"

lemma mq_inv_split: "mq_inv M s \<longleftrightarrow> places s \<and> shared M s \<and> awake s"
  by (auto simp: mq_inv_def places_def shared_def)

lemma shared_same:
  "shared M s \<Longrightarrow> m_next t = m_next s \<Longrightarrow> workq t = workq s \<Longrightarrow> taken t = taken s \<Longrightarrow> owned t = owned s \<Longrightarrow>
   shared M t"
  by (simp add: shared_def)

lemma owned_move: "plain (pcs s i) \<Longrightarrow> plain p \<Longrightarrow> owned (goto i p s) = owned s"
  by (auto simp: fun_eq_iff owned_plain plain_def split: pc.splits)

lemma acquire_inv:
  assumes "mq_inv M s" "acquire i p s = Some t" "plain (pcs s i)" "plain p" "critical p"
    "p = C_test \<or> p = P_put \<and> todo s i \<noteq> []" "consumer p \<longleftrightarrow> consumer (pcs s i)" "pcs s i \<noteq> C_wait"
    "pcs s i \<noteq> P_unlock" "pcs s i \<noteq> P_signal"
  shows "mq_inv M t"
proof -
  have t: "holder s = None" "t = goto i p (s\<lparr>holder := Some i\<rparr>)"
    using assms(2) by (auto simp: acquire_def split: if_splits)
  have "places t" using assms(1,5,6) t by (auto simp: mq_inv_split places_def)
  moreover have "shared M t"
    using assms(1,3,4) t owned_move [of "s\<lparr>holder := Some i\<rparr>" i p] by (auto simp: mq_inv_split intro: shared_same)
  moreover have "awake t" using assms(1,6,7,8,9,10) t unfolding mq_inv_split awake_def
    by (auto simp: consumer_def split: if_splits)
  ultimately show ?thesis by (simp add: mq_inv_split)
qed

lemma goto_places:
  "places s \<Longrightarrow> critical p = critical (pcs s i) \<Longrightarrow> p \<noteq> C_fault \<Longrightarrow> p = C_take \<longrightarrow> workq s \<noteq> 0 \<Longrightarrow>
   p = P_lock \<or> p = P_put \<longrightarrow> todo s i \<noteq> [] \<Longrightarrow> places (goto i p s)"
  unfolding places_def by auto

lemma release_places:
  "places s \<Longrightarrow> critical (pcs s i) \<Longrightarrow> \<not> critical p \<Longrightarrow> p \<noteq> C_fault \<Longrightarrow> p \<noteq> P_lock \<Longrightarrow>
   places (goto i p (s\<lparr>taken := tk, holder := None\<rparr>))"
  unfolding places_def by (auto simp: critical_def)

lemma alone: "places s \<Longrightarrow> critical (pcs s i) \<Longrightarrow> critical (pcs s j) \<Longrightarrow> i = j"
  unfolding places_def by (metis option.inject)

lemma awake_goto:
  "awake s \<Longrightarrow> consumer p = consumer (pcs s i) \<Longrightarrow> p \<noteq> C_wait \<Longrightarrow> pcs s i \<noteq> P_unlock \<Longrightarrow> pcs s i \<noteq> P_signal \<Longrightarrow>
   awake (goto i p s)"
  unfolding awake_def by (auto split: if_splits)

text \<open>The three steps that hand a message on.\<close>

lemma take_shared:
  assumes "shared M s" "workq s \<noteq> 0" "pcs s i = C_take"
  shows "shared M (goto i (C_unlock (workq s)) (s\<lparr>workq := m_next s (workq s)\<rparr>))"
proof -
  obtain qs where "linked (m_next s) (workq s) qs" "parts M (qs @ taken s) (owned s)"
    using assms(1) by (auto simp: shared_def)
  with linked_pos [of "m_next s" "workq s" qs] assms(2) obtain qs' where
    q: "qs = workq s # qs'" "linked (m_next s) (m_next s (workq s)) qs'" "parts M (qs @ taken s) (owned s)" by auto
  have "parts M (qs' @ taken s) ((owned s)(i := workq s # owned s i))"
    by (rule parts_get [OF q(3)]) (simp add: q(1))
  moreover have "owned (goto i (C_unlock (workq s)) (s\<lparr>workq := m_next s (workq s)\<rparr>)) = (owned s)(i := workq s # owned s i)"
    using assms(3) by (auto simp: fun_eq_iff owned_plain plain_def)
  ultimately show ?thesis using q(2) by (auto simp: shared_def)
qed

lemma done_shared:
  assumes "shared M s" "pcs s i = C_unlock m"
  shows "shared M (goto i C_lock (s\<lparr>taken := taken s @ [m], holder := None\<rparr>))"
proof -
  obtain qs where q: "linked (m_next s) (workq s) qs" "parts M (qs @ taken s) (owned s)"
    using assms(1) by (auto simp: shared_def)
  have "owned s i = m # todo s i" using assms(2) by (simp add: owned_def)
  from parts_give [OF q(2) this, of "qs @ taken s @ [m]"]
  have "parts M (qs @ taken s @ [m]) ((owned s)(i := todo s i))" by simp
  moreover have "owned (goto i C_lock (s\<lparr>taken := taken s @ [m], holder := None\<rparr>)) = (owned s)(i := todo s i)"
    by (simp add: fun_eq_iff)
  ultimately show ?thesis using q(1) by (auto simp: shared_def)
qed

lemma put_shared:
  assumes "shared M s" "pcs s i = P_put" "todo s i = mp # rest"
  shows "shared M (goto i P_unlock (s\<lparr>m_next := (m_next s)(mp := workq s), workq := mp, todo := (todo s)(i := rest)\<rparr>))"
    (is "shared M ?t")
proof -
  obtain qs where q: "linked (m_next s) (workq s) qs" "parts M (qs @ taken s) (owned s)"
    using assms(1) by (auto simp: shared_def)
  have o: "owned s i = mp # rest" using assms(2,3) by (simp add: owned_plain plain_def)
  have "mp \<in> M" "0 \<notin> M" "set (owned s i) \<inter> set (qs @ taken s) = {}"
    using q(2) o unfolding parts_def by (metis UN_I UnCI iso_tuple_UNIV_I list.set_intros(1), metis+)
  then have "mp \<noteq> 0" "mp \<notin> set qs" using o by auto
  then have "linked ((m_next s)(mp := workq s)) mp (mp # qs)" using q(1) by (simp add: linked_other)
  moreover have "parts M ((mp # qs) @ taken s) ((owned s)(i := rest))" using parts_give [OF q(2) o] by simp
  moreover have "owned ?t = (owned s)(i := rest)" by (simp add: fun_eq_iff owned_def goto_def)
  ultimately show ?thesis unfolding shared_def by (intro exI [of _ "mp # qs"]) simp
qed

lemma process_inv:
  assumes "mq_inv M s" "process_step i s = Some t"
  shows "mq_inv M t"
proof (cases "pcs s i")
  case C_lock
  with assms show ?thesis by (auto simp: process_step_def plain_def critical_def consumer_def elim!: acquire_inv [rotated])
next
  case C_woken
  with assms show ?thesis by (auto simp: process_step_def plain_def critical_def consumer_def elim!: acquire_inv [rotated])
next
  case C_test
  show ?thesis
  proof (cases "workq s = 0")
    case True
    with assms(2) C_test have t: "t = goto i C_wait (s\<lparr>taken := taken s, holder := None\<rparr>)"
      by (simp add: process_step_def release_def)
    have "places t" unfolding t using assms(1) C_test by (intro release_places) (simp_all add: mq_inv_split critical_def)
    moreover have "shared M t" using assms(1) C_test
      by (auto simp: t mq_inv_split owned_move plain_def intro!: shared_same [of M s] ext)
    ultimately show ?thesis using True by (simp add: mq_inv_split awake_def t)
  next
    case False
    with assms(2) C_test have t: "t = goto i C_take s" by (simp add: process_step_def)
    with assms(1) C_test False show ?thesis
      by (auto simp: mq_inv_split plain_def critical_def consumer_def owned_move
          intro!: goto_places awake_goto intro: shared_same)
  qed
next
  case C_take
  with assms have w: "workq s \<noteq> 0" by (simp add: mq_inv_split places_def)
  with assms(2) C_take have t: "t = goto i (C_unlock (workq s)) (s\<lparr>workq := m_next s (workq s)\<rparr>)"
    by (simp add: process_step_def)
  have others: "pcs s k \<noteq> C_take" if "k \<noteq> i" for k
    using alone [of s i k] assms(1) that C_take by (auto simp: mq_inv_split critical_def)
  have "places t" using assms(1) C_take others unfolding t mq_inv_split places_def
    by (auto simp: critical_def split: if_splits)
  moreover have "shared M t" using take_shared assms(1) w C_take by (simp add: t mq_inv_split)
  moreover have "awake t" by (auto simp: t awake_def consumer_def)
  ultimately show ?thesis by (simp add: mq_inv_split)
next
  case (C_unlock m)
  with assms(2) have t: "t = goto i C_lock (s\<lparr>taken := taken s @ [m], holder := None\<rparr>)"
    by (simp add: process_step_def release_def goto_def)
  have "places t" unfolding t using assms(1) C_unlock by (intro release_places) (simp_all add: mq_inv_split critical_def)
  moreover have "shared M t" using done_shared assms(1) C_unlock by (simp add: t mq_inv_split)
  moreover have "awake t" by (auto simp: t awake_def consumer_def)
  ultimately show ?thesis by (simp add: mq_inv_split)
qed (use assms(2) in \<open>simp_all add: process_step_def\<close>)

lemma enqueue_inv:
  assumes "mq_inv M s" "enqueue_step i j s = Some t" "pcs s j = C_wait \<or> (\<forall>k. pcs s k \<noteq> C_wait)"
  shows "mq_inv M t"
proof (cases "pcs s i")
  case P_idle
  with assms(2) have t: "t = goto i P_lock s" "todo s i \<noteq> []" by (auto simp: enqueue_step_def split: if_splits)
  with assms(1) P_idle show ?thesis
    by (auto simp: mq_inv_split plain_def critical_def consumer_def owned_move
        intro!: goto_places awake_goto intro: shared_same)
next
  case P_lock
  with assms(1) have "todo s i \<noteq> []" by (simp add: mq_inv_split places_def)
  with assms P_lock show ?thesis
    by (auto simp: enqueue_step_def plain_def critical_def consumer_def elim!: acquire_inv [rotated])
next
  case P_put
  with assms(1) obtain mp rest where r: "todo s i = mp # rest" by (auto simp: mq_inv_split places_def neq_Nil_conv)
  with assms(2) P_put have t: "t = goto i P_unlock
      (s\<lparr>m_next := (m_next s)(mp := workq s), workq := mp, todo := (todo s)(i := rest)\<rparr>)"
    by (simp add: enqueue_step_def)
  have others: "pcs s k \<noteq> C_take" if "k \<noteq> i" for k
    using alone [of s i k] assms(1) that P_put by (auto simp: mq_inv_split critical_def)
  have "places t" using assms(1) P_put others unfolding t mq_inv_split places_def
    by (auto simp: critical_def split: if_splits)
  moreover have "shared M t" using put_shared assms(1) P_put r by (simp add: t mq_inv_split)
  moreover have "awake t" by (auto simp: t awake_def)
  ultimately show ?thesis by (simp add: mq_inv_split)
next
  case P_unlock
  with assms(2) have t: "t = goto i P_signal (s\<lparr>taken := taken s, holder := None\<rparr>)"
    by (simp add: enqueue_step_def release_def)
  have "places t" unfolding t using assms(1) P_unlock by (intro release_places) (simp_all add: mq_inv_split critical_def)
  moreover have "shared M t" using assms(1) P_unlock
    by (auto simp: t mq_inv_split owned_move plain_def intro!: shared_same [of M s] ext)
  moreover have "awake t" by (auto simp: t awake_def)
  ultimately show ?thesis by (simp add: mq_inv_split)
next
  case P_signal
  show ?thesis
  proof (cases "pcs s j = C_wait")
    case True
    with P_signal have ij: "i \<noteq> j" by auto
    with assms(2) P_signal True have t: "t = goto i P_idle (goto j C_woken s)" by (simp add: enqueue_step_def)
    have "places t" unfolding t using assms(1) P_signal True ij
      by (intro goto_places) (simp_all add: mq_inv_split critical_def)
    moreover have "shared M t" using assms(1) P_signal True ij
      by (auto simp: t mq_inv_split owned_move plain_def intro: shared_same)
    moreover have "awake t" using ij by (auto simp: t awake_def consumer_def)
    ultimately show ?thesis by (simp add: mq_inv_split)
  next
    case False
    with assms(2,3) P_signal have t: "t = goto i P_idle s" "\<forall>k. pcs s k \<noteq> C_wait" by (auto simp: enqueue_step_def)
    have "places t" unfolding t using assms(1) P_signal by (intro goto_places) (simp_all add: mq_inv_split critical_def)
    moreover have "shared M t" using assms(1) P_signal
      by (auto simp: t mq_inv_split owned_move plain_def intro: shared_same)
    moreover have "awake t" using t(2) by (auto simp: t(1) awake_def)
    ultimately show ?thesis by (simp add: mq_inv_split)
  qed
qed (use assms(2) in \<open>simp_all add: enqueue_step_def\<close>)

lemma mq_step_inv: "mq_step s t \<Longrightarrow> mq_inv M s \<Longrightarrow> mq_inv M t"
proof (induction rule: mq_step.induct)
  case (spurious s i)
  then have "places (goto i C_woken s)" by (intro goto_places) (simp_all add: mq_inv_split critical_def)
  moreover have "shared M (goto i C_woken s)" using spurious
    by (auto simp: mq_inv_split owned_move plain_def intro: shared_same)
  ultimately show ?case by (auto simp: mq_inv_split awake_def consumer_def)
qed (auto intro: process_inv enqueue_inv)

lemma mq_start_inv: "mq_start M s \<Longrightarrow> mq_inv M s"
proof -
  assume s: "mq_start M s"
  have "owned s i = todo s i" for i
  proof -
    have "pcs s i = C_lock \<or> pcs s i = P_idle" using s by (simp add: mq_start_def)
    then show ?thesis by (auto simp: owned_def)
  qed
  then have o: "owned s = todo s" by blast
  have "\<not> critical (pcs s i) \<and> pcs s i \<noteq> C_fault \<and> pcs s i \<noteq> C_take \<and> pcs s i \<noteq> P_lock \<and> pcs s i \<noteq> P_put" for i
  proof -
    have "pcs s i = C_lock \<or> pcs s i = P_idle" using s by (simp add: mq_start_def)
    then show ?thesis by (auto simp: critical_def)
  qed
  then have "places s" using s by (simp add: places_def mq_start_def)
  moreover have "shared M s" using s o by (auto simp: shared_def mq_start_def intro!: exI [of _ "[]"])
  ultimately show ?thesis using s by (simp add: mq_inv_split awake_def mq_start_def)
qed

interpretation messages: invariant_system "mq_start M" mq_step "mq_inv M" for M
  by unfold_locales (auto intro: mq_start_inv mq_step_inv)

section \<open>The property\<close>

text \<open>
  Claim C8. In every interleaving of readers and senders, with wake-ups without a signal: no reader
  takes from an empty list; the list is linked properly, and every message is exactly one of: in the
  list, processed, or with a thread that still has to send it or is processing it, and none is
  there twice; at most one thread is between lock and unlock; and a message in the list means that
  some reader is awake or some sender is about to signal, if there is any reader.
\<close>

theorem messages_once:
  assumes "mq_start M s" "mq_step\<^sup>*\<^sup>* s t"
  shows "(\<forall>i. pcs t i \<noteq> C_fault) \<and>
    (\<exists>qs. linked (m_next t) (workq t) qs \<and> parts M (qs @ taken t) (owned t)) \<and>
    (\<forall>i j. critical (pcs t i) \<and> critical (pcs t j) \<longrightarrow> i = j) \<and>
    (workq t = 0 \<or> (\<exists>i. pcs t i = P_unlock \<or> pcs t i = P_signal) \<or>
     (\<exists>i. consumer (pcs t i) \<and> pcs t i \<noteq> C_wait) \<or> (\<forall>i. \<not> consumer (pcs t i)))"
proof -
  have "mq_inv M t" using messages.reachable_holds [OF assms(2,1)] .
  then have "places t" "shared M t" "awake t" by (simp_all add: mq_inv_split)
  moreover have "\<forall>i j. critical (pcs t i) \<and> critical (pcs t j) \<longrightarrow> i = j"
    using alone [OF \<open>places t\<close>] by blast
  ultimately show ?thesis by (simp add: places_def shared_def awake_def)
qed

text \<open>A reader that sleeps first, and a sender of one message.\<close>

definition two_threads :: mqs where
  "two_threads = \<lparr>m_next = \<lambda>_. 0, workq = 0, holder = None,
     pcs = (\<lambda>i. if i = 0 then C_lock else P_idle), todo = (\<lambda>i. if i = 1 then [5] else []), taken = []\<rparr>"

definition asleep :: mqs where
  "asleep = \<lparr>m_next = \<lambda>_. 0, workq = 0, holder = None,
     pcs = (\<lambda>i. if i = 0 then C_wait else P_idle), todo = (\<lambda>i. if i = 1 then [5] else []), taken = []\<rparr>"

lemma two_threads_sleep: "mq_step\<^sup>*\<^sup>* two_threads asleep"
proof -
  let ?s = "goto 0 C_test (two_threads\<lparr>holder := Some 0\<rparr>)"
  have "mq_step two_threads ?s"
    by (rule mq_step.process [of 0]) (simp add: process_step_def acquire_def two_threads_def)
  moreover have "mq_step ?s asleep"
    by (rule mq_step.process [of 0])
      (auto simp: process_step_def release_def two_threads_def asleep_def goto_def fun_eq_iff)
  ultimately show ?thesis by (meson converse_rtranclp_into_rtranclp rtranclp.rtrancl_refl)
qed

lemma messages_once_witness:
  "mq_step\<^sup>*\<^sup>* two_threads asleep \<and> (\<exists>qs. linked (m_next asleep) (workq asleep) qs \<and> parts {5} (qs @ taken asleep) (owned asleep))"
proof -
  have "mq_start {5} two_threads" by (auto simp: mq_start_def two_threads_def parts_def split: if_splits)
  from messages_once [OF this two_threads_sleep] two_threads_sleep show ?thesis by blast
qed

end
