(* ===== verification/Pipes.thy ===== *)
theory Pipes
  imports Popen Signals Columns
begin

text \<open>
  The pipe programs of the fifteenth chapter: ch15_pipe.c, ch15_pipe_page.c, ch15_popen.c, the filters
  ch15_add.c and ch15_tolower.c, and ch15_pipe_add.c, which runs ch15_add as a coprocess. The reply to
  \<open>read\<close>, \<open>fgets\<close> and \<open>getchar\<close> has the characters; a read that fills the line leaves no room for
  the terminator that the programs then write.

  The property composes two programs: a parent whose pipes lead to the model of ch15_add prints the
  sum of the two numbers of every line it reads.
\<close>

section \<open>ch15_add.c, ch15_tolower.c\<close>

definition fits_int :: "int \<Rightarrow> bool" where
  "fits_int n \<longleftrightarrow> - (2 ^ 31) \<le> n \<and> n < 2 ^ 31"

text \<open>\<open>sscanf(line, "%d%d", ...) == 2\<close> and the answer; a number out of range is undefined.\<close>

definition add_reply :: "string \<Rightarrow> string result" where
  "add_reply line =
     (case scanf_d line of
        (None, _) \<Rightarrow> Inr (''invalid args'' @ [NL])
      | (Some int1, rest) \<Rightarrow>
          (case scanf_d rest of
             (None, _) \<Rightarrow> Inr (''invalid args'' @ [NL])
           | (Some int2, _) \<Rightarrow>
               if fits_int int1 \<and> fits_int int2 \<and> fits_int (int1 + int2)
               then Inr (int_string (int1 + int2) @ [NL]) else Inl IntOverflow))"

text \<open>\<open>line[n] = 0\<close> after a read of \<open>n\<close> characters.\<close>

definition terminate_line :: "reply \<Rightarrow> string result" where
  "terminate_line r =
     (if r_ret r \<ge> int MAXLINE then Inl OutOfBounds else Inr (c_str (take (nat (r_ret r)) (r_str r))))"

definition add_turn :: "'k kernel \<Rightarrow> unit \<Rightarrow> (('k, 'z) world_scheme, unit + unit) io" where
  "add_turn K _ =
     io_bind (sys_r K ''read'' [AInt 0, AInt (int MAXLINE)]) (\<lambda>r.
     if r_ret r \<le> 0 then io_return (Inr ())
     else
       io_bind (io_lift (terminate_line r)) (\<lambda>line.
       io_bind (io_lift (add_reply line)) (\<lambda>line.
       io_bind (sys K ''write'' [AInt 1, AStr line, AInt (int (length line))]) (\<lambda>n.
       if n \<noteq> int (length line) then err_sys K ''write error'' [] else io_return (Inl ())))))"

definition add_main :: "'k kernel \<Rightarrow> nat \<Rightarrow> (('k, 'z) world_scheme, unit) io" where
  "add_main K fuel = io_then (io_loop fuel (add_turn K) ()) (io_exit 0)"

definition lower :: "int \<Rightarrow> int" where
  "lower c = (if 65 \<le> c \<and> c \<le> 90 then c + 32 else c)"

definition tolower_turn :: "'k kernel \<Rightarrow> unit \<Rightarrow> (('k, 'z) world_scheme, unit + unit) io" where
  "tolower_turn K _ =
     io_bind (sys K ''getchar'' []) (\<lambda>c.
     if c = - 1 then io_return (Inr ())
     else
       let c = lower c in
       io_bind (sys K ''putchar'' [AInt c]) (\<lambda>r.
       if r = - 1 then err_sys K ''output error'' []
       else io_then (io_when (c = 10) (do_call K ''fflush'' [AStr ''stdout''])) (io_return (Inl ()))))"

definition tolower_main :: "'k kernel \<Rightarrow> nat \<Rightarrow> (('k, 'z) world_scheme, unit) io" where
  "tolower_main K fuel = io_then (io_loop fuel (tolower_turn K) ()) (io_exit 0)"

section \<open>ch15_pipe_add.c\<close>

definition SIGPIPE :: int where "SIGPIPE = 13"

definition sig_pipe :: "'k kernel \<Rightarrow> int \<Rightarrow> (('k, 'z) world_scheme, unit) io" where
  "sig_pipe K signo = io_then (printf K ''SIGPIPE caught'' []) (io_exit 1)"

text \<open>One turn of the parent: a line goes to the child, its answer to the standard output.\<close>

definition relay_turn :: "'k kernel \<Rightarrow> int \<Rightarrow> int \<Rightarrow> unit \<Rightarrow> (('k, 'z) world_scheme, unit + unit) io" where
  "relay_turn K out inp _ =
     io_bind (sys_r K ''fgets'' [AInt (int MAXLINE), AStr ''stdin'']) (\<lambda>l.
     if r_ret l = 0 then io_return (Inr ())
     else
       let n = int (length (r_str l)) in
       io_bind (catching K (sig_pipe K) ''write'' [AInt out, AStr (r_str l), AInt n]) (\<lambda>r.
       if r \<noteq> n then err_sys K ''write error to pipe'' []
       else
         io_bind (sys_r K ''read'' [AInt inp, AInt (int MAXLINE)]) (\<lambda>a.
         if r_ret a < 0 then err_sys K ''read error from pipe'' []
         else if r_ret a = 0 then io_then (err_msg K ''child closed pipe'' []) (io_return (Inr ()))
         else
           io_bind (io_lift (terminate_line a)) (\<lambda>line.
           io_bind (sys K ''fputs'' [AStr line, AStr ''stdout'']) (\<lambda>r.
           if r = - 1 then err_sys K ''fputs error'' [] else io_return (Inl ()))))))"

definition dup_onto :: "'k kernel \<Rightarrow> int \<Rightarrow> int \<Rightarrow> string \<Rightarrow> (('k, 'z) world_scheme, unit) io" where
  "dup_onto K fd std msg =
     io_when (fd \<noteq> std)
       (io_bind (sys K ''dup2'' [AInt fd, AInt std]) (\<lambda>r.
        if r \<noteq> std then err_sys K msg [] else do_call K ''close'' [AInt fd]))"

definition exec_or_quit :: "'k kernel \<Rightarrow> arg list \<Rightarrow> string \<Rightarrow> arg list \<Rightarrow> (('k, 'z) world_scheme, unit) io" where
  "exec_or_quit K args msg margs = io_then (exec K ''execl'' args) (err_sys K msg margs)"

definition pipe_add_main :: "'k kernel \<Rightarrow> nat \<Rightarrow> (('k, 'z) world_scheme, unit) io" where
  "pipe_add_main K fuel =
     io_bind (signal K SIGPIPE (APtr ''sig_pipe'')) (\<lambda>r.
     if r = SIG_ERR then err_sys K ''signal error'' []
     else
       io_bind (sys_r K ''pipe'' [APtr ''fd1'']) (\<lambda>fd1.
       io_bind (if r_ret fd1 < 0 then io_return fd1 else sys_r K ''pipe'' [APtr ''fd2'']) (\<lambda>fd2.
       if r_ret fd2 < 0 then err_sys K ''pipe error'' []
       else
         io_bind (sys K ''fork'' []) (\<lambda>pid.
         if pid < 0 then err_sys K ''fork error'' []
         else if pid > 0 then
           io_then (io_seq [do_call K ''close'' [AInt (int_at fd1 0)], do_call K ''close'' [AInt (int_at fd2 1)]])
           (io_then (io_loop fuel (relay_turn K (int_at fd1 1) (int_at fd2 0)) ())
           (io_bind (sys K ''ferror'' [AStr ''stdin'']) (\<lambda>e.
            if e \<noteq> 0 then err_sys K ''fgets error no stdin'' [] else io_exit 0)))
         else
           io_seq
             [do_call K ''close'' [AInt (int_at fd1 1)], do_call K ''close'' [AInt (int_at fd2 0)],
              dup_onto K (int_at fd1 0) 0 ''dup2 error to stdin'', dup_onto K (int_at fd2 1) 1 ''dup2 error to stdout'',
              exec_or_quit K [AStr ''./ch15_add'', AStr ''ch15_add''] ''execl error'' [], io_exit 0]))))"

section \<open>ch15_pipe.c, ch15_pipe_page.c, ch15_popen.c\<close>

definition pipe_main :: "'k kernel \<Rightarrow> (('k, 'z) world_scheme, unit) io" where
  "pipe_main K =
     io_bind (sys_r K ''pipe'' [APtr ''fd'']) (\<lambda>fd.
     if r_ret fd < 0 then err_sys K ''pipe error'' []
     else
       io_bind (sys K ''fork'' []) (\<lambda>pid.
       if pid < 0 then err_sys K ''fork error'' []
       else
         io_then
           (if pid > 0 then
              io_seq
                [do_call K ''close'' [AInt (int_at fd 0)],
                 do_call K ''write'' [AInt (int_at fd 1), AStr (''hello world,from parent'' @ [NL]), AInt 24]]
            else
              io_then (do_call K ''close'' [AInt (int_at fd 1)])
              (io_bind (sys_r K ''read'' [AInt (int_at fd 0), AInt (int MAXLINE)]) (\<lambda>r.
               do_call K ''write'' [AInt 1, AStr (r_str r), AInt (r_ret r)])))
           (io_exit 0)))"

text \<open>A file line by line into a descriptor or a stream.\<close>

definition page_turn :: "'k kernel \<Rightarrow> int \<Rightarrow> int \<Rightarrow> unit \<Rightarrow> (('k, 'z) world_scheme, unit + unit) io" where
  "page_turn K fp fd _ =
     io_bind (sys_r K ''fgets'' [AInt (int MAXLINE), AInt fp]) (\<lambda>l.
     if r_ret l = 0 then io_return (Inr ())
     else
       let n = int (length (r_str l)) in
       io_bind (sys K ''write'' [AInt fd, AStr (r_str l), AInt n]) (\<lambda>r.
       if r \<noteq> n then err_sys K ''write error to pipe'' [] else io_return (Inl ())))"

definition after_slash :: "string \<Rightarrow> string" where
  "after_slash page =
     (if CHR ''/'' \<in> set page then rev (takeWhile (\<lambda>c. c \<noteq> CHR ''/'') (rev page)) else page)"

definition pager_child :: "'k kernel \<Rightarrow> int \<Rightarrow> int \<Rightarrow> (('k, 'z) world_scheme, unit) io" where
  "pager_child K fd0 fd1 =
     io_then (io_seq [do_call K ''close'' [AInt fd1], dup_onto K fd0 0 ''dup2 error to stdin''])
     (io_bind (sys_r K ''getenv'' [AStr ''PAGER'']) (\<lambda>v.
      let page = (if r_ret v = 0 then ''/bin/more'' else r_str v) in
      exec_or_quit K [AStr ''/bin/sh'', AStr ''sh'', AStr ''-c'', AStr (after_slash page)]
        ''execl error form %s'' [AStr page]))"

definition pipe_page_main :: "'k kernel \<Rightarrow> nat \<Rightarrow> string list \<Rightarrow> (('k, 'z) world_scheme, unit) io" where
  "pipe_page_main K fuel argv =
     (if length argv \<noteq> 2 then err_quit K ''usage: a.out <pathname>'' []
      else
        io_bind (sys K ''fopen'' [AStr (argv ! 1), AStr ''r'']) (\<lambda>fp.
        if fp = 0 then err_sys K ''can't open %s'' [AStr (argv ! 1)]
        else
          io_bind (sys_r K ''pipe'' [APtr ''fd'']) (\<lambda>fd.
          if r_ret fd < 0 then err_sys K ''pipe error'' []
          else
            io_bind (sys K ''fork'' []) (\<lambda>pid.
            if pid < 0 then err_sys K ''fork error'' []
            else if pid > 0 then
              io_then (do_call K ''close'' [AInt (int_at fd 0)])
              (io_then (io_loop fuel (page_turn K fp (int_at fd 1)) ())
              (io_bind (sys K ''ferror'' [AInt fp]) (\<lambda>e.
               if e \<noteq> 0 then err_sys K ''fgets error'' []
               else
                 io_then (do_call K ''close'' [AInt (int_at fd 1)])
                 (io_bind (sys K ''waitpid'' [AInt pid, ANull, AInt 0]) (\<lambda>r.
                  if r < 0 then err_sys K ''waitpid error'' [] else io_exit 0)))))
            else io_then (pager_child K (int_at fd 0) (int_at fd 1)) (io_exit 0)))))"

text \<open>\<open>popen\<close> and \<open>pclose\<close> are the library's of this repository.\<close>

definition popen_turn :: "'k kernel \<Rightarrow> int \<Rightarrow> int \<Rightarrow> unit \<Rightarrow> ('k pop, unit + unit) io" where
  "popen_turn K fpin fpout _ =
     io_bind (sys_r K ''fgets'' [AInt (int MAXLINE), AInt fpin]) (\<lambda>l.
     if r_ret l = 0 then io_return (Inr ())
     else
       io_bind (sys K ''fputs'' [AStr (r_str l), AInt fpout]) (\<lambda>r.
       if r = - 1 then err_sys K ''fputs error to pipe'' [] else io_return (Inl ())))"

definition ch15_popen_main :: "'k kernel \<Rightarrow> nat \<Rightarrow> string list \<Rightarrow> ('k pop, unit) io" where
  "ch15_popen_main K fuel argv =
     (if length argv \<noteq> 2 then err_quit K ''usage: a.out <pathname>'' []
      else
        io_bind (sys K ''fopen'' [AStr (argv ! 1), AStr ''r'']) (\<lambda>fpin.
        if fpin = 0 then err_sys K ''can't open %s'' [AStr (argv ! 1)]
        else
          io_then (printf K ''PAGER = %s'' [AStr ''${PAGER:-more}''])
          (io_bind (popen K ''${PAGER:-more}'' ''w'') (\<lambda>fpout.
           if fpout = 0 then err_sys K ''popen error'' []
           else
             io_then (io_loop fuel (popen_turn K fpin fpout) ())
             (io_bind (sys K ''ferror'' [AInt fpin]) (\<lambda>e.
              if e \<noteq> 0 then err_sys K ''fgets error'' []
              else
                io_bind (pclose K fuel fpout) (\<lambda>r.
                if r = - 1 then err_sys K ''pclose error'' [] else io_exit 0)))))))"

section \<open>Printing and scanning numbers\<close>

lemma of_char_digit: "m < 10 \<Longrightarrow> (of_char (char_of (48 + m) :: char) :: nat) = 48 + m" for m :: nat
  by simp

lemma digit_is_digit: "m < 10 \<Longrightarrow> is_digit (char_of (48 + m))" for m :: nat
  using of_char_digit [of m] by (simp add: is_digit_def)

lemma dec_string_digits: "\<forall>c \<in> set (dec_string n). is_digit c"
proof (induction n rule: dec_string.induct)
  case (1 n)
  then show ?case
    using digit_is_digit [of n] digit_is_digit [of "n mod 10"] by (subst dec_string.simps) simp
qed

lemma dec_string_nonempty: "dec_string n \<noteq> []"
  by (subst dec_string.simps) simp

lemma length_dec_string: "n < 10 ^ Suc k \<Longrightarrow> length (dec_string n) \<le> Suc k"
proof (induction k arbitrary: n)
  case 0
  then show ?case by (subst dec_string.simps) simp
next
  case (Suc k)
  show ?case
  proof (cases "n < 10")
    case False
    have "n div 10 < 10 ^ Suc k" using Suc.prems by simp
    from Suc.IH [OF this] False show ?thesis by (subst dec_string.simps) simp
  qed (subst dec_string.simps, simp)
qed

lemma length_int_string:
  assumes "fits_int n"
  shows "length (int_string n) \<le> 11"
proof -
  have len: "length (dec_string m) \<le> 10" if "m \<le> 2 ^ 31" for m :: nat
    using length_dec_string [of m 9] that by simp
  have "nat n \<le> 2 ^ 31" "nat (- n) \<le> 2 ^ 31" using assms by (auto simp: fits_int_def)
  from len [OF this(1)] len [OF this(2)] show ?thesis by (simp add: int_string_def)
qed

lemma is_digit_not_space: "is_digit c \<Longrightarrow> \<not> is_space c"
  by (auto simp: is_digit_def is_space_def)

lemma is_digit_not_sign: "is_digit c \<Longrightarrow> c \<noteq> CHR ''-'' \<and> c \<noteq> CHR ''+''"
  by (auto simp: is_digit_def)

lemma scan_digits:
  assumes "ds \<noteq> []" "\<forall>c \<in> set ds. is_digit c" "\<not> is_digit c"
  shows "takeWhile is_digit (ds @ c # rest) = ds" "dropWhile is_digit (ds @ c # rest) = c # rest"
  using assms by (auto simp: takeWhile_append dropWhile_append)

lemma scanf_d_int_string:
  assumes "\<not> is_digit c"
  shows "scanf_d (int_string n @ c # rest) = (Some n, c # rest)"
proof -
  have d: "takeWhile is_digit (dec_string m @ c # rest) = dec_string m"
    "dropWhile is_digit (dec_string m @ c # rest) = c # rest" for m
    using scan_digits [OF dec_string_nonempty dec_string_digits assms] by blast+
  have first: "\<exists>x xs. dec_string m = x # xs \<and> is_digit x" for m
    using dec_string_nonempty [of m] dec_string_digits [of m] by (cases "dec_string m") auto
  show ?thesis
  proof (cases "n < 0")
    case True
    then show ?thesis
      using d [of "nat (- n)"] dec_string_nonempty [of "nat (- n)"]
      by (simp add: int_string_def scanf_d_def scan_sign_def is_space_def dec_value_string)
  next
    case False
    obtain x xs where x: "dec_string (nat n) = x # xs" "is_digit x" using first by blast
    have "dropWhile is_space (dec_string (nat n) @ c # rest) = dec_string (nat n) @ c # rest"
      using x is_digit_not_space by simp
    moreover have "scan_sign (dec_string (nat n) @ c # rest) = (1, dec_string (nat n) @ c # rest)"
      using x is_digit_not_sign by (simp add: scan_sign_def)
    ultimately show ?thesis
      using False d [of "nat n"] dec_string_nonempty [of "nat n"]
      by (simp add: int_string_def scanf_d_def dec_value_string)
  qed
qed

lemma scanf_d_blank: "is_space c \<Longrightarrow> scanf_d (c # s) = scanf_d s"
  by (simp add: scanf_d_def)

definition line_of :: "int \<times> int \<Rightarrow> string" where
  "line_of p = int_string (fst p) @ CHR '' '' # int_string (snd p) @ [NL]"

lemma add_reply_line:
  assumes "fits_int (fst p)" "fits_int (snd p)" "fits_int (fst p + snd p)"
  shows "add_reply (line_of p) = Inr (int_string (fst p + snd p) @ [NL])"
proof -
  have "\<not> is_digit (CHR '' '')" "\<not> is_digit NL" "is_space (CHR '' '')" by (simp_all add: is_digit_def is_space_def)
  then show ?thesis
    using assms by (simp add: add_reply_def line_of_def scanf_d_int_string scanf_d_blank)
qed

section \<open>The coprocess\<close>

text \<open>
  The child: its standard input has lines still to be read, its output is collected. The parent: the
  lines of its standard input, what the child has written and is still to be read, and its output. A line
  written to the pipe is answered by a turn of the model of ch15_add.
\<close>

definition text_reply :: "string \<Rightarrow> reply" where
  "text_reply s = (ret_only (int (length s)))\<lparr>r_str := s\<rparr>"

definition child_kernel :: "(string list \<times> string list) kernel" where
  "child_kernel c k =
     (case (c, k) of ((nm, args), (ins, outs)) \<Rightarrow>
        if nm = ''read'' then
          (case ins of [] \<Rightarrow> (ret_only 0, k) | l # ls \<Rightarrow> (text_reply l, (ls, outs)))
        else if nm = ''write'' then
          (case args of
             [AInt fd, AStr s, AInt n] \<Rightarrow> (ret_only n, (ins, outs @ [s]))
           | _ \<Rightarrow> (ret_only (- 1), k))
        else (ret_only 0, k))"

definition answer_of :: "string \<Rightarrow> string option" where
  "answer_of l =
     (case add_turn child_kernel () (start ([l], [])) of
        (Ok (Inl _), w) \<Rightarrow> Some (concat (snd (w_kern w)))
      | _ \<Rightarrow> None)"

definition coproc :: "(string list \<times> string list \<times> string list) kernel" where
  "coproc c k =
     (case (c, k) of ((nm, args), (ins, pend, outs)) \<Rightarrow>
        if nm = ''fgets'' then
          (case ins of [] \<Rightarrow> (ret_only 0, k) | l # ls \<Rightarrow> ((ret_only 1)\<lparr>r_str := l\<rparr>, (ls, pend, outs)))
        else if nm = ''write'' then
          (case args of
             [AInt fd, AStr s, AInt n] \<Rightarrow>
               (case answer_of s of None \<Rightarrow> (ret_only n, k) | Some a \<Rightarrow> (ret_only n, (ins, pend @ [a], outs)))
           | _ \<Rightarrow> (ret_only (- 1), k))
        else if nm = ''read'' then
          (case pend of [] \<Rightarrow> (ret_only 0, k) | a # as \<Rightarrow> (text_reply a, (ins, as, outs)))
        else if nm = ''fputs'' then
          (case args of [AStr s, AStr f] \<Rightarrow> (ret_only 1, (ins, pend, outs @ [s])) | _ \<Rightarrow> (ret_only (- 1), k))
        else (ret_only 0, k))"

lemma no_NUL_int_string: "NUL \<notin> set (int_string n)"
proof -
  have "\<not> is_digit NUL" by (simp add: is_digit_def)
  then show ?thesis using dec_string_digits by (auto simp: int_string_def)
qed

lemma c_str_id: "NUL \<notin> set s \<Longrightarrow> c_str s = s"
  by (auto simp: c_str_def takeWhile_eq_all_conv)

lemma terminate_text:
  "NUL \<notin> set s \<Longrightarrow> length s < MAXLINE \<Longrightarrow> terminate_line (text_reply s) = Inr s"
  by (simp add: terminate_line_def text_reply_def ret_only_def c_str_id)

lemma line_of_text:
  assumes "fits_int (fst p)" "fits_int (snd p)"
  shows "NUL \<notin> set (line_of p)" "length (line_of p) < MAXLINE" "line_of p \<noteq> []"
  using no_NUL_int_string length_int_string [OF assms(1)] length_int_string [OF assms(2)]
  by (auto simp: line_of_def MAXLINE_def)

lemma answer_of_line:
  assumes "fits_int (fst p)" "fits_int (snd p)" "fits_int (fst p + snd p)"
  shows "answer_of (line_of p) = Some (int_string (fst p + snd p) @ [NL])"
proof -
  have "0 < r_ret (text_reply (line_of p))"
    using line_of_text(3) [OF assms(1,2)] by (simp add: text_reply_def ret_only_def)
  then show ?thesis
    using terminate_text [OF line_of_text(1,2) [OF assms(1,2)]] add_reply_line [OF assms]
    by (simp add: answer_of_def add_turn_def sys_def io_bind_def sys_r_run child_kernel_def start_def ret_only_def)
qed

lemma relay_run:
  assumes "fits_int (fst p)" "fits_int (snd p)" "fits_int (fst p + snd p)"
    and w: "w_kern w = (line_of p # ls, [], outs)"
  shows "\<exists>w'. relay_turn coproc fd1 fd2 () w = (Ok (Inl ()), w') \<and>
     w_kern w' = (ls, [], outs @ [int_string (fst p + snd p) @ [NL]])"
proof -
  let ?a = "int_string (fst p + snd p) @ [NL]"
  have a: "terminate_line (text_reply ?a) = Inr ?a"
    using no_NUL_int_string length_int_string [OF assms(3)] by (intro terminate_text) (auto simp: MAXLINE_def)
  have r: "0 < r_ret (text_reply ?a)" by (simp add: text_reply_def ret_only_def)
  show ?thesis
    using w a r answer_of_line [OF assms(1-3)]
    by (simp add: relay_turn_def Let_def catching_def sys_def io_then_def io_bind_def sys_r_run coproc_def ret_only_def)
qed

text \<open>
  Claim C15. The parent of ch15_pipe_add.c, with its pipes to ch15_add: for lines that hold two numbers
  whose sum is in the range of \<open>int\<close>, it prints their sums, line by line, and ends its loop at the end of
  the input, in one turn more than there are lines.
\<close>

theorem coprocess_adds:
  assumes "\<forall>p \<in> set ps. fits_int (fst p) \<and> fits_int (snd p) \<and> fits_int (fst p + snd p)"
    and "w_kern w = (map line_of ps, [], outs)" "length ps < fuel"
  shows "\<exists>w'. io_loop fuel (relay_turn coproc fd1 fd2) () w = (Ok (), w') \<and>
     w_kern w' = ([], [], outs @ map (\<lambda>p. int_string (fst p + snd p) @ [NL]) ps)"
  using assms
proof (induction ps arbitrary: w outs fuel)
  case Nil
  then obtain n where "fuel = Suc n" by (cases fuel) auto
  moreover have "\<exists>w'. relay_turn coproc fd1 fd2 () w = (Ok (Inr ()), w') \<and> w_kern w' = ([], [], outs)"
    using Nil.prems(2) by (simp add: relay_turn_def io_bind_def sys_r_run coproc_def ret_only_def)
  ultimately show ?case by (auto simp: io_bind_def)
next
  case (Cons p ps)
  then obtain n where n: "fuel = Suc n" "length ps < n" by (cases fuel) auto
  obtain w1 where 1: "relay_turn coproc fd1 fd2 () w = (Ok (Inl ()), w1)"
    "w_kern w1 = (map line_of ps, [], outs @ [int_string (fst p + snd p) @ [NL]])"
    using relay_run [of p w "map line_of ps" outs fd1 fd2] Cons.prems(1,2) by auto
  from Cons.IH [OF _ 1(2) n(2)] Cons.prems(1) 1(1) n(1) show ?case by (simp add: io_bind_def)
qed

lemma coprocess_adds_witness:
  "\<exists>w'. io_loop 3 (relay_turn coproc 4 5) () (start (map line_of [(1, 2), (- 7, 40)], [], [])) = (Ok (), w') \<and>
     w_kern w' = ([], [], map (\<lambda>p. int_string (fst p + snd p) @ [NL]) [(1, 2), (- 7, 40)])"
  using coprocess_adds [of "[(1, 2), (- 7, 40)]" "start (map line_of [(1, 2), (- 7, 40)], [], [])" "[]" 3 4 5]
  by (simp add: fits_int_def start_def)

end
