(* ===== verification/Streams.thy ===== *)
theory Streams
  imports Columns TellWait
begin

text \<open>
  Programs that pass their input on: ch01_copy.c and ch03_write.c by blocks, ch01_rw.c and
  ch05_getc_putc.c by characters, ch05_fgets.c by lines, ch14_nonblock.c with a descriptor that does
  not block; and the two small shells ch01_rexec.c and ch01_signal.c. The reply to \<open>read\<close> has the
  bytes, the reply to \<open>fgets\<close> the characters it stored in front of the terminator.

  The properties: on a device that answers as the manual says the copying programs all write exactly
  what they read; a slow device gets every byte once and in order, whatever part of a write it accepts.
\<close>

section \<open>By blocks: ch01_copy.c, ch03_write.c\<close>

definition BUFFSIZE :: nat where "BUFFSIZE = 4096"

definition copy_turn :: "'k kernel \<Rightarrow> unit \<Rightarrow> (('k, 'z) world_scheme, unit + int) io" where
  "copy_turn K _ =
     io_bind (sys_r K ''read'' [AInt 0, AInt (int BUFFSIZE)]) (\<lambda>r.
     let n = r_ret r in
     if n > 0 then
       io_bind (sys K ''write'' [AInt 1, ABytes (take (nat n) (r_bytes r)), AInt n]) (\<lambda>m.
       if m \<noteq> n then err_sys K ''write error'' [] else io_return (Inl ()))
     else io_return (Inr n))"

definition copy_main :: "'k kernel \<Rightarrow> nat \<Rightarrow> (('k, 'z) world_scheme, unit) io" where
  "copy_main K fuel =
     io_bind (io_loop fuel (copy_turn K) ()) (\<lambda>n.
     if n < 0 then err_sys K ''read error'' [] else io_exit 0)"

text \<open>ch03_write.c repeats the text of ch01_copy.c.\<close>

definition ch03_write_main :: "'k kernel \<Rightarrow> nat \<Rightarrow> (('k, 'z) world_scheme, unit) io" where
  "ch03_write_main K fuel =
     io_bind (io_loop fuel (copy_turn K) ()) (\<lambda>n.
     if n < 0 then err_sys K ''read error'' [] else io_exit 0)"

section \<open>By characters: ch01_rw.c, ch05_getc_putc.c\<close>

definition EOF :: int where "EOF = - 1"

definition rw_turn :: "'k kernel \<Rightarrow> unit \<Rightarrow> (('k, 'z) world_scheme, unit + unit) io" where
  "rw_turn K _ =
     io_bind (sys K ''getc'' [AStr ''stdin'']) (\<lambda>c.
     if c \<noteq> EOF then
       io_bind (sys K ''putc'' [AInt c, AStr ''stdout'']) (\<lambda>r.
       if r = EOF then err_sys K ''output error'' [] else io_return (Inl ()))
     else io_return (Inr ()))"

definition rw_main :: "'k kernel \<Rightarrow> nat \<Rightarrow> (('k, 'z) world_scheme, unit) io" where
  "rw_main K fuel =
     io_bind (io_loop fuel (rw_turn K) ()) (\<lambda>_.
     io_bind (sys K ''ferror'' [AStr ''stdin'']) (\<lambda>e.
     if e \<noteq> 0 then err_sys K ''input error'' [] else io_exit 0))"

text \<open>ch05_getc_putc.c repeats the text of ch01_rw.c.\<close>

definition getc_putc_main :: "'k kernel \<Rightarrow> nat \<Rightarrow> (('k, 'z) world_scheme, unit) io" where
  "getc_putc_main K fuel =
     io_bind (io_loop fuel (rw_turn K) ()) (\<lambda>_.
     io_bind (sys K ''ferror'' [AStr ''stdin'']) (\<lambda>e.
     if e \<noteq> 0 then err_sys K ''input error'' [] else io_exit 0))"

section \<open>By lines: ch05_fgets.c\<close>

definition fgets_turn :: "'k kernel \<Rightarrow> unit \<Rightarrow> (('k, 'z) world_scheme, unit + unit) io" where
  "fgets_turn K _ =
     io_bind (sys_r K ''fgets'' [AInt (int MAXLINE), AStr ''stdin'']) (\<lambda>l.
     if r_ret l \<noteq> 0 then
       io_bind (sys K ''fputs'' [AStr (c_str (r_str l)), AStr ''stdout'']) (\<lambda>r.
       if r = EOF then err_sys K ''output error'' [] else io_return (Inl ()))
     else io_return (Inr ()))"

definition fgets_main :: "'k kernel \<Rightarrow> nat \<Rightarrow> (('k, 'z) world_scheme, unit) io" where
  "fgets_main K fuel =
     io_bind (io_loop fuel (fgets_turn K) ()) (\<lambda>_.
     io_bind (sys K ''ferror'' [AStr ''stdin'']) (\<lambda>e.
     if e \<noteq> 0 then err_sys K ''input error'' [] else io_exit 0))"

section \<open>Without blocking: ch14_nonblock.c\<close>

text \<open>The state of the loop: what \<open>ptr\<close> points to and \<open>ntowrite\<close>.\<close>

definition nonblock_turn ::
  "'k kernel \<Rightarrow> byte list \<times> int \<Rightarrow> (('k, 'z) world_scheme, (byte list \<times> int) + unit) io" where
  "nonblock_turn K st =
     (case st of (ptr, ntowrite) \<Rightarrow>
        if ntowrite > 0 then
          io_then (set_errno 0)
          (io_bind (sys K ''write'' [AInt 1, ABytes (take (nat ntowrite) ptr), AInt ntowrite]) (\<lambda>nwrite.
           io_bind get_errno (\<lambda>e.
           io_then (eprintf K ''nwrite = %d, errno = %d'' [AInt nwrite, AInt e])
           (io_return
              (Inl (if nwrite > 0 then (drop (nat nwrite) ptr, ntowrite - nwrite) else (ptr, ntowrite)))))))
        else io_return (Inr ()))"

definition nonblock_main :: "'k kernel \<Rightarrow> nat \<Rightarrow> (('k, 'z) world_scheme, unit) io" where
  "nonblock_main K fuel =
     io_bind (sys_r K ''read'' [AInt 0, AInt 500000]) (\<lambda>r.
     let ntowrite = r_ret r in
     io_then (eprintf K ''read %d bytes'' [AInt ntowrite])
     (io_then (set_fl K 1 O_NONBLOCK)
     (io_then (io_loop fuel (nonblock_turn K) (take (nat ntowrite) (r_bytes r), ntowrite))
     (io_then (clr_fl K 1 O_NONBLOCK) (io_exit 0)))))"

section \<open>Small shells: ch01_rexec.c, ch01_signal.c\<close>

text \<open>
  The newline is replaced by the terminator. The access \<open>buf[strlen(buf) - 1]\<close> leaves the buffer when
  the line starts with a NUL character.
\<close>

definition chomp :: "string \<Rightarrow> string result" where
  "chomp line =
     (let buf = c_str line in
      if buf = [] then Inl OutOfBounds
      else if last buf = NL then Inr (butlast buf) else Inr buf)"

definition run_program :: "'k kernel \<Rightarrow> string \<Rightarrow> (('k, 'z) world_scheme, unit) io" where
  "run_program K buf =
     io_then (exec K ''execlp'' [AStr buf, AStr buf, ANull])
     (io_then (err_ret K ''couldn't execute: %S'' [AStr buf]) (io_exit 127))"

definition rexec_turn :: "'k kernel \<Rightarrow> unit \<Rightarrow> (('k, 'z) world_scheme, unit + unit) io" where
  "rexec_turn K _ =
     io_bind (sys_r K ''fgets'' [AInt (int MAXLINE), AStr ''stdin'']) (\<lambda>l.
     if r_ret l = 0 then io_return (Inr ())
     else
       io_bind (io_lift (chomp (r_str l))) (\<lambda>buf.
       io_bind (sys K ''fork'' []) (\<lambda>pid.
       io_then
         (if pid < 0 then err_sys K ''fork error'' []
          else if pid = 0 then run_program K buf else io_return ())
       (io_bind (sys K ''waitpid'' [AInt pid, AInt 0]) (\<lambda>pid.
        if pid < 0 then err_sys K ''waitpid error'' []
        else io_then (printf K ''%%'' []) (io_return (Inl ())))))))"

definition rexec_main :: "'k kernel \<Rightarrow> nat \<Rightarrow> (('k, 'z) world_scheme, unit) io" where
  "rexec_main K fuel =
     io_then (printf K ''%%'' [])
     (io_then (io_loop fuel (rexec_turn K) ()) (io_exit 0))"

text \<open>The same with a handler: signals arrive while the shell reads or waits.\<close>

definition prompt_sig_int :: "'k kernel \<Rightarrow> int \<Rightarrow> (('k, 'z) world_scheme, unit) io" where
  "prompt_sig_int K signo = printf K (''signo = %d interrupt'' @ [NL] @ ''%%'') [AInt signo]"

definition signal_turn :: "'k kernel \<Rightarrow> unit \<Rightarrow> (('k, 'z) world_scheme, unit + unit) io" where
  "signal_turn K _ =
     io_bind (sys_r K ''fgets'' [AInt (int MAXLINE), AStr ''stdin'']) (\<lambda>l.
     io_then (io_each (prompt_sig_int K) (r_ints l))
     (if r_ret l = 0 then io_return (Inr ())
      else
        io_bind (io_lift (chomp (r_str l))) (\<lambda>buf.
        io_bind (sys K ''fork'' []) (\<lambda>pid.
        io_then
          (if pid < 0 then err_sys K ''fork error'' []
           else if pid = 0 then run_program K buf else io_return ())
        (io_bind (catching K (prompt_sig_int K) ''waitpid'' [AInt pid, AInt 0]) (\<lambda>pid.
         if pid < 0 then err_sys K ''waitpid error'' []
         else io_then (printf K ''%%'' []) (io_return (Inl ()))))))))"

definition ch01_signal_main :: "'k kernel \<Rightarrow> nat \<Rightarrow> (('k, 'z) world_scheme, unit) io" where
  "ch01_signal_main K fuel =
     io_bind (signal K SIGINT (APtr ''sig_int'')) (\<lambda>r.
     if r = SIG_ERR then err_sys K ''signal error'' []
     else
       io_then (printf K ''%%'' [])
       (io_then (io_loop fuel (signal_turn K) ()) (io_exit 0)))"
section \<open>Devices\<close>

text \<open>
  A device answers as the manual says: what is still to be read and what has been written are the
  observations \<open>inp\<close> and \<open>out\<close> of the kernel's state. A read delivers some bytes, none only at the end;
  \<open>fgets\<close> a line, cut to the length of the buffer; everything written is accepted.
\<close>

fun line_upto :: "nat \<Rightarrow> byte list \<Rightarrow> byte list" where
  "line_upto 0 bs = []"
| "line_upto (Suc n) [] = []"
| "line_upto (Suc n) (b # bs) = b # (if b = 10 then [] else line_upto n bs)"

definition byte_char :: "byte \<Rightarrow> char" where
  "byte_char b = char_of (unat b)"

definition delivers :: "('k \<Rightarrow> byte list) \<Rightarrow> ('k \<Rightarrow> byte list) \<Rightarrow> nat \<Rightarrow> byte list \<Rightarrow> 'k \<Rightarrow> 'k \<Rightarrow> bool" where
  "delivers inp out n bs k k' \<longleftrightarrow> inp k' = drop n (inp k) \<and> out k' = out k @ bs"

definition device :: "'k kernel \<Rightarrow> ('k \<Rightarrow> byte list) \<Rightarrow> ('k \<Rightarrow> byte list) \<Rightarrow> bool" where
  "device K inp out \<longleftrightarrow>
     (\<forall>k len. 0 < len \<longrightarrow> (\<exists>n. n \<le> nat len \<and> n \<le> length (inp k) \<and> (n = 0 \<longrightarrow> inp k = []) \<and>
        r_ret (fst (K (''read'', [AInt 0, AInt len]) k)) = int n \<and>
        r_bytes (fst (K (''read'', [AInt 0, AInt len]) k)) = take n (inp k) \<and>
        delivers inp out n [] k (snd (K (''read'', [AInt 0, AInt len]) k)))) \<and>
     (\<forall>k bs. r_ret (fst (K (''write'', [AInt 1, ABytes bs, AInt (int (length bs))]) k)) = int (length bs) \<and>
        delivers inp out 0 bs k (snd (K (''write'', [AInt 1, ABytes bs, AInt (int (length bs))]) k))) \<and>
     (\<forall>k. r_ret (fst (K (''getc'', [AStr ''stdin'']) k)) = (case inp k of [] \<Rightarrow> - 1 | b # _ \<Rightarrow> uint b) \<and>
        delivers inp out 1 [] k (snd (K (''getc'', [AStr ''stdin'']) k))) \<and>
     (\<forall>k c. r_ret (fst (K (''putc'', [AInt c, AStr ''stdout'']) k)) = c \<and>
        delivers inp out 0 [word_of_int c] k (snd (K (''putc'', [AInt c, AStr ''stdout'']) k))) \<and>
     (\<forall>k len. 1 < len \<longrightarrow> (let line = line_upto (nat len - 1) (inp k) in
        (r_ret (fst (K (''fgets'', [AInt len, AStr ''stdin'']) k)) = 0 \<longleftrightarrow> inp k = []) \<and>
        r_str (fst (K (''fgets'', [AInt len, AStr ''stdin'']) k)) = map byte_char line \<and>
        delivers inp out (length line) [] k (snd (K (''fgets'', [AInt len, AStr ''stdin'']) k)))) \<and>
     (\<forall>k s. r_ret (fst (K (''fputs'', [AStr s, AStr ''stdout'']) k)) \<noteq> - 1 \<and>
        delivers inp out 0 (chars_bytes s) k (snd (K (''fputs'', [AStr s, AStr ''stdout'']) k))) \<and>
     (\<forall>k. r_ret (fst (K (''ferror'', [AStr ''stdin'']) k)) = 0 \<and>
        delivers inp out 0 [] k (snd (K (''ferror'', [AStr ''stdin'']) k)))"

lemma ex_pair: "(\<exists>r k'. p = (r, k') \<and> P r k') \<longleftrightarrow> P (fst p) (snd p)"
  by (cases p) auto

lemma device_read:
  assumes "device K inp out" "0 < len"
  obtains n r k' where "K (''read'', [AInt 0, AInt len]) k = (r, k')" "n \<le> nat len" "n \<le> length (inp k)"
    "n = 0 \<longrightarrow> inp k = []" "r_ret r = int n" "r_bytes r = take n (inp k)" "delivers inp out n [] k k'"
proof -
  have "\<exists>n. n \<le> nat len \<and> n \<le> length (inp k) \<and> (n = 0 \<longrightarrow> inp k = []) \<and>
      r_ret (fst (K (''read'', [AInt 0, AInt len]) k)) = int n \<and>
      r_bytes (fst (K (''read'', [AInt 0, AInt len]) k)) = take n (inp k) \<and>
      delivers inp out n [] k (snd (K (''read'', [AInt 0, AInt len]) k))"
    using assms unfolding device_def by blast
  then show thesis using that by (metis prod.collapse)
qed

lemma deviceD:
  assumes "device K inp out"
  shows "\<exists>r k'. K (''write'', [AInt 1, ABytes bs, AInt (int (length bs))]) k = (r, k') \<and> r_ret r = int (length bs) \<and>
      delivers inp out 0 bs k k'"
    "\<exists>r k'. K (''getc'', [AStr ''stdin'']) k = (r, k') \<and> r_ret r = (case inp k of [] \<Rightarrow> - 1 | b # _ \<Rightarrow> uint b) \<and>
      delivers inp out 1 [] k k'"
    "\<exists>r k'. K (''putc'', [AInt c, AStr ''stdout'']) k = (r, k') \<and> r_ret r = c \<and>
      delivers inp out 0 [word_of_int c] k k'"
    "1 < len \<Longrightarrow> \<exists>r k'. K (''fgets'', [AInt len, AStr ''stdin'']) k = (r, k') \<and> (r_ret r = 0 \<longleftrightarrow> inp k = []) \<and>
      r_str r = map byte_char (line_upto (nat len - 1) (inp k)) \<and>
      delivers inp out (length (line_upto (nat len - 1) (inp k))) [] k k'"
    "\<exists>r k'. K (''fputs'', [AStr s, AStr ''stdout'']) k = (r, k') \<and> r_ret r \<noteq> - 1 \<and>
      delivers inp out 0 (chars_bytes s) k k'"
    "\<exists>r k'. K (''ferror'', [AStr ''stdin'']) k = (r, k') \<and> r_ret r = 0 \<and> delivers inp out 0 [] k k'"
  unfolding ex_pair using assms unfolding device_def Let_def by blast+

section \<open>Loops that use up a measure\<close>

lemma loop_ends:
  assumes step: "\<And>s w. I s w \<Longrightarrow>
      (\<exists>s' w'. body s w = (Ok (Inl s'), w') \<and> I s' w' \<and> (m s' w' :: nat) < m s w) \<or>
      (\<exists>a w'. body s w = (Ok (Inr a), w') \<and> Q a w')"
    and "I s w" "m s w < fuel"
  shows "\<exists>a w'. io_loop fuel body s w = (Ok a, w') \<and> Q a w'"
  using assms(2,3)
proof (induction fuel arbitrary: s w)
  case (Suc fuel)
  from step [OF Suc.prems(1)] show ?case
  proof (elim disjE exE conjE)
    fix s' w'
    assume b: "body s w = (Ok (Inl s'), w')" "I s' w'" "m s' w' < m s w"
    then obtain a w2 where "io_loop fuel body s' w' = (Ok a, w2)" "Q a w2"
      using Suc.IH [of s' w'] Suc.prems(2) by auto
    with b(1) show ?thesis by (simp add: io_bind_def)
  qed (simp add: io_bind_def)
qed simp

text \<open>What has been written and what is still to come is the same before and after every turn.\<close>

abbreviation "flow inp out w \<equiv> out (w_kern w) @ inp (w_kern w)"

lemma copy_turn_device:
  assumes "device K inp out"
  shows "(\<exists>w'. copy_turn K () w = (Ok (Inl ()), w') \<and> flow inp out w' = flow inp out w \<and>
       length (inp (w_kern w')) < length (inp (w_kern w))) \<or>
     (\<exists>w'. copy_turn K () w = (Ok (Inr 0), w') \<and> flow inp out w' = flow inp out w \<and> inp (w_kern w') = [])"
proof -
  have "0 < int BUFFSIZE" by (simp add: BUFFSIZE_def)
  from device_read [OF assms this, of "w_kern w"] obtain n r k where
    r: "K (''read'', [AInt 0, AInt (int BUFFSIZE)]) (w_kern w) = (r, k)" "n \<le> length (inp (w_kern w))"
      "n = 0 \<longrightarrow> inp (w_kern w) = []" "r_ret r = int n" "r_bytes r = take n (inp (w_kern w))"
      "delivers inp out n [] (w_kern w) k" .
  define bs where "bs = take n (inp (w_kern w))"
  have l: "length bs = n" using r(2) by (simp add: bs_def)
  obtain r2 k2 where w: "K (''write'', [AInt 1, ABytes bs, AInt (int n)]) k = (r2, k2)" "r_ret r2 = int n"
      "delivers inp out 0 bs k k2"
    using deviceD(1) [OF assms, of bs k] l by auto
  show ?thesis
  proof (cases "n = 0")
    case True
    with r show ?thesis by (simp add: copy_turn_def Let_def io_bind_def sys_r_run delivers_def)
  next
    case False
    with r w l show ?thesis
      by (simp add: copy_turn_def Let_def sys_def io_bind_def sys_r_run delivers_def bs_def)
  qed
qed

lemma rw_turn_device:
  assumes "device K inp out"
  shows "(\<exists>w'. rw_turn K () w = (Ok (Inl ()), w') \<and> flow inp out w' = flow inp out w \<and>
       length (inp (w_kern w')) < length (inp (w_kern w))) \<or>
     (\<exists>w'. rw_turn K () w = (Ok (Inr ()), w') \<and> flow inp out w' = flow inp out w \<and> inp (w_kern w') = [])"
proof -
  obtain r k where r: "K (''getc'', [AStr ''stdin'']) (w_kern w) = (r, k)"
      "r_ret r = (case inp (w_kern w) of [] \<Rightarrow> - 1 | b # _ \<Rightarrow> uint b)" "delivers inp out 1 [] (w_kern w) k"
    using deviceD(2) [OF assms] by blast
  show ?thesis
  proof (cases "inp (w_kern w)")
    case Nil
    with r show ?thesis by (simp add: rw_turn_def EOF_def sys_def io_bind_def sys_r_run delivers_def)
  next
    case (Cons b bs)
    obtain r2 k2 where w: "K (''putc'', [AInt (uint b), AStr ''stdout'']) k = (r2, k2)" "r_ret r2 = uint b"
        "delivers inp out 0 [word_of_int (uint b)] k k2"
      using deviceD(3) [OF assms] by blast
    have "uint b \<noteq> - 1" using unsigned_greater_eq [of b, where ?'a = int] by linarith
    with Cons r w show ?thesis
      by (simp add: rw_turn_def EOF_def sys_def io_bind_def sys_r_run delivers_def)
  qed
qed

lemma line_upto_prefix: "line_upto n bs @ drop (length (line_upto n bs)) bs = bs"
  by (induction n bs rule: line_upto.induct) auto

lemma line_upto_pos: "n > 0 \<Longrightarrow> bs \<noteq> [] \<Longrightarrow> line_upto n bs \<noteq> []"
  by (cases n; cases bs) auto

lemma bytes_of_chars: "chars_bytes (map byte_char bs) = bs"
proof (induction bs)
  case (Cons b bs)
  have "unat b < 256" using unsigned_less [of b, where ?'a = nat] by simp
  then have "(of_char (byte_char b) :: nat) = unat b" by (simp add: byte_char_def)
  then show ?case using Cons by (simp add: chars_bytes_def)
qed (simp add: chars_bytes_def)

lemma c_str_bytes: "0 \<notin> set bs \<Longrightarrow> c_str (map byte_char bs) = map byte_char bs"
proof (induction bs)
  case (Cons b bs)
  have b: "0 < unat b" "unat b < 256" using Cons.prems unsigned_less [of b, where ?'a = nat] by (auto simp: unat_gt_0)
  then have "(of_char (byte_char b) :: nat) = unat b" by (simp add: byte_char_def)
  then have "byte_char b \<noteq> NUL" using b(1) by auto
  with Cons show ?case by (simp add: c_str_def)
qed (simp add: c_str_def)

lemma fgets_turn_device:
  assumes "device K inp out" "0 \<notin> set (inp (w_kern w))"
  shows "(\<exists>w'. fgets_turn K () w = (Ok (Inl ()), w') \<and> flow inp out w' = flow inp out w \<and>
       0 \<notin> set (inp (w_kern w')) \<and> length (inp (w_kern w')) < length (inp (w_kern w))) \<or>
     (\<exists>w'. fgets_turn K () w = (Ok (Inr ()), w') \<and> flow inp out w' = flow inp out w \<and> inp (w_kern w') = [])"
proof -
  define line where "line = line_upto 4095 (inp (w_kern w))"
  obtain r k where r: "K (''fgets'', [AInt 4096, AStr ''stdin'']) (w_kern w) = (r, k)"
      "r_ret r = 0 \<longleftrightarrow> inp (w_kern w) = []" "r_str r = map byte_char line"
      "delivers inp out (length line) [] (w_kern w) k"
    using deviceD(4) [OF assms(1), of 4096 "w_kern w"] by (auto simp: line_def)
  have split: "line @ drop (length line) (inp (w_kern w)) = inp (w_kern w)"
    unfolding line_def by (rule line_upto_prefix)
  then have nn: "0 \<notin> set line" "0 \<notin> set (drop (length line) (inp (w_kern w)))"
    using assms(2) by (metis Un_iff set_append)+
  obtain r2 k2 where w: "K (''fputs'', [AStr (map byte_char line), AStr ''stdout'']) k = (r2, k2)" "r_ret r2 \<noteq> - 1"
      "delivers inp out 0 line k k2"
    using deviceD(5) [OF assms(1), of "map byte_char line" k] by (auto simp: bytes_of_chars)
  show ?thesis
  proof (cases "inp (w_kern w) = []")
    case True
    with r show ?thesis
      by (simp add: fgets_turn_def MAXLINE_def io_bind_def sys_r_run delivers_def line_def)
  next
    case False
    then have "line \<noteq> []" unfolding line_def by (intro line_upto_pos) auto
    with False r w nn split show ?thesis
      by (simp add: fgets_turn_def MAXLINE_def EOF_def sys_def io_bind_def sys_r_run delivers_def c_str_bytes)
  qed
qed
lemma drain:
  assumes turn: "\<And>w. G w \<Longrightarrow>
      (\<exists>w'. body () w = (Ok (Inl ()), w') \<and> flow inp out w' = flow inp out w \<and> G w' \<and>
         length (inp (w_kern w')) < length (inp (w_kern w))) \<or>
      (\<exists>w'. body () w = (Ok (Inr a), w') \<and> flow inp out w' = flow inp out w \<and> inp (w_kern w') = [])"
    and "G w" "length (inp (w_kern w)) < fuel"
  obtains w' where "io_loop fuel body () w = (Ok a, w')" "out (w_kern w') = flow inp out w" "inp (w_kern w') = []"
proof -
  have "\<exists>b w'. io_loop fuel body () w = (Ok b, w') \<and> (b = a \<and> flow inp out w' = flow inp out w \<and> inp (w_kern w') = [])"
  proof (rule loop_ends [where I = "\<lambda>_ v. flow inp out v = flow inp out w \<and> G v" and
        m = "\<lambda>_ v. length (inp (w_kern v))"])
    fix s :: unit and v
    assume "flow inp out v = flow inp out w \<and> G v"
    with turn [of v] show "(\<exists>s' w'. body s v = (Ok (Inl s'), w') \<and> (flow inp out w' = flow inp out w \<and> G w') \<and>
        length (inp (w_kern w')) < length (inp (w_kern v))) \<or>
      (\<exists>b w'. body s v = (Ok (Inr b), w') \<and> (b = a \<and> flow inp out w' = flow inp out w \<and> inp (w_kern w') = []))"
      by auto
  qed (use assms(2,3) in auto)
  then show thesis using that by auto
qed

lemma ferror_after:
  assumes "device K inp out"
  obtains w' where "io_bind (sys K ''ferror'' [AStr ''stdin'']) (\<lambda>e. if e \<noteq> 0 then err_sys K ''input error'' [] else io_exit 0) w =
     (Exited 0 :: unit outcome, w')" "out (w_kern w') = out (w_kern w)"
proof -
  obtain r k' where r: "K (''ferror'', [AStr ''stdin'']) (w_kern w) = (r, k')" "r_ret r = 0"
      "delivers inp out 0 [] (w_kern w) k'"
    using deviceD(6) [OF assms] by blast
  have "\<exists>w'. io_bind (sys K ''ferror'' [AStr ''stdin'']) (\<lambda>e. if e \<noteq> 0 then err_sys K ''input error'' [] else io_exit 0) w =
     (Exited 0 :: unit outcome, w') \<and> out (w_kern w') = out (w_kern w)"
    using r by (simp add: sys_def io_bind_def sys_r_run delivers_def)
  then show thesis using that by blast
qed

text \<open>
  Claim C16. On every device the copying programs write exactly what there is to read, and end with
  status 0: by blocks, by characters, and by lines if there is no NUL character in the text. So they
  all agree. A turn more than there are bytes is enough.
\<close>

theorem copiers_copy:
  assumes "device K inp out" "length (inp (w_kern w)) < fuel"
  shows "(\<exists>w'. copy_main K fuel w = (Exited 0, w') \<and> out (w_kern w') = out (w_kern w) @ inp (w_kern w)) \<and>
    (\<exists>w'. rw_main K fuel w = (Exited 0, w') \<and> out (w_kern w') = out (w_kern w) @ inp (w_kern w)) \<and>
    (0 \<notin> set (inp (w_kern w)) \<longrightarrow>
       (\<exists>w'. fgets_main K fuel w = (Exited 0, w') \<and> out (w_kern w') = out (w_kern w) @ inp (w_kern w)))"
proof (intro conjI impI)
  obtain w1 where "io_loop fuel (copy_turn K) () w = (Ok 0, w1)" "out (w_kern w1) = flow inp out w"
    using drain [where G = "\<lambda>_. True" and body = "copy_turn K" and inp = inp and out = out and a = 0 and w = w and fuel = fuel] copy_turn_device [OF assms(1)] assms(2) by auto
  then show "\<exists>w'. copy_main K fuel w = (Exited 0, w') \<and> out (w_kern w') = out (w_kern w) @ inp (w_kern w)"
    by (simp add: copy_main_def io_bind_def)
next
  obtain w1 where 1: "io_loop fuel (rw_turn K) () w = (Ok (), w1)" "out (w_kern w1) = flow inp out w"
    using drain [where G = "\<lambda>_. True" and body = "rw_turn K" and inp = inp and out = out and a = "()" and w = w and fuel = fuel] rw_turn_device [OF assms(1)] assms(2) by auto
  obtain w2 where "io_bind (sys K ''ferror'' [AStr ''stdin'']) (\<lambda>e. if e \<noteq> 0 then err_sys K ''input error'' [] else io_exit 0) w1 =
     (Exited 0 :: unit outcome, w2)" "out (w_kern w2) = out (w_kern w1)"
    using ferror_after [OF assms(1)] .
  with 1 show "\<exists>w'. rw_main K fuel w = (Exited 0, w') \<and> out (w_kern w') = out (w_kern w) @ inp (w_kern w)"
    unfolding rw_main_def by (subst io_bind_Ok [where m = "io_loop fuel (rw_turn K) ()", OF 1(1)]) auto
next
  assume "0 \<notin> set (inp (w_kern w))"
  then obtain w1 where 1: "io_loop fuel (fgets_turn K) () w = (Ok (), w1)" "out (w_kern w1) = flow inp out w"
    using drain [where G = "\<lambda>w. 0 \<notin> set (inp (w_kern w))" and body = "fgets_turn K" and inp = inp and out = out and a = "()" and w = w and fuel = fuel]
      fgets_turn_device [OF assms(1)] assms(2) by auto
  obtain w2 where "io_bind (sys K ''ferror'' [AStr ''stdin'']) (\<lambda>e. if e \<noteq> 0 then err_sys K ''input error'' [] else io_exit 0) w1 =
     (Exited 0 :: unit outcome, w2)" "out (w_kern w2) = out (w_kern w1)"
    using ferror_after [OF assms(1)] .
  with 1 show "\<exists>w'. fgets_main K fuel w = (Exited 0, w') \<and> out (w_kern w') = out (w_kern w) @ inp (w_kern w)"
    unfolding fgets_main_def by (subst io_bind_Ok [where m = "io_loop fuel (fgets_turn K) ()", OF 1(1)]) auto
qed

text \<open>A device: a text that is read in pieces of at most three bytes, and what has been written.\<close>

definition tape :: "(byte list \<times> byte list) kernel" where
  "tape c st =
     (case st of (inp, out) \<Rightarrow>
      case c of (nm, args) \<Rightarrow>
        if nm = ''read'' then
          (let n = min 3 (min (case args of [_, AInt len] \<Rightarrow> nat len | _ \<Rightarrow> 0) (length inp)) in
           ((ret_only (int n))\<lparr>r_bytes := take n inp\<rparr>, (drop n inp, out)))
        else if nm = ''write'' then
          (case args of [_, ABytes bs, _] \<Rightarrow> (ret_only (int (length bs)), (inp, out @ bs)) | _ \<Rightarrow> (ret_only 0, st))
        else if nm = ''getc'' then
          (case inp of [] \<Rightarrow> (ret_only (- 1), st) | b # bs \<Rightarrow> (ret_only (uint b), (bs, out)))
        else if nm = ''putc'' then
          (case args of [AInt ch, _] \<Rightarrow> (ret_only ch, (inp, out @ [word_of_int ch])) | _ \<Rightarrow> (ret_only 0, st))
        else if nm = ''fgets'' then
          (let line = line_upto (case args of [AInt len, _] \<Rightarrow> nat len - 1 | _ \<Rightarrow> 0) inp in
           ((ret_only (if inp = [] then 0 else 1))\<lparr>r_str := map byte_char line\<rparr>, (drop (length line) inp, out)))
        else if nm = ''fputs'' then
          (case args of [AStr s, _] \<Rightarrow> (ret_only 1, (inp, out @ chars_bytes s)) | _ \<Rightarrow> (ret_only 0, st))
        else (ret_only 0, st))"

lemma tape_device: "device tape fst snd"
  unfolding device_def delivers_def
  by (auto simp: tape_def ret_only_def Let_def min_def split: prod.splits list.splits)

lemma copiers_copy_witness:
  "(\<exists>w'. copy_main tape 8 (start ([104, 105, 10, 1, 2], [])) = (Exited 0, w') \<and> snd (w_kern w') = [104, 105, 10, 1, 2]) \<and>
   (\<exists>w'. rw_main tape 8 (start ([104, 105, 10, 1, 2], [])) = (Exited 0, w') \<and> snd (w_kern w') = [104, 105, 10, 1, 2]) \<and>
   (\<exists>w'. fgets_main tape 8 (start ([104, 105, 10, 1, 2], [])) = (Exited 0, w') \<and> snd (w_kern w') = [104, 105, 10, 1, 2])"
  using copiers_copy [OF tape_device, of "start ([104, 105, 10, 1, 2], [])" 8] by (simp add: start_def)
section \<open>A slow device\<close>

text \<open>
  A write is accepted in part, or refused; \<open>patience\<close> bounds the refusals to come. Other calls leave
  both observations as they are, and \<open>fcntl\<close> succeeds.
\<close>

definition slow_device :: "'k kernel \<Rightarrow> ('k \<Rightarrow> byte list) \<Rightarrow> ('k \<Rightarrow> nat) \<Rightarrow> bool" where
  "slow_device K out patience \<longleftrightarrow>
     (\<forall>k bs. bs \<noteq> [] \<longrightarrow> (case K (''write'', [AInt 1, ABytes bs, AInt (int (length bs))]) k of (r, k') \<Rightarrow>
        0 < r_ret r \<and> nat (r_ret r) \<le> length bs \<and> out k' = out k @ take (nat (r_ret r)) bs \<and> patience k' \<le> patience k \<or>
        r_ret r \<le> 0 \<and> out k' = out k \<and> patience k' < patience k)) \<and>
     (\<forall>k nm args. nm \<noteq> ''write'' \<longrightarrow> (case K (nm, args) k of (r, k') \<Rightarrow>
        out k' = out k \<and> patience k' = patience k \<and> (nm = ''fcntl'' \<longrightarrow> 0 \<le> r_ret r)))"

lemma slow_write:
  assumes "slow_device K out patience" "bs \<noteq> []" "K (''write'', [AInt 1, ABytes bs, AInt (int (length bs))]) k = (r, k')"
  shows "0 < r_ret r \<and> nat (r_ret r) \<le> length bs \<and> out k' = out k @ take (nat (r_ret r)) bs \<and> patience k' \<le> patience k \<or>
    r_ret r \<le> 0 \<and> out k' = out k \<and> patience k' < patience k"
proof -
  have "case K (''write'', [AInt 1, ABytes bs, AInt (int (length bs))]) k of (r, k') \<Rightarrow>
      0 < r_ret r \<and> nat (r_ret r) \<le> length bs \<and> out k' = out k @ take (nat (r_ret r)) bs \<and> patience k' \<le> patience k \<or>
      r_ret r \<le> 0 \<and> out k' = out k \<and> patience k' < patience k"
    by (rule assms(1) [unfolded slow_device_def, THEN conjunct1, THEN spec, THEN spec, THEN mp, OF assms(2)])
  then show ?thesis unfolding assms(3) by simp
qed

lemma slow_other:
  assumes "slow_device K out patience" "nm \<noteq> ''write''"
  shows "out (snd (K (nm, args) k)) = out k" "patience (snd (K (nm, args) k)) = patience k"
    "nm = ''fcntl'' \<Longrightarrow> 0 \<le> r_ret (fst (K (nm, args) k))"
proof -
  have "case K (nm, args) k of (r, k') \<Rightarrow>
      out k' = out k \<and> patience k' = patience k \<and> (nm = ''fcntl'' \<longrightarrow> 0 \<le> r_ret r)"
    by (rule assms(1) [unfolded slow_device_def, THEN conjunct2, THEN spec, THEN spec, THEN spec, THEN mp, OF assms(2)])
  then show "out (snd (K (nm, args) k)) = out k" "patience (snd (K (nm, args) k)) = patience k"
    "nm = ''fcntl'' \<Longrightarrow> 0 \<le> r_ret (fst (K (nm, args) k))"
    by (simp_all add: split_beta)
qed

lemma nonblock_turn_slow:
  assumes d: "slow_device K out patience" and n: "n = int (length ptr)" and flow: "out (w_kern w) @ ptr = everything"
  shows "(\<exists>ptr' n' w'. nonblock_turn K (ptr, n) w = (Ok (Inl (ptr', n')), w') \<and> n' = int (length ptr') \<and>
       out (w_kern w') @ ptr' = everything \<and> length ptr' + patience (w_kern w') < length ptr + patience (w_kern w)) \<or>
     (\<exists>w'. nonblock_turn K (ptr, n) w = (Ok (Inr ()), w') \<and> out (w_kern w') = everything)"
proof (cases "ptr = []")
  case True
  with n flow show ?thesis by (simp add: nonblock_turn_def)
next
  case False
  obtain r k where wr: "K (''write'', [AInt 1, ABytes ptr, AInt (int (length ptr))]) (w_kern w) = (r, k)" by force
  define args where "args = [AStr ''stderr'', AStr ''nwrite = %d, errno = %d'', AInt (r_ret r),
      AInt (case r_err r of None \<Rightarrow> 0 | Some e \<Rightarrow> e)]"
  define k2 where "k2 = snd (K (''fprintf'', args) k)"
  have k2: "out k2 = out k" "patience k2 = patience k"
    unfolding k2_def by (rule slow_other [OF d], simp)+
  have run: "\<exists>w'. nonblock_turn K (ptr, n) w =
      (Ok (Inl (if r_ret r > 0 then (drop (nat (r_ret r)) ptr, n - r_ret r) else (ptr, n))), w') \<and> w_kern w' = k2"
    using False n wr
    by (simp add: k2_def args_def nonblock_turn_def set_errno_def get_errno_def eprintf_def do_call_def sys_def io_then_def io_bind_def
        sys_r_run cong: option.case_cong)
  from slow_write [OF d False wr] show ?thesis
  proof (elim disjE conjE)
    assume a: "0 < r_ret r" "nat (r_ret r) \<le> length ptr" "out k = out (w_kern w) @ take (nat (r_ret r)) ptr"
      "patience k \<le> patience (w_kern w)"
    from run a(1) obtain w' where
      "nonblock_turn K (ptr, n) w = (Ok (Inl (drop (nat (r_ret r)) ptr, n - r_ret r)), w')" "w_kern w' = k2" by auto
    moreover have "n - r_ret r = int (length (drop (nat (r_ret r)) ptr))" using a(1,2) n by auto
    moreover have "out (w_kern w') @ drop (nat (r_ret r)) ptr = everything" using calculation(2) k2 a(3) flow by simp
    moreover have "length (drop (nat (r_ret r)) ptr) + patience (w_kern w') < length ptr + patience (w_kern w)"
      using calculation(2) k2 a(1,2,4) by auto
    ultimately show ?thesis by blast
  next
    assume a: "r_ret r \<le> 0" "out k = out (w_kern w)" "patience k < patience (w_kern w)"
    from run a(1) obtain w' where w': "nonblock_turn K (ptr, n) w = (Ok (Inl (ptr, n)), w')" "w_kern w' = k2" by auto
    with a n k2 flow have "n = int (length ptr) \<and> out (w_kern w') @ ptr = everything \<and>
        length ptr + patience (w_kern w') < length ptr + patience (w_kern w)" by simp
    with w' show ?thesis by blast
  qed
qed

lemma fl_slow:
  assumes d: "slow_device K out patience"
  shows "\<exists>w'. set_fl K fd f w = (Ok (), w') \<and> out (w_kern w') = out (w_kern w) \<and> patience (w_kern w') = patience (w_kern w)"
    "\<exists>w'. clr_fl K fd f w = (Ok (), w') \<and> out (w_kern w') = out (w_kern w) \<and> patience (w_kern w') = patience (w_kern w)"
proof -
  note o = slow_other [OF d, of "''fcntl''", simplified]
  have p: "\<not> r_ret (fst (K (''fcntl'', args) k)) < 0" for args k using o(3) [of args k] by simp
  show "\<exists>w'. set_fl K fd f w = (Ok (), w') \<and> out (w_kern w') = out (w_kern w) \<and> patience (w_kern w') = patience (w_kern w)"
    "\<exists>w'. clr_fl K fd f w = (Ok (), w') \<and> out (w_kern w') = out (w_kern w) \<and> patience (w_kern w') = patience (w_kern w)"
    by (simp_all add: set_fl_def clr_fl_def sys_def io_bind_def sys_r_run p o(1,2))
qed

text \<open>
  Claim C19. However a device splits and refuses the writes of ch14_nonblock.c, as long as it does not
  refuse for ever, it gets the bytes that were read, every one once and in order, and the program ends
  with status 0 after at most as many turns as there are bytes and refusals.
\<close>

theorem nonblock_writes_all:
  assumes "slow_device K out patience"
    and "K (''read'', [AInt 0, AInt 500000]) (w_kern w) = (r, k)" "r_ret r = int (length (r_bytes r))"
    and "length (r_bytes r) + patience k < fuel"
  shows "\<exists>w'. nonblock_main K fuel w = (Exited 0, w') \<and> out (w_kern w') = out (w_kern w) @ r_bytes r"
proof -
  let ?bs = "r_bytes r" and ?n = "int (length (r_bytes r))"
  have k: "out k = out (w_kern w)" using slow_other(1) [OF assms(1), of "''read''" "[AInt 0, AInt 500000]" "w_kern w"] assms(2) by simp
  let ?w = "w\<lparr>w_kern := k, w_errno := (case r_err r of None \<Rightarrow> w_errno w | Some e \<Rightarrow> e),
      w_trace := w_trace w @ [((''read'', [AInt 0, AInt 500000]), r_ret r)]\<rparr>"
  obtain v where v: "eprintf K ''read %d bytes'' [AInt ?n] ?w = (Ok (), v)" "out (w_kern v) = out k"
      "patience (w_kern v) = patience k"
    using slow_other(1,2) [OF assms(1), of "''fprintf''"]
    by (simp add: eprintf_def do_call_def io_bind_def sys_r_run)
  obtain w1 where w1: "set_fl K 1 O_NONBLOCK v = (Ok (), w1)" "out (w_kern w1) = out k" "patience (w_kern w1) = patience k"
    using fl_slow(1) [OF assms(1), of 1 O_NONBLOCK v] v(2,3) by auto
  have "\<exists>a w2. io_loop fuel (nonblock_turn K) (?bs, ?n) w1 = (Ok a, w2) \<and> out (w_kern w2) = out k @ ?bs"
  proof (rule loop_ends [where I = "\<lambda>s v. snd s = int (length (fst s)) \<and> out (w_kern v) @ fst s = out k @ ?bs" and
        m = "\<lambda>s v. length (fst s) + patience (w_kern v)"])
    fix s :: "byte list \<times> int" and v
    assume "snd s = int (length (fst s)) \<and> out (w_kern v) @ fst s = out k @ ?bs"
    then have "(\<exists>ptr' n' w'. nonblock_turn K (fst s, snd s) v = (Ok (Inl (ptr', n')), w') \<and> n' = int (length ptr') \<and>
         out (w_kern w') @ ptr' = out k @ ?bs \<and>
         length ptr' + patience (w_kern w') < length (fst s) + patience (w_kern v)) \<or>
       (\<exists>w'. nonblock_turn K (fst s, snd s) v = (Ok (Inr ()), w') \<and> out (w_kern w') = out k @ ?bs)"
      by (intro nonblock_turn_slow [OF assms(1)]) simp_all
    then show "(\<exists>s' w'. nonblock_turn K s v = (Ok (Inl s'), w') \<and>
        (snd s' = int (length (fst s')) \<and> out (w_kern w') @ fst s' = out k @ ?bs) \<and>
        length (fst s') + patience (w_kern w') < length (fst s) + patience (w_kern v)) \<or>
      (\<exists>a w'. nonblock_turn K s v = (Ok (Inr a), w') \<and> out (w_kern w') = out k @ ?bs)"
      unfolding prod.collapse by (elim disjE exE conjE) (force, blast)
  qed (use w1 assms(4) in auto)
  then obtain a w2 where 2: "io_loop fuel (nonblock_turn K) (?bs, ?n) w1 = (Ok a, w2)" "out (w_kern w2) = out k @ ?bs" by blast
  obtain w3 where 3: "clr_fl K 1 O_NONBLOCK w2 = (Ok (), w3)" "out (w_kern w3) = out (w_kern w2)"
    using fl_slow(2) [OF assms(1)] by blast
  have "sys_r K ''read'' [AInt 0, AInt 500000] w = (Ok r, ?w)" using assms(2) by (simp add: sys_r_run)
  with v(1) w1(1) 2(1) 3(1) assms(3) have "nonblock_main K fuel w = (Exited 0, w3)"
    by (simp add: nonblock_main_def Let_def io_then_def io_bind_def)
  then show ?thesis using 2(2) 3(2) k by auto
qed

text \<open>A device that refuses every other write and accepts two bytes at a time.\<close>

definition grudging :: "(byte list \<times> nat) kernel" where
  "grudging c st =
     (case st of (out, p) \<Rightarrow>
      case c of (nm, args) \<Rightarrow>
        if nm = ''write'' then
          (case args of
             [_, ABytes bs, _] \<Rightarrow>
               if odd p then (failed_with EAGAIN, (out, p - 1))
               else (ret_only (int (min 2 (length bs))), (out @ take (min 2 (length bs)) bs, p - 1))
           | _ \<Rightarrow> (ret_only 0, st))
        else if nm = ''read'' then ((ret_only 5)\<lparr>r_bytes := [1, 2, 3, 4, 5]\<rparr>, st)
        else (ret_only 0, st))"

lemma grudging_slow: "slow_device grudging fst snd"
  unfolding slow_device_def
  by (auto simp: grudging_def ret_only_def failed_with_def split: prod.splits if_splits dest: odd_pos)

lemma nonblock_writes_all_witness:
  "\<exists>w'. nonblock_main grudging 15 (start ([], 9)) = (Exited 0, w') \<and> fst (w_kern w') = [1, 2, 3, 4, 5]"
  using nonblock_writes_all [OF grudging_slow, of "start ([], 9)" "(ret_only 5)\<lparr>r_bytes := [1, 2, 3, 4, 5]\<rparr>" "([], 9)" 15]
  by (simp add: start_def grudging_def ret_only_def)

text \<open>The error number is not looked at: a write that always fails is tried for ever.\<close>

lemma nonblock_spins:
  assumes "\<forall>c k. fst c = ''write'' \<longrightarrow> r_ret (fst (K c k)) < 0" "n > 0"
  shows "fst (io_loop fuel (nonblock_turn K) (ptr, n) w) = Faulted Diverged"
proof (induction fuel arbitrary: w)
  case (Suc fuel)
  have "\<not> 0 < r_ret (fst (K (''write'', args) k))" for args k using assms(1) by (simp add: not_less less_imp_le)
  then obtain w' where "nonblock_turn K (ptr, n) w = (Ok (Inl (ptr, n)), w')"
    using assms(2) by (auto simp: nonblock_turn_def set_errno_def get_errno_def eprintf_def do_call_def sys_def io_then_def
        io_bind_def sys_r_run)
  with Suc show ?case by (simp add: io_bind_def)
qed simp

end
