(* ===== verification/Files.thy ===== *)
theory Files
  imports Ftw TellWait
begin

text \<open>
  The programs of the first five chapters that look at files, change them or open streams on them:
  ch01_ls.c, ch03_creat.c, ch03_fcntl.c, ch03_lseek.c; ch04_access.c, ch04_chmod.c, ch04_dev.c,
  ch04_futimens.c, ch04_getcwd.c, ch04_pfile_type.c, ch04_umask.c, ch04_unlink.c; ch05_fmemopen.c,
  ch05_mkstemp.c, ch05_pbuf.c, ch05_tmpfile.c. The reply to \<open>stat\<close> and \<open>lstat\<close> has the fields a program
  uses, in the order given at each.

  The properties: what ch04_chmod.c asks for differs from what it found in two bits; a
  template in read-only memory ends ch05_mkstemp.c; ch01_ls.c lists the entries of a directory.
\<close>

section \<open>ch01_ls.c\<close>

definition ls_turn :: "'k kernel \<Rightarrow> int \<Rightarrow> unit \<Rightarrow> (('k, 'z) world_scheme, unit + unit) io" where
  "ls_turn K dp _ =
     io_bind (sys_r K ''readdir'' [AInt dp]) (\<lambda>dirp.
     if r_ret dirp \<noteq> 0 then io_then (printf K ''%s'' [AStr (r_str dirp)]) (io_return (Inl ()))
     else io_return (Inr ()))"

definition ls_main :: "'k kernel \<Rightarrow> nat \<Rightarrow> string list \<Rightarrow> (('k, 'z) world_scheme, unit) io" where
  "ls_main K fuel argv =
     (if length argv \<noteq> 2 then err_quit K ''usage: ls directory_name'' []
      else
        io_bind (sys K ''opendir'' [AStr (argv ! 1)]) (\<lambda>dp.
        if dp = 0 then err_sys K ''can't open %s'' [AStr (argv ! 1)]
        else
          io_then (io_loop fuel (ls_turn K dp) ())
          (io_then (do_call K ''closedir'' [AInt dp]) (io_exit 0))))"

section \<open>ch03\<close>

definition creat_main :: "'k kernel \<Rightarrow> (('k, 'z) world_scheme, unit) io" where
  "creat_main K =
     io_bind (sys K ''creat'' [AStr ''file.hole'', AInt FILE_MODE]) (\<lambda>fd.
     if fd < 0 then err_sys K ''creat error'' []
     else
       io_bind (sys K ''write'' [AInt fd, ABytes (chars_bytes ''abcdefghij''), AInt 10]) (\<lambda>n.
       if n \<noteq> 10 then err_sys K ''buf1 write error'' []
       else
         io_bind (sys K ''lseek'' [AInt fd, AInt 16384, AStr ''SEEK_SET'']) (\<lambda>r.
         if r = - 1 then err_sys K ''lseek error'' []
         else
           io_bind (sys K ''write'' [AInt fd, ABytes (chars_bytes ''ABCDEFGHIJ''), AInt 10]) (\<lambda>n.
           if n \<noteq> 10 then err_sys K ''buf2 write error'' [] else io_exit 0))))"

definition O_ACCMODE :: int where "O_ACCMODE = 3"
definition O_APPEND :: int where "O_APPEND = 1024"
definition O_SYNC :: int where "O_SYNC = 1052672"

definition access_mode :: "'k kernel \<Rightarrow> int \<Rightarrow> (('k, 'z) world_scheme, unit) io" where
  "access_mode K val =
     (let m = and val O_ACCMODE in
      if m = 0 then printf K ''read only'' []
      else if m = 1 then printf K ''write only'' []
      else if m = 2 then printf K ''read write'' []
      else err_dump K ''unknown access mode'' [])"

definition fcntl_main :: "'k kernel \<Rightarrow> string list \<Rightarrow> (('k, 'z) world_scheme, unit) io" where
  "fcntl_main K argv =
     (if length argv \<noteq> 2 then err_quit K ''usage: a.out <descriptor#>'' []
      else
        io_bind (sys K ''fcntl'' [AInt (atoi (argv ! 1)), AInt F_GETFL, AInt 0]) (\<lambda>val.
        if val < 0 then err_sys K ''fcntl error for fd %d'' [AInt (atoi (argv ! 1))]
        else
          io_seq
            [access_mode K val,
             io_when (and val O_APPEND \<noteq> 0) (printf K '', append'' []),
             io_when (and val O_NONBLOCK \<noteq> 0) (printf K '', nonblocking'' []),
             io_when (and val O_SYNC \<noteq> 0) (printf K '', synchronous writes'' []),
             do_call K ''putchar'' [AStr [NL]],
             io_exit 0]))"

definition set_flags :: "'k kernel \<Rightarrow> int \<Rightarrow> int \<Rightarrow> (('k, 'z) world_scheme, unit) io" where
  "set_flags K fd flags =
     io_bind (sys K ''fcntl'' [AInt fd, AInt F_GETFL, AInt 0]) (\<lambda>val.
     if val < 0 then err_sys K ''fcntl F_GETFL error'' []
     else
       io_bind (sys K ''fcntl'' [AInt fd, AInt F_SETFL, AInt (or val flags)]) (\<lambda>r.
       if r < 0 then err_sys K ''fcntl F_SETFL error'' [] else io_return ()))"

definition lseek_main :: "'k kernel \<Rightarrow> (('k, 'z) world_scheme, unit) io" where
  "lseek_main K =
     io_bind (sys K ''lseek'' [AInt 0, AInt 0, AStr ''SEEK_CUR'']) (\<lambda>r.
     io_then
       (if r = - 1 then printf K ''cannot seek'' [] else printf K ''seek ok'' [])
       (io_exit 0))"

section \<open>ch04\<close>

definition access_main :: "'k kernel \<Rightarrow> string list \<Rightarrow> (('k, 'z) world_scheme, unit) io" where
  "access_main K argv =
     (if length argv \<noteq> 2 then err_quit K ''usage: a.out <pathname>'' []
      else
        io_bind (sys K ''access'' [AStr (argv ! 1), AInt 4]) (\<lambda>r.
        io_then
          (if r < 0 then err_ret K ''access error for %s'' [AStr (argv ! 1)]
           else printf K ''read access OK'' [])
        (io_bind (sys K ''open'' [AStr (argv ! 1), AInt 0]) (\<lambda>fd.
         io_then
           (if fd < 0 then err_ret K ''open error for %s'' [AStr (argv ! 1)]
            else printf K ''open for reading OK'' [])
           (io_exit 0)))))"

definition foo_mode :: "int \<Rightarrow> int" where
  "foo_mode st_mode = or (and st_mode (not S_IXGRP)) S_ISGID"

text \<open>\<open>stat\<close> delivers the mode.\<close>

definition chmod_main :: "'k kernel \<Rightarrow> (('k, 'z) world_scheme, unit) io" where
  "chmod_main K =
     io_bind (sys_r K ''stat'' [AStr ''foo'']) (\<lambda>st.
     if r_ret st < 0 then err_sys K ''stat error for foo'' []
     else
       io_bind (sys K ''chmod'' [AStr ''foo'', AInt (foo_mode (int_at st 0))]) (\<lambda>r.
       if r < 0 then err_sys K ''chmod erro for foo'' []
       else
         io_bind (sys K ''chmod'' [AStr ''bar'', AInt (or (or (or 256 128) 32) 4)]) (\<lambda>r.
         if r < 0 then err_sys K ''chmod error for bar'' [] else io_exit 0)))"

text \<open>The numbers of a device, as Linux packs them.\<close>

definition major :: "int \<Rightarrow> int" where
  "major dev = or (and (dev div 256) 4095) (and (dev div 2 ^ 32) (not 4095))"

definition minor :: "int \<Rightarrow> int" where
  "minor dev = or (and dev 255) (and (dev div 2 ^ 12) (not 255))"

text \<open>\<open>stat\<close> delivers \<open>st_mode\<close>, \<open>st_dev\<close>, \<open>st_rdev\<close>.\<close>

definition dev_file :: "'k kernel \<Rightarrow> string \<Rightarrow> (('k, 'z) world_scheme, unit) io" where
  "dev_file K arg =
     io_then (printf K ''%s: '' [AStr arg])
     (io_bind (sys_r K ''stat'' [AStr arg]) (\<lambda>st.
      if r_ret st < 0 then err_ret K ''stat error'' []
      else
        let m = and (int_at st 0) S_IFMT in
        io_seq
          [printf K ''dev = %d/%d'' [AInt (major (int_at st 1)), AInt (minor (int_at st 1))],
           io_when (m = S_IFCHR \<or> m = S_IFBLK)
             (printf K '' (%s) rdev = %d/%d''
                [AStr (if m = S_IFCHR then ''character'' else ''block''),
                 AInt (major (int_at st 2)), AInt (minor (int_at st 2))]),
           printf K [NL] []]))"

definition dev_main :: "'k kernel \<Rightarrow> string list \<Rightarrow> (('k, 'z) world_scheme, unit) io" where
  "dev_main K argv = io_then (io_each (dev_file K) (drop 1 argv)) (io_exit 0)"

text \<open>\<open>stat\<close> delivers \<open>st_atime\<close> and \<open>st_mtime\<close>, in seconds.\<close>

definition O_RDWR_TRUNC :: int where "O_RDWR_TRUNC = 514"

definition keep_times :: "'k kernel \<Rightarrow> string \<Rightarrow> (('k, 'z) world_scheme, unit) io" where
  "keep_times K arg =
     io_bind (sys_r K ''stat'' [AStr arg]) (\<lambda>st.
     if r_ret st < 0 then err_ret K ''%s: stat error'' [AStr arg]
     else
       io_bind (sys K ''open'' [AStr arg, AInt O_RDWR_TRUNC]) (\<lambda>fd.
       if fd < 0 then err_ret K ''%s: open error'' [AStr arg]
       else
         io_bind (sys K ''futimens'' [AInt fd, AInt (int_at st 0), AInt 0, AInt (int_at st 1), AInt 0]) (\<lambda>r.
         io_then (io_when (r < 0) (err_ret K ''%s: futimens error'' [AStr arg]))
           (do_call K ''close'' [AInt fd]))))"

definition futimens_main :: "'k kernel \<Rightarrow> string list \<Rightarrow> (('k, 'z) world_scheme, unit) io" where
  "futimens_main K argv = io_then (io_each (keep_times K) (drop 1 argv)) (io_exit 0)"

definition getcwd_main :: "'k kernel \<Rightarrow> (('k, 'z) lim_scheme, unit) io" where
  "getcwd_main K =
     io_bind (sys K ''chdir'' [AStr ''/usr/lib'']) (\<lambda>r.
     if r < 0 then err_sys K ''chdir fialed'' []
     else
       io_bind (path_alloc K) (\<lambda>(ptr, sz).
       io_bind (sys_r K ''getcwd'' [AInt ptr, AInt sz]) (\<lambda>d.
       if r_ret d = 0 then err_sys K ''getcwd failed'' []
       else io_then (printf K ''cwd = %s'' [AStr (r_str d)]) (io_exit 0))))"

definition type_name :: "int \<Rightarrow> string" where
  "type_name st_mode =
     (let m = and st_mode S_IFMT in
      if m = S_IFREG then ''regular''
      else if m = S_IFDIR then ''directory''
      else if m = S_IFCHR then ''character special''
      else if m = S_IFBLK then ''block special''
      else if m = S_IFIFO then ''fifo''
      else if m = S_IFLNK then ''symbolic link''
      else if m = S_IFSOCK then ''socket''
      else ''** unknow mode **'')"

definition file_type :: "'k kernel \<Rightarrow> string \<Rightarrow> (('k, 'z) world_scheme, unit) io" where
  "file_type K arg =
     io_then (printf K ''%s: '' [AStr arg])
     (io_bind (sys_r K ''lstat'' [AStr arg]) (\<lambda>st.
      if r_ret st < 0 then err_ret K ''lstat error'' []
      else printf K ''%s'' [AStr (type_name (int_at st 0))]))"

definition pfile_type_main :: "'k kernel \<Rightarrow> string list \<Rightarrow> (('k, 'z) world_scheme, unit) io" where
  "pfile_type_main K argv = io_then (io_each (file_type K) (drop 1 argv)) (io_exit 0)"

definition RWRWRW :: int where
  "RWRWRW = or (or (or (or (or 256 128) 32) 16) 4) 2"

definition umask_main :: "'k kernel \<Rightarrow> (('k, 'z) world_scheme, unit) io" where
  "umask_main K =
     io_then (do_call K ''umask'' [AInt 0])
     (io_bind (sys K ''creat'' [AStr ''foo'', AInt RWRWRW]) (\<lambda>r.
      if r < 0 then err_sys K ''creat error for foo'' []
      else
        io_then (do_call K ''umask'' [AInt (or (or (or 32 16) 4) 2)])
        (io_bind (sys K ''creat'' [AStr ''bar'', AInt RWRWRW]) (\<lambda>r.
         if r < 0 then err_sys K ''creat erro for bar'' [] else io_exit 0))))"

definition unlink_main :: "'k kernel \<Rightarrow> (('k, 'z) world_scheme, unit) io" where
  "unlink_main K =
     io_bind (sys K ''open'' [AStr ''tempfile'', AInt 2]) (\<lambda>fd.
     if fd < 0 then err_sys K ''open error'' []
     else
       io_bind (sys K ''unlink'' [AStr ''tempfile'']) (\<lambda>r.
       if r < 0 then err_sys K ''unlink error'' []
       else
         io_seq
           [printf K ''file unlinked'' [], do_call K ''sleep'' [AInt 15], printf K ''done'' [], io_exit 0]))"

section \<open>ch05\<close>

text \<open>
  The buffer of a memory stream is shared with the library: a call on the stream gets it and leaves
  its new contents in the reply.
\<close>

definition BSZ48 :: nat where "BSZ48 = 48"

definition refill :: "char \<Rightarrow> string" where
  "refill c = replicate (BSZ48 - 2) c @ [NUL, CHR ''X'']"

definition on_stream :: "'k kernel \<Rightarrow> string \<Rightarrow> arg list \<Rightarrow> string \<Rightarrow> (('k, 'z) world_scheme, string) io" where
  "on_stream K nm args buf = io_bind (sys_r K nm (args @ [AStr buf])) (\<lambda>r. io_return (r_str r))"

text \<open>Printing the buffer and its length reads up to its terminator.\<close>

definition show_text :: "'k kernel \<Rightarrow> string \<Rightarrow> string \<Rightarrow> (('k, 'z) world_scheme, unit) io" where
  "show_text K fmt buf = (if NUL \<in> set buf then printf K fmt [AStr (takeWhile (\<lambda>c. c \<noteq> NUL) buf)] else io_fault OutOfBounds)"

definition show_len :: "'k kernel \<Rightarrow> string \<Rightarrow> string \<Rightarrow> (('k, 'z) world_scheme, unit) io" where
  "show_len K fmt buf =
     (if NUL \<in> set buf then printf K fmt [AInt (int (length (takeWhile (\<lambda>c. c \<noteq> NUL) buf)))] else io_fault OutOfBounds)"

definition fmemopen_main :: "'k kernel \<Rightarrow> (('k, 'z) world_scheme, unit) io" where
  "fmemopen_main K =
     io_bind (sys_r K ''fmemopen'' [AInt (int BSZ48), AStr ''w+'', AStr (refill CHR ''a'')]) (\<lambda>f.
     let fp = r_ret f; buf = r_str f in
     if fp = 0 then err_sys K ''fmemopen failed'' []
     else
       io_then (show_text K ''initial buffer contents: %s'' buf)
       (io_bind (on_stream K ''fprintf'' [AInt fp, AStr ''hello, world''] buf) (\<lambda>buf.
        io_then (show_text K ''before flush: %s'' buf)
        (io_bind (on_stream K ''fflush'' [AInt fp] buf) (\<lambda>buf.
         io_then (show_text K ''after fflush: %s'' buf)
         (io_then (show_len K ''len of string in buf = %ld'' buf)
         (io_bind (on_stream K ''fprintf'' [AInt fp, AStr ''hello world''] (refill CHR ''b'')) (\<lambda>buf.
          io_bind (on_stream K ''fseek'' [AInt fp, AInt 0, AStr ''SEEK_SET''] buf) (\<lambda>buf.
          io_then (show_text K ''after fseek: %s'' buf)
          (io_then (show_len K ''len of string of buf = %ld'' buf)
          (io_bind (on_stream K ''fprintf'' [AInt fp, AStr ''hello world''] (refill CHR ''c'')) (\<lambda>buf.
           io_bind (on_stream K ''fclose'' [AInt fp] buf) (\<lambda>buf.
           io_then (show_text K ''after fclose: %s'' buf)
           (io_then (show_len K ''len of string of buf = %ld'' buf) (io_exit 0)))))))))))))))"

definition ENOENT :: int where "ENOENT = 2"
definition SIGSEGV :: int where "SIGSEGV = 11"

text \<open>
  \<open>mkstemp\<close> replaces the six letters at the end of its template in place; a string literal lies in
  memory that must not be written.
\<close>

definition make_temp :: "'k kernel \<Rightarrow> bool \<Rightarrow> string \<Rightarrow> (('k, 'z) world_scheme, unit) io" where
  "make_temp K writable tmpl =
     io_bind (if writable then sys_r K ''mkstemp'' [AStr tmpl] else io_kill SIGSEGV) (\<lambda>m.
     if r_ret m < 0 then err_sys K ''can't create temp file'' []
     else
       let name = r_str m in
       io_then (printf K ''temp name = %s'' [AStr name])
       (io_then (do_call K ''close'' [AInt (r_ret m)])
       (io_bind (sys K ''stat'' [AStr name]) (\<lambda>r.
        if r < 0 then
          io_bind get_errno (\<lambda>e.
          if e = ENOENT then printf K ''file doesn't exist'' [] else err_sys K ''stat failed'' [])
        else io_then (printf K ''file exists'' []) (do_call K ''unlink'' [AStr name])))))"

definition mkstemp_main :: "'k kernel \<Rightarrow> (('k, 'z) world_scheme, unit) io" where
  "mkstemp_main K =
     io_seq
       [printf K ''trying to create first temp file...'' [],
        make_temp K True ''/tmp/dirXXXXXX'',
        printf K ''trying to create second temp file...'' [],
        make_temp K False ''/tmp/dirXXXXXX'',
        io_exit 0]"

text \<open>\<open>tmpnam(NULL)\<close> and \<open>tmpnam(name)\<close> deliver the name.\<close>

definition tmpfile_main :: "'k kernel \<Rightarrow> (('k, 'z) world_scheme, unit) io" where
  "tmpfile_main K =
     io_bind (sys_r K ''tmpnam'' [ANull]) (\<lambda>n.
     io_then (printf K ''%s'' [AStr (r_str n)])
     (io_bind (sys_r K ''tmpnam'' [APtr ''name'']) (\<lambda>n.
      io_then (printf K ''%s'' [AStr (r_str n)])
      (io_bind (sys K ''tmpfile'' []) (\<lambda>fp.
       if fp = 0 then err_sys K ''tmpfile error'' []
       else
         io_then (do_call K ''fputs'' [AStr (''one line output'' @ [NL]), AInt fp])
         (io_then (do_call K ''rewind'' [AInt fp])
         (io_bind (sys_r K ''fgets'' [AInt (int MAXLINE), AInt fp]) (\<lambda>l.
          if r_ret l = 0 then err_sys K ''fgets error'' []
          else io_then (do_call K ''fputs'' [AStr (r_str l), AStr ''stdout'']) (io_exit 0)))))))))"

text \<open>
  The fields of a \<open>FILE\<close> belong to the library: reading them is a call, whose reply has \<open>_flags\<close>,
  \<open>_IO_buf_base\<close> and \<open>_IO_buf_end\<close>.
\<close>

definition IO_UNBUFFERED :: int where "IO_UNBUFFERED = 2"
definition IO_LINE_BUF :: int where "IO_LINE_BUF = 512"

definition is_unbuffered :: "'k kernel \<Rightarrow> arg \<Rightarrow> (('k, 'z) world_scheme, int) io" where
  "is_unbuffered K fp = io_bind (sys_r K ''FILE'' [fp]) (\<lambda>f. io_return (and (int_at f 0) IO_UNBUFFERED))"

definition is_linebuffered :: "'k kernel \<Rightarrow> arg \<Rightarrow> (('k, 'z) world_scheme, int) io" where
  "is_linebuffered K fp = io_bind (sys_r K ''FILE'' [fp]) (\<lambda>f. io_return (and (int_at f 0) IO_LINE_BUF))"

definition buffer_size :: "'k kernel \<Rightarrow> arg \<Rightarrow> (('k, 'z) world_scheme, int) io" where
  "buffer_size K fp =
     io_bind (sys_r K ''FILE'' [fp]) (\<lambda>f. io_return (sint (word_of_int (int_at f 2 - int_at f 1) :: 32 word)))"

definition pr_stdio :: "'k kernel \<Rightarrow> string \<Rightarrow> arg \<Rightarrow> (('k, 'z) world_scheme, unit) io" where
  "pr_stdio K name fp =
     io_then (printf K ''stream = %s, '' [AStr name])
     (io_bind (is_unbuffered K fp) (\<lambda>u.
      io_then
        (if u \<noteq> 0 then printf K ''unbuffered'' []
         else
           io_bind (is_linebuffered K fp) (\<lambda>l.
           if l \<noteq> 0 then printf K ''line buffered'' [] else printf K ''fully buffered'' []))
      (io_bind (buffer_size K fp) (\<lambda>n. printf K '', bufer size = %d'' [AInt n]))))"

definition pbuf_main :: "'k kernel \<Rightarrow> (('k, 'z) world_scheme, unit) io" where
  "pbuf_main K =
     io_then (do_call K ''fputs'' [AStr (''enter any character'' @ [NL]), AStr ''stdout''])
     (io_bind (sys K ''getchar'' []) (\<lambda>c.
      if c = - 1 then err_sys K ''getchar error'' []
      else
        io_then
          (io_seq
             [do_call K ''fputs'' [AStr (''one line to standard error'' @ [NL]), AStr ''stderr''],
              pr_stdio K ''stdin'' (AStr ''stdin''), pr_stdio K ''stdout'' (AStr ''stdout''),
              pr_stdio K ''stderr'' (AStr ''stderr'')])
        (io_bind (sys K ''fopen'' [AStr ''/etc/passwd'', AStr ''r'']) (\<lambda>fp.
         if fp = 0 then err_sys K ''fopen error'' []
         else
           io_bind (sys K ''getc'' [AInt fp]) (\<lambda>c.
           if c = - 1 then err_sys K ''getc error'' []
           else io_then (pr_stdio K ''/etc/passwd'' (AInt fp)) (io_exit 0))))))"
section \<open>Lemmas\<close>

lemma foo_mode_bits: "bit (foo_mode m) j \<longleftrightarrow> j = 10 \<or> j \<noteq> 3 \<and> bit m j"
proof -
  have "bit S_IXGRP j \<longleftrightarrow> j = 3" "bit S_ISGID j \<longleftrightarrow> j = 10"
    using bit_exp_iff [where ?'a = int, of 3 j] bit_exp_iff [where ?'a = int, of 10 j]
    by (auto simp: S_IXGRP_def S_ISGID_def)
  then show ?thesis by (auto simp: foo_mode_def bit_or_iff bit_and_iff bit_not_iff)
qed

text \<open>ch03_fcntl.c repeats \<open>set_fl\<close> of the library.\<close>

lemma set_flags_is_set_fl: "set_flags K fd flags = set_fl K fd flags"
  by (simp add: set_flags_def set_fl_def io_when_def)

text \<open>A template in read-only memory ends the program.\<close>

lemma make_temp_literal: "make_temp K False tmpl w = (Killed SIGSEGV, w)"
  by (simp add: make_temp_def io_bind_def)

text \<open>The type of a file depends on its type bits alone.\<close>

lemma type_name_perms: "type_name (or m (and p 4095)) = type_name m"
proof -
  have z: "and 4095 S_IFMT = 0" by (simp add: S_IFMT_def)
  have "and (or m (and p 4095)) S_IFMT = or (and m S_IFMT) (and p (and 4095 S_IFMT))"
    by (simp add: bit.conj_disj_distrib2 and.assoc)
  then have "and (or m (and p 4095)) S_IFMT = and m S_IFMT" unfolding z by simp
  then show ?thesis by (simp add: type_name_def)
qed

section \<open>Listing a directory\<close>

lemma ls_turn_entry:
  assumes "w_kern w = (cnt, left)" "left d = s # ss"
  shows "\<exists>w'. ls_turn (tree_fs rt) (int d) () w = (Ok (Inl ()), w') \<and> w_kern w' = (cnt, left(d := ss)) \<and>
    prints (w_trace w') = prints (w_trace w) @ [[AStr ''%s'', AStr s]]"
  using assms
  by (simp add: ls_turn_def printf_def do_call_def io_then_def io_bind_def sys_r_run fs_readdir answer_def tree_fs_def)

lemma ls_turn_end:
  assumes "w_kern w = (cnt, left)" "left d = []"
  shows "\<exists>w'. ls_turn (tree_fs rt) (int d) () w = (Ok (Inr ()), w') \<and> prints (w_trace w') = prints (w_trace w)"
  using assms by (simp add: ls_turn_def io_bind_def sys_r_run fs_readdir_end answer_def)

lemma ls_loop:
  assumes "w_kern w = (cnt, left)" "left d = ss" "length ss < fuel"
  shows "\<exists>w'. io_loop fuel (ls_turn (tree_fs rt) (int d)) () w = (Ok (), w') \<and>
    prints (w_trace w') = prints (w_trace w) @ map (\<lambda>s. [AStr ''%s'', AStr s]) ss"
  using assms
proof (induction ss arbitrary: w left fuel)
  case Nil
  then obtain n where n: "fuel = Suc n" by (cases fuel) auto
  obtain w' where "ls_turn (tree_fs rt) (int d) () w = (Ok (Inr ()), w')" "prints (w_trace w') = prints (w_trace w)"
    using ls_turn_end [OF Nil.prems(1,2)] by blast
  with n show ?case by (simp add: io_bind_def)
next
  case (Cons s ss)
  then obtain n where n: "fuel = Suc n" "length ss < n" by (cases fuel) auto
  obtain w1 where 1: "ls_turn (tree_fs rt) (int d) () w = (Ok (Inl ()), w1)" "w_kern w1 = (cnt, left(d := ss))"
      "prints (w_trace w1) = prints (w_trace w) @ [[AStr ''%s'', AStr s]]"
    using ls_turn_entry [OF Cons.prems(1,2)] by blast
  have "(left(d := ss)) d = ss" by simp
  from Cons.IH [OF 1(2) this n(2)] obtain w2 where
    "io_loop n (ls_turn (tree_fs rt) (int d)) () w1 = (Ok (), w2)"
    "prints (w_trace w2) = prints (w_trace w1) @ map (\<lambda>s. [AStr ''%s'', AStr s]) ss" by blast
  with n 1 show ?case by (simp add: io_bind_def)
qed

section \<open>The property\<close>

text \<open>
  Claim C37. On a file system that answers from a finite tree, ch01_ls.c given a directory prints the
  two dots and the names of its entries, each once, in order and nothing else, and ends with status 0;
  three turns more than there are entries are enough.
\<close>

theorem ls_lists_entries:
  assumes "lookup rt (comps d) = Some (Folder es)" "length es + 3 \<le> fuel" "w_kern w = (cnt, left)"
  shows "\<exists>w'. ls_main (tree_fs rt) fuel [prog, d] w = (Exited 0, w') \<and>
    prints (w_trace w') = prints (w_trace w) @ map (\<lambda>s. [AStr ''%s'', AStr s]) (''.'' # ''..'' # map fst es)"
proof -
  let ?ss = "''.'' # ''..'' # map fst es"
  let ?w = "w\<lparr>w_kern := (Suc cnt, left(Suc cnt := ?ss)), w_trace := w_trace w @ [((''opendir'', [AStr d]), int cnt + 1)]\<rparr>"
  have opened: "sys (tree_fs rt) ''opendir'' [AStr d] w = (Ok (int cnt + 1), ?w)"
    using assms(1,3) by (simp add: sys_def io_bind_def sys_r_run fs_opendir answer_def)
  have "w_kern ?w = (Suc cnt, left(Suc cnt := ?ss))" "(left(Suc cnt := ?ss)) (Suc cnt) = ?ss" "length ?ss < fuel"
    using assms(2) by simp_all
  from ls_loop [OF this, of rt] obtain w1 where
    1: "io_loop fuel (ls_turn (tree_fs rt) (int cnt + 1)) () ?w = (Ok (), w1)"
      "prints (w_trace w1) = prints (w_trace ?w) @ map (\<lambda>s. [AStr ''%s'', AStr s]) ?ss"
    by (auto simp: add.commute)
  obtain w2 where "do_call (tree_fs rt) ''closedir'' [AInt (int cnt + 1)] w1 = (Ok (), w2)"
      "prints (w_trace w2) = prints (w_trace w1)"
    by (simp add: do_call_def io_bind_def sys_r_run)
  with 1 opened show ?thesis
    by (simp add: ls_main_def io_then_def io_bind_Ok [where m = "sys (tree_fs rt) ''opendir'' [AStr d]", OF opened])
      (simp add: io_bind_def)
qed

lemma ls_lists_entries_witness:
  "\<exists>w'. ls_main (tree_fs (Folder [(''a'', Leaf Reg), (''b'', Folder [])])) 5 [''ls'', ''/''] (start (0, \<lambda>_. [])) = (Exited 0, w') \<and>
    prints (w_trace w') = map (\<lambda>s. [AStr ''%s'', AStr s]) [''.'', ''..'', ''a'', ''b'']"
  using ls_lists_entries [of "Folder [(''a'', Leaf Reg), (''b'', Folder [])]" "''/''" "[(''a'', Leaf Reg), (''b'', Folder [])]"
      5 "start (0, \<lambda>_. [])" 0 "\<lambda>_. []" "''ls''"]
  by (simp add: start_def comps_def)

end
