(* ===== verification/SysLimits.thy ===== *)
theory SysLimits
  imports Daemon
begin

text \<open>
  What a program can ask its system: limits (ch02_symbol.c, ch02_pathalloc.c, ch07_resource.c), users,
  groups, times and names (src/apue/ch06), and the records of process accounting (ch08_acct.c). A symbol
  that the headers of a system may define is an argument, \<open>None\<close> if they do not. A reply about a user or
  group has its name first; the other members follow as the arguments of one list.

  The properties: the numbers of accounting records are mantissa and exponent to base 8, exactly and
  without overflow; the searches by name return the first entry of that name and none other.
\<close>

section \<open>ch02_symbol.c, ch02_pathalloc.c\<close>

definition unlimited :: "'k kernel \<Rightarrow> string \<Rightarrow> arg list \<Rightarrow> int \<Rightarrow> (('k, 'z) world_scheme, unit) io" where
  "unlimited K msg args val =
     (if val < 0 then
        io_bind get_errno (\<lambda>e.
        if e \<noteq> 0 then
          (if e = EINVAL then do_call K ''fputs'' [AStr (''(not suppported)'' @ [NL]), AStr ''stdout'']
           else err_sys K msg args)
        else do_call K ''fputs'' [AStr ''(no limit)]n'', AStr ''stdout''])
      else printf K '' %ld'' [AInt val])"

definition pr_sysconf :: "'k kernel \<Rightarrow> string \<Rightarrow> int \<Rightarrow> (('k, 'z) world_scheme, unit) io" where
  "pr_sysconf K mesg nm =
     io_then (do_call K ''fputs'' [AStr mesg, AStr ''stdout''])
     (io_then (set_errno 0)
     (io_bind (sys K ''sysconf'' [AInt nm]) (unlimited K ''sysconf error'' [])))"

definition pr_pathconf :: "'k kernel \<Rightarrow> string \<Rightarrow> string \<Rightarrow> int \<Rightarrow> (('k, 'z) world_scheme, unit) io" where
  "pr_pathconf K mesg path nm =
     io_then (do_call K ''fputs'' [AStr mesg, AStr ''stdout''])
     (io_then (set_errno 0)
     (io_bind (sys K ''pathconf'' [AStr path, AInt nm]) (unlimited K ''pathconf error, path=%s'' [AStr path])))"

definition symbol_main ::
  "'k kernel \<Rightarrow> int option \<Rightarrow> int option \<Rightarrow> int option \<Rightarrow> int option \<Rightarrow> string list \<Rightarrow> (('k, 'z) world_scheme, unit) io"
where
  "symbol_main K has_arg_max has_sc_arg_max has_max_canon has_pc_max_canon argv =
     (if length argv \<noteq> 2 then err_quit K ''usage: a.out <dirname>'' []
      else
        io_seq
          [case has_arg_max of Some v \<Rightarrow> printf K ''ARG_MAX defined to be %ld'' [AInt v] | None \<Rightarrow> printf K ''no symbol for ARG_MAX'' [],
           case has_sc_arg_max of Some v \<Rightarrow> pr_sysconf K ''ARG_MAX ='' v | None \<Rightarrow> printf K ''no symbol for _SC_ARG_MAX'' [],
           case has_max_canon of Some v \<Rightarrow> printf K ''MAX_CANON defined to be %ld'' [AInt v] | None \<Rightarrow> printf K ''no symbol for MAX_CANON'' [],
           case has_pc_max_canon of Some v \<Rightarrow> pr_pathconf K ''ARG_CANON ='' (argv ! 1) v | None \<Rightarrow> printf K ''no symbol for _PC_MAX_CANON'' [],
           io_exit 0])"

text \<open>The copy of \<open>path_alloc\<close>, with its three slips (\<open>siep\<close>, \<open>sizep\<close>, \<open>null\<close>) read as meant.\<close>

definition ch02_path_alloc :: "'k kernel \<Rightarrow> (('k, 'z) lim_scheme, int \<times> int) io" where
  "ch02_path_alloc K =
     io_bind (io_get lm_posix_version) (\<lambda>poxis_version.
     io_then
       (io_when (poxis_version = 0)
          (io_bind (sys K ''sysconf'' [AStr ''_SC_VERSION'']) (\<lambda>v. io_mod (\<lambda>w. w\<lparr>lm_posix_version := v\<rparr>))))
     (io_bind (io_get lm_xsi_version) (\<lambda>xsi_version.
      io_then
        (io_when (xsi_version = 0)
           (io_bind (sys K ''sysconf'' [AStr ''_SC_XOPEN_VERSION'']) (\<lambda>v. io_mod (\<lambda>w. w\<lparr>lm_xsi_version := v\<rparr>))))
      (io_bind (io_get lm_pathmax) (\<lambda>pathmax.
       io_then
         (io_when (pathmax = 0)
            (io_then (set_errno 0)
            (io_bind (sys K ''pathconf'' [AStr ''/'', AStr ''_PC_PATH_MAX'']) (\<lambda>m.
             io_then (io_mod (\<lambda>w. w\<lparr>lm_pathmax := m\<rparr>))
             (if m < 0 then
                io_bind get_errno (\<lambda>e.
                if e = 0 then io_mod (\<lambda>w. w\<lparr>lm_pathmax := PATH_MAX_GUESS\<rparr>)
                else err_sys K ''pathconf error for _PC_PATH_MAX'' [])
              else io_mod (\<lambda>w. w\<lparr>lm_pathmax := lm_pathmax w + 1\<rparr>))))))
       (io_bind (io_get (\<lambda>w. if lm_posix_version w < 200112 \<and> lm_xsi_version w < 4 then lm_pathmax w + 1 else lm_pathmax w)) (\<lambda>sz.
        io_bind (sys K ''malloc'' [AInt sz]) (\<lambda>ptr.
        if ptr = 0 then err_sys K ''malloc error for pathname'' [] else io_return (ptr, sz)))))))))"

section \<open>ch07_resource.c\<close>

text \<open>\<open>getrlimit\<close> delivers the two limits.\<close>

definition pr_limits :: "'k kernel \<Rightarrow> string \<Rightarrow> int \<Rightarrow> (('k, 'z) world_scheme, unit) io" where
  "pr_limits K name resource =
     io_bind (sys_r K ''getrlimit'' [AInt resource]) (\<lambda>limit.
     if r_ret limit < 0 then err_sys K ''getrlimit error for %s'' [AStr name]
     else
       io_seq
         [printf K ''%-14s '' [AStr name],
          if int_at limit 0 = RLIM_INFINITY then printf K ''(infinite) '' [] else printf K ''%10lld '' [AInt (int_at limit 0)],
          if int_at limit 1 = RLIM_INFINITY then printf K ''(infinite) '' [] else printf K ''%10lld '' [AInt (int_at limit 1)],
          printf K [NL] []])"

text \<open>The names in the order of the program. The six that every system has are always defined.\<close>

definition limit_names :: "string list" where
  "limit_names =
     [''RLIMIT_AS'', ''RLIMIT_CORE'', ''RLIMIT_CPU'', ''RLIMIT_DATA'', ''RLIMIT_FSIZE'', ''RLIMIT_MEMLOCK'',
      ''RLIMIT_MSGQUEUE'', ''RLIMIT_NICE'', ''RLIMIT_NOFILE'', ''RLIMIT_NPROC'', ''RLIMIT_NPTS'', ''RLIMIT_RSS'',
      ''RLIMIT_SBSIZE'', ''RLIMIT_SIGPENDING'', ''RLIMIT_STACK'', ''RLIMIT_SWAP'', ''RLIMIT_VMEM'']"

definition resource_main :: "'k kernel \<Rightarrow> (string \<Rightarrow> int option) \<Rightarrow> (('k, 'z) world_scheme, unit) io" where
  "resource_main K symbol =
     io_then
       (io_each (\<lambda>name. case symbol name of None \<Rightarrow> io_return () | Some v \<Rightarrow> pr_limits K name v) limit_names)
       (io_exit 0)"

section \<open>ch06\<close>

text \<open>The search that the three programs repeat for groups, users and shadow entries.\<close>

definition entry_turn ::
  "'k kernel \<Rightarrow> string \<Rightarrow> string \<Rightarrow> unit \<Rightarrow> (('k, 'z) world_scheme, unit + reply option) io" where
  "entry_turn K get name _ =
     io_bind (sys_r K get []) (\<lambda>ptr.
     if r_ret ptr \<noteq> 0 then
       (if name = r_str ptr then io_return (Inr (Some ptr)) else io_return (Inl ()))
     else io_return (Inr None))"

definition getgrnam :: "'k kernel \<Rightarrow> nat \<Rightarrow> string \<Rightarrow> (('k, 'z) world_scheme, reply option) io" where
  "getgrnam K fuel name =
     io_then (do_call K ''setgrent'' [])
     (io_bind (io_loop fuel (entry_turn K ''getgrent'' name) ()) (\<lambda>ptr.
      io_then (do_call K ''endgrent'' []) (io_return ptr)))"

definition getpwnam :: "'k kernel \<Rightarrow> nat \<Rightarrow> string \<Rightarrow> (('k, 'z) world_scheme, reply option) io" where
  "getpwnam K fuel name =
     io_then (do_call K ''setpwent'' [])
     (io_bind (io_loop fuel (entry_turn K ''getpwent'' name) ()) (\<lambda>ptr.
      io_then (do_call K ''endpwent'' []) (io_return ptr)))"

definition getspnam :: "'k kernel \<Rightarrow> nat \<Rightarrow> string \<Rightarrow> (('k, 'z) world_scheme, reply option) io" where
  "getspnam K fuel name =
     io_then (do_call K ''setspent'' [])
     (io_bind (io_loop fuel (entry_turn K ''getspent'' name) ()) (\<lambda>ptr.
      io_then (do_call K ''endspent'' []) (io_return ptr)))"

text \<open>
  The members that are strings are read through the entry's pointer (\<open>member\<close>), the numbers come with
  the entry. A group without members has a null pointer as the first one.
\<close>

definition member :: "'k kernel \<Rightarrow> reply \<Rightarrow> string \<Rightarrow> (('k, 'z) world_scheme, arg) io" where
  "member K ptr field =
     io_bind (sys_r K ''member'' [AInt (r_ret ptr), AStr field]) (\<lambda>m.
     io_return (if r_ret m = 0 then ANull else AStr (r_str m)))"

definition pr_member :: "'k kernel \<Rightarrow> reply \<Rightarrow> string \<Rightarrow> (('k, 'z) world_scheme, unit) io" where
  "pr_member K ptr field =
     io_bind (member K ptr field) (\<lambda>m. printf K (field @ '' = %s'') [m])"

definition getgrname_main :: "'k kernel \<Rightarrow> nat \<Rightarrow> string list \<Rightarrow> (('k, 'z) world_scheme, unit) io" where
  "getgrname_main K fuel argv =
     (if length argv \<noteq> 2 then err_quit K ''usage: a.out <groupname>'' []
      else
        io_bind (getgrnam K fuel (argv ! 1)) (\<lambda>g.
        case g of
          None \<Rightarrow> err_quit K ''groupname not exists'' []
        | Some ptr \<Rightarrow>
            io_seq
              [printf K ''gr_name = %s'' [AStr (r_str ptr)],
               pr_member K ptr ''gr_passwd'',
               printf K ''gr_gid = %d'' [AInt (int_at ptr 0)],
               pr_member K ptr ''gr_mem[0]'',
               io_exit 0]))"

definition getpwnam_main :: "'k kernel \<Rightarrow> nat \<Rightarrow> string list \<Rightarrow> (('k, 'z) world_scheme, unit) io" where
  "getpwnam_main K fuel argv =
     (if length argv \<noteq> 2 then err_quit K ''usage: a.out <username>'' []
      else
        io_bind (getpwnam K fuel (argv ! 1)) (\<lambda>p.
        case p of
          None \<Rightarrow> err_quit K ''username not exists'' []
        | Some ptr \<Rightarrow>
            io_seq
              [printf K ''pw_name = %s'' [AStr (r_str ptr)],
               pr_member K ptr ''pw_passwd'',
               printf K ''pw_uid = %d'' [AInt (int_at ptr 0)],
               printf K ''pw_gid = %d'' [AInt (int_at ptr 1)],
               pr_member K ptr ''pw_gecos'', pr_member K ptr ''pw_dir'', pr_member K ptr ''pw_shell'',
               pr_member K ptr ''pw_class'',
               printf K ''pw_change = %ld'' [AInt (int_at ptr 2)],
               printf K ''pw_expire = %ld'' [AInt (int_at ptr 3)],
               io_exit 0]))"

definition getspnam_main :: "'k kernel \<Rightarrow> nat \<Rightarrow> string list \<Rightarrow> (('k, 'z) world_scheme, unit) io" where
  "getspnam_main K fuel argv =
     (if length argv \<noteq> 2 then err_quit K ''usage: a.out <username>'' []
      else
        io_bind (getspnam K fuel (argv ! 1)) (\<lambda>p.
        case p of
          None \<Rightarrow> err_quit K ''username not exists'' []
        | Some ptr \<Rightarrow>
            io_seq
              [printf K ''sp_namp = %s'' [AStr (r_str ptr)],
               pr_member K ptr ''sp_pwdp'',
               printf K ''sp_lstchg = %d'' [AInt (int_at ptr 0)],
               printf K ''sp_min = %d'' [AInt (int_at ptr 1)],
               printf K ''sp_max = %d'' [AInt (int_at ptr 2)],
               printf K ''sp_warn = %d'' [AInt (int_at ptr 3)],
               printf K ''sp_inact = %d'' [AInt (int_at ptr 4)],
               printf K ''sp_expire = %d'' [AInt (int_at ptr 5)],
               printf K ''sp_flag = %d'' [AInt (int_at ptr 6)],
               io_exit 0]))"

definition EFAULT :: int where "EFAULT = 14"
definition NGROUPS :: int where "NGROUPS = 32"

text \<open>The array has 32 entries; the call stores as many as it is told there is room for,
  which nobody bounds. An entry it has not stored is not read.\<close>

definition getgroups :: "'k kernel \<Rightarrow> int \<Rightarrow> (('k, 'z) world_scheme, int \<times> int list) io" where
  "getgroups K n =
     io_bind (sys_r K ''getgroups'' [AInt n]) (\<lambda>r.
     if int (length (r_ints r)) > NGROUPS then io_fault OutOfBounds
     else if r_ret r = - 1 then
       io_bind get_errno (\<lambda>e.
       io_then
         (if e = EFAULT then printf K ''invalid grouplist'' []
          else if e = EINVAL then printf K ''size too small'' []
          else io_return ())
         (err_quit K ''getgroups error'' []))
     else io_return (r_ret r, r_ints r))"

definition group_line :: "'k kernel \<Rightarrow> int \<Rightarrow> (('k, 'z) world_scheme, unit) io" where
  "group_line K gid =
     io_then (printf K ''gid = %u'' [AInt gid])
     (io_bind (sys_r K ''getgrgid'' [AInt gid]) (\<lambda>gptr.
      if r_ret gptr = 0 then printf K ''getgrgid error'' []
      else printf K '' group name = %s'' [AStr (r_str gptr)]))"

definition getgroups_main :: "'k kernel \<Rightarrow> (('k, 'z) world_scheme, unit) io" where
  "getgroups_main K =
     io_bind (getgroups K 0) (\<lambda>(n, _).
     io_bind (getgroups K n) (\<lambda>(n, grouplist).
     io_then (printf K ''n = %d, group id list: '' [AInt n])
     (io_then (io_each (\<lambda>i. io_bind (io_lift (rd i 1 grouplist)) (\<lambda>g. group_line K (hd g))) [0..n - 1])
       (io_exit 0))))"

definition strftime_main :: "'k kernel \<Rightarrow> (('k, 'z) world_scheme, unit) io" where
  "strftime_main K =
     io_bind (sys_r K ''time'' []) (\<lambda>t.
     io_bind (sys K ''localtime'' [AInt (int_at t 0)]) (\<lambda>tmp.
     let put = (\<lambda>len. io_bind (sys_r K ''strftime'' [AInt len, AStr ''time and date: %r, %a %b %d, %Y'', AInt tmp]) (\<lambda>s.
           if r_ret s = 0 then printf K (''buffer length '' @ int_string len @ '' is too small'') []
           else printf K ''%s'' [AStr (r_str s)]))
     in io_seq [put 16, put 64, io_exit 0]))"

text \<open>The five names are members of the structure.\<close>

definition uname_main :: "'k kernel \<Rightarrow> (('k, 'z) world_scheme, unit) io" where
  "uname_main K =
     io_bind (sys_r K ''uname'' []) (\<lambda>info.
     if r_ret info = - 1 then err_quit K ''uname error'' []
     else
       io_seq
         [pr_member K info ''sysname'', pr_member K info ''nodename'', pr_member K info ''release'',
          pr_member K info ''version'', pr_member K info ''machine'', io_exit 0])"

section \<open>ch08_acct.c\<close>

text \<open>A \<open>comp_t\<close> has 16 bits, an \<open>unsigned long\<close> 64.\<close>

fun acct_loop :: "64 word \<Rightarrow> nat \<Rightarrow> 64 word" where
  "acct_loop val 0 = val"
| "acct_loop val (Suc e) = acct_loop (val * 8) e"

definition compt2ulong :: "16 word \<Rightarrow> 64 word" where
  "compt2ulong comptime =
     acct_loop (ucast (and comptime 0x1FFF)) (unat (and (drop_bit 13 comptime) 7))"

definition AFORK :: int where "AFORK = 1"
definition ASU :: int where "ASU = 2"
definition ACORE :: int where "ACORE = 0"
definition AXSIG :: int where "AXSIG = 0"

text \<open>\<open>fread\<close> delivers the name and, as numbers, \<open>ac_etime\<close>, \<open>ac_io\<close>, \<open>ac_flag\<close>. The name has 16 characters.\<close>

definition acct_turn :: "'k kernel \<Rightarrow> int \<Rightarrow> unit \<Rightarrow> (('k, 'z) world_scheme, unit + unit) io" where
  "acct_turn K fp _ =
     io_bind (sys_r K ''fread'' [AStr ''acdata'', AInt 1, AInt fp]) (\<lambda>a.
     if r_ret a = 1 then
       let flag = (\<lambda>bits c. AStr [if and (int_at a 2) bits \<noteq> 0 then c else CHR '' '']) in
       io_then
         (printf K ''%-*.*s e = %6ld, chars = %7ld, %c %c %c %c''
            [AInt 16, AInt 16, AStr (r_str a),
             AInt (uint (compt2ulong (word_of_int (int_at a 0)))), AInt (uint (compt2ulong (word_of_int (int_at a 1)))),
             flag ACORE CHR ''D'', flag AXSIG CHR ''X'', flag AFORK CHR ''F'', flag ASU CHR ''S''])
         (io_return (Inl ()))
     else io_return (Inr ()))"

definition acct_main :: "'k kernel \<Rightarrow> nat \<Rightarrow> string list \<Rightarrow> (('k, 'z) world_scheme, unit) io" where
  "acct_main K fuel argv =
     (if length argv \<noteq> 2 then err_quit K ''usage: pracct filename'' []
      else
        io_bind (sys K ''fopen'' [AStr (argv ! 1), AStr ''r'']) (\<lambda>fp.
        if fp = 0 then err_sys K ''can't open %s'' [AStr (argv ! 1)]
        else
          io_bind (io_loop fuel (acct_turn K fp) ()) (\<lambda>_.
          io_bind (sys K ''ferror'' [AInt fp]) (\<lambda>e.
          if e \<noteq> 0 then err_sys K ''read error'' [] else io_exit 0))))"
section \<open>Lemmas\<close>

lemma acct_loop_mult: "acct_loop v n = v * 8 ^ n"
  by (induction n arbitrary: v) (simp_all add: ac_simps)

lemma uint_acct:
  fixes m :: int and n :: nat
  assumes "0 \<le> m" "m < 8192" "n \<le> 7"
  shows "uint (word_of_int m * 8 ^ n :: 64 word) = m * 8 ^ n" "m * 8 ^ n < 2 ^ 34"
proof -
  have "(8 :: int) ^ n \<le> 8 ^ 7" using assms(3) by (intro power_increasing) auto
  then have "m * 8 ^ n \<le> 8191 * 8 ^ 7" using assms by (intro mult_mono) auto
  then show lt: "m * 8 ^ n < 2 ^ 34" by simp
  have e: "(word_of_int m * 8 ^ n :: 64 word) = word_of_int (m * 8 ^ n)" by simp
  have "0 \<le> m * 8 ^ n" using assms by simp
  then show "uint (word_of_int m * 8 ^ n :: 64 word) = m * 8 ^ n"
    unfolding e uint_word_of_int using lt by (intro mod_pos_pos_trivial) auto
qed

text \<open>Both copies of \<open>path_alloc\<close> do the same.\<close>

lemma ch02_path_alloc_is_path_alloc: "ch02_path_alloc K w = path_alloc K w"
  unfolding ch02_path_alloc_def path_alloc_def
  by (simp add: io_then_def io_when_def sys_def io_bind_def sys_r_run set_errno_def get_errno_def Let_def)

text \<open>A data base of entries with a position, as the calls of the library see it.\<close>

definition db_entry :: "(string \<times> int list) list \<Rightarrow> nat \<Rightarrow> reply" where
  "db_entry db i = \<lparr>r_ret = int i + 1, r_err = None, r_ints = snd (db ! i), r_bytes = [], r_str = fst (db ! i)\<rparr>"

definition db_kernel :: "(string \<times> int list) list \<Rightarrow> nat kernel" where
  "db_kernel db c pos =
     (if fst c \<in> {''setgrent'', ''setpwent'', ''setspent''} then (ret_only 0, 0)
      else if fst c \<in> {''getgrent'', ''getpwent'', ''getspent''} then
        (if pos < length db then (db_entry db pos, Suc pos) else (ret_only 0, pos))
      else (ret_only 0, pos))"

fun first_from :: "(string \<times> int list) list \<Rightarrow> string \<Rightarrow> nat \<Rightarrow> nat \<Rightarrow> nat option" where
  "first_from db name i 0 = None"
| "first_from db name i (Suc n) = (if fst (db ! i) = name then Some i else first_from db name (Suc i) n)"

lemma entry_loop:
  assumes "get \<in> {''getgrent'', ''getpwent'', ''getspent''}" "w_kern w = i" "i + n = length db" "n < fuel"
  shows "\<exists>w'. io_loop fuel (entry_turn (db_kernel db) get name) () w =
    (Ok (map_option (db_entry db) (first_from db name i n)), w')"
  using assms(2-)
proof (induction n arbitrary: i w fuel)
  case 0
  have "get \<notin> {''setgrent'', ''setpwent'', ''setspent''}" using assms(1) by auto
  then have "db_kernel db (get, []) i = (ret_only 0, i)" using 0 assms(1) by (simp add: db_kernel_def)
  then have "fst (entry_turn (db_kernel db) get name () w) = Ok (Inr None)"
    using 0 by (simp add: entry_turn_def io_bind_def sys_r_run ret_only_def)
  then obtain w' where "entry_turn (db_kernel db) get name () w = (Ok (Inr None), w')" by (metis prod.collapse)
  moreover obtain f where "fuel = Suc f" using 0 by (cases fuel) auto
  ultimately show ?case by (simp add: io_bind_def)
next
  case (Suc n)
  have "get \<notin> {''setgrent'', ''setpwent'', ''setspent''}" using assms(1) by auto
  then have k: "db_kernel db (get, []) i = (db_entry db i, Suc i)" using Suc.prems assms(1) by (simp add: db_kernel_def)
  obtain f where f: "fuel = Suc f" "n < f" using Suc.prems by (cases fuel) auto
  show ?case
  proof (cases "fst (db ! i) = name")
    case True
    with k Suc.prems have "fst (entry_turn (db_kernel db) get name () w) = Ok (Inr (Some (db_entry db i)))"
      by (simp add: entry_turn_def io_bind_def sys_r_run db_entry_def)
    then obtain w' where "entry_turn (db_kernel db) get name () w = (Ok (Inr (Some (db_entry db i))), w')"
      by (metis prod.collapse)
    with f True show ?thesis by (simp add: io_bind_def)
  next
    case False
    with k Suc.prems obtain w' where w': "entry_turn (db_kernel db) get name () w = (Ok (Inl ()), w')" "w_kern w' = Suc i"
      by (auto simp: entry_turn_def io_bind_def sys_r_run db_entry_def)
    obtain w2 where "io_loop f (entry_turn (db_kernel db) get name) () w' =
        (Ok (map_option (db_entry db) (first_from db name (Suc i) n)), w2)"
      using Suc.IH [OF w'(2) _ f(2)] Suc.prems(2) by auto
    with f False w'(1) show ?thesis by (simp add: io_bind_def)
  qed
qed

lemma first_from_spec:
  "i + n = length db \<Longrightarrow>
   (case first_from db name i n of
      None \<Rightarrow> \<forall>j. i \<le> j \<and> j < length db \<longrightarrow> fst (db ! j) \<noteq> name
    | Some k \<Rightarrow> i \<le> k \<and> k < length db \<and> fst (db ! k) = name \<and> (\<forall>j. i \<le> j \<and> j < k \<longrightarrow> fst (db ! j) \<noteq> name))"
proof (induction n arbitrary: i)
  case (Suc n)
  have before: "(\<forall>j. i \<le> j \<and> j < m \<longrightarrow> fst (db ! j) \<noteq> name) \<longleftrightarrow>
      (i < m \<longrightarrow> fst (db ! i) \<noteq> name) \<and> (\<forall>j. Suc i \<le> j \<and> j < m \<longrightarrow> fst (db ! j) \<noteq> name)" for m
    by (metis Suc_le_eq le_less order.refl)
  show ?case
  proof (cases "fst (db ! i) = name")
    case True
    with Suc.prems show ?thesis by auto
  next
    case False
    with Suc.IH [of "Suc i"] Suc.prems show ?thesis
      unfolding before by (auto split: option.splits)
  qed
qed auto

definition found_first :: "(string \<times> int list) list \<Rightarrow> string \<Rightarrow> reply option \<Rightarrow> bool" where
  "found_first db name r \<longleftrightarrow>
     (case r of
        None \<Rightarrow> name \<notin> set (map fst db)
      | Some p \<Rightarrow> \<exists>k < length db. p = db_entry db k \<and> fst (db ! k) = name \<and> (\<forall>j < k. fst (db ! j) \<noteq> name))"

lemma found_first_from: "found_first db name (map_option (db_entry db) (first_from db name 0 (length db)))"
proof (cases "first_from db name 0 (length db)")
  case None
  then have "\<forall>j < length db. fst (db ! j) \<noteq> name" using first_from_spec [of 0 "length db" db name] by simp
  then have "name \<notin> set (map fst db)" unfolding in_set_conv_nth by auto
  with None show ?thesis by (simp add: found_first_def)
next
  case (Some k)
  then have "k < length db \<and> fst (db ! k) = name \<and> (\<forall>j < k. fst (db ! j) \<noteq> name)"
    using first_from_spec [of 0 "length db" db name] by simp
  then have "found_first db name (Some (db_entry db k))" unfolding found_first_def by auto
  then show ?thesis using Some by simp
qed

lemma search_db:
  assumes "rew \<in> {''setgrent'', ''setpwent'', ''setspent''}" "get \<in> {''getgrent'', ''getpwent'', ''getspent''}"
    "length db < fuel"
  shows "\<exists>p w'. io_then (do_call (db_kernel db) rew [])
      (io_bind (io_loop fuel (entry_turn (db_kernel db) get name) ()) (\<lambda>ptr.
       io_then (do_call (db_kernel db) fin []) (io_return ptr))) w = (Ok p, w') \<and> found_first db name p"
proof -
  obtain w1 where 1: "do_call (db_kernel db) rew [] w = (Ok (), w1)" "w_kern w1 = 0"
    using assms(1) by (auto simp: do_call_def io_bind_def sys_r_run db_kernel_def)
  obtain w2 where 2: "io_loop fuel (entry_turn (db_kernel db) get name) () w1 =
      (Ok (map_option (db_entry db) (first_from db name 0 (length db))), w2)"
    using entry_loop [OF assms(2) 1(2) _ assms(3)] by auto
  obtain w3 where "do_call (db_kernel db) fin [] w2 = (Ok (), w3)"
    by (auto simp: do_call_def io_bind_def sys_r_run)
  with 1(1) 2 found_first_from [of db name] show ?thesis by (simp add: io_then_def io_bind_def)
qed

text \<open>
  In every data base of groups, users or shadow entries, wherever it was being read before,
  getgrnam, getpwnam and getspnam of src/apue/ch06 return the first entry of the name they are asked for, with its numbers,
  and NULL exactly when there is none; one turn more than there are entries is enough.
\<close>

theorem getxxnam_finds_first:
  assumes "length db < fuel"
  shows "(\<exists>p w'. getgrnam (db_kernel db) fuel name w = (Ok p, w') \<and> found_first db name p) \<and>
    (\<exists>p w'. getpwnam (db_kernel db) fuel name w = (Ok p, w') \<and> found_first db name p) \<and>
    (\<exists>p w'. getspnam (db_kernel db) fuel name w = (Ok p, w') \<and> found_first db name p)"
  unfolding getgrnam_def getpwnam_def getspnam_def
  by (intro conjI search_db [OF _ _ assms]) simp_all

lemma getxxnam_finds_first_witness:
  "\<exists>p w'. getpwnam (db_kernel [(''root'', [0, 0]), (''ann'', [7, 7]), (''ann'', [8, 8])]) 4 ''ann'' (start 2) = (Ok p, w') \<and>
     found_first [(''root'', [0, 0]), (''ann'', [7, 7]), (''ann'', [8, 8])] ''ann'' p"
  using getxxnam_finds_first [of "[(''root'', [0, 0]), (''ann'', [7, 7]), (''ann'', [8, 8])]" 4 "''ann''" "start 2", THEN conjunct2,
      THEN conjunct1] by simp

text \<open>
  Claim C38. For every 16-bit accounting number the conversion of ch08_acct.c gives its 13-bit mantissa times 8 to
  its 3-bit exponent, exactly: the result is below 2 to the 34 and nothing is lost in 64 bits.
\<close>

theorem compt2ulong_exact:
  "uint (compt2ulong c) = (uint c mod 8192) * 8 ^ nat (uint c div 8192) \<and> uint (compt2ulong c) < 2 ^ 34"
proof -
  let ?m = "uint c mod 8192" and ?n = "nat (uint c div 8192)"
  have c: "0 \<le> uint c" "uint c < 65536" using unsigned_less [of c, where ?'a = int] by auto
  have m: "ucast (and c 0x1FFF) = (word_of_int ?m :: 64 word)"
  proof -
    have "and c 0x1FFF = take_bit 13 c" by (simp add: take_bit_eq_mask mask_eq_exp_minus_1)
    then have "uint (and c 0x1FFF) = take_bit 13 (uint c)" by (simp only: unsigned_take_bit_eq)
    then have "uint (and c 0x1FFF) = ?m" by (simp add: take_bit_eq_mod)
    then show ?thesis by (metis word_of_int_uint unsigned_ucast_eq ucast_eq)
  qed
  have n: "unat (and (drop_bit 13 c) 7) = ?n"
  proof -
    have "and (drop_bit 13 c) 7 = take_bit 3 (drop_bit 13 c)" by (simp add: take_bit_eq_mask mask_eq_exp_minus_1)
    then have "uint (and (drop_bit 13 c) 7) = take_bit 3 (uint (drop_bit 13 c))" by (simp only: unsigned_take_bit_eq)
    also have "uint (drop_bit 13 c) = uint c div 8192" by (simp add: drop_bit_eq_div uint_div)
    finally have "uint (and (drop_bit 13 c) 7) = (uint c div 8192) mod 8" by (simp add: take_bit_eq_mod)
    also have "\<dots> = uint c div 8192" using c by (intro mod_pos_pos_trivial pos_imp_zdiv_nonneg_iff [THEN iffD2]) auto
    finally show ?thesis by (metis nat_int of_nat_unat)
  qed
  have "compt2ulong c = word_of_int ?m * 8 ^ ?n" by (simp add: compt2ulong_def acct_loop_mult m n)
  moreover have "?n \<le> 7" using c by auto
  ultimately show ?thesis using uint_acct [of ?m ?n] by simp
qed

end
