(* ===== verification/Jumps.thy ===== *)
theory Jumps
  imports Signals Columns
begin

text \<open>
  Programs that leave functions by other ways than their end: \<open>longjmp\<close> (ch07_jmp.c, ch07_setjmp.c,
  ch10_alarm.c, ch10_pause.c, ch10_sigjmp_func.c) and functions run at exit (ch07_atexit.c). Between
  \<open>setjmp\<close> and its end a program returns \<open>Inl v\<close> when it jumps with value \<open>v\<close>; handlers can jump too.

  The properties: which variables keep their values over a jump; the busy handler of ch10_pause.c
  overflows; functions registered with \<open>atexit\<close> run in reverse order.
\<close>

section \<open>Jumps\<close>

type_synonym ('w, 'a) jio = "('w, int + 'a) io"

definition j_bind :: "('w, 'a) jio \<Rightarrow> ('a \<Rightarrow> ('w, 'b) jio) \<Rightarrow> ('w, 'b) jio" where
  "j_bind m f = io_bind m (\<lambda>r. case r of Inl v \<Rightarrow> io_return (Inl v) | Inr a \<Rightarrow> f a)"

definition j_do :: "('w, 'a) io \<Rightarrow> ('w, 'a) jio" where
  "j_do m = io_bind m (\<lambda>a. io_return (Inr a))"

definition j_then :: "('w, 'a) io \<Rightarrow> ('w, 'b) jio \<Rightarrow> ('w, 'b) jio" where
  "j_then m n = io_bind m (\<lambda>_. n)"

definition longjmp :: "int \<Rightarrow> ('w, 'a) jio" where
  "longjmp v = io_return (Inl (if v = 0 then 1 else v))"

text \<open>What follows when \<open>setjmp\<close> returns 0, and when it returns again.\<close>

definition setjmp :: "('w, 'a) jio \<Rightarrow> (int \<Rightarrow> ('w, 'a) io) \<Rightarrow> ('w, 'a) io" where
  "setjmp first again = io_bind first (\<lambda>r. case r of Inl v \<Rightarrow> again v | Inr a \<Rightarrow> io_return a)"

fun j_each :: "('b \<Rightarrow> ('w, unit) jio) \<Rightarrow> 'b list \<Rightarrow> ('w, unit) jio" where
  "j_each f [] = io_return (Inr ())"
| "j_each f (x # xs) = j_bind (f x) (\<lambda>_. j_each f xs)"

text \<open>A call during which signals are caught; a handler may jump out of it.\<close>

definition j_catching ::
  "'k kernel \<Rightarrow> (int \<Rightarrow> (('k, 'z) world_scheme, unit) jio) \<Rightarrow> string \<Rightarrow> arg list \<Rightarrow> (('k, 'z) world_scheme, reply) jio"
where
  "j_catching K handler nm args =
     io_bind (sys_r K nm args) (\<lambda>r. j_bind (j_each handler (r_ints r)) (\<lambda>_. io_return (Inr r)))"

section \<open>ch07_jmp.c\<close>

text \<open>
  The automatic variables that are not volatile have indeterminate values after the jump: what the
  compiler leaves in them, given the values they had, is an argument.
\<close>

record 'k jmp = "'k world" +
  globval :: int
  staticval :: int
  autoval :: int
  regval :: int
  volaval :: int

definition jmp_fmt :: string where
  "jmp_fmt = ''globval = %d, autoval = %d, regval = %d, volaval = %d, staticval = %d''"

definition jmp_f2 :: "('w, unit) jio" where
  "jmp_f2 = longjmp 1"

definition jmp_f1 :: "'k kernel \<Rightarrow> int \<Rightarrow> int \<Rightarrow> int \<Rightarrow> int \<Rightarrow> ('k jmp, unit) jio" where
  "jmp_f1 K i j k l =
     j_then (printf K ''in f1():'' [])
     (io_bind (io_get globval) (\<lambda>g.
      j_then (printf K jmp_fmt [AInt g, AInt i, AInt j, AInt k, AInt l]) jmp_f2))"

definition jmp_main :: "'k kernel \<Rightarrow> (int \<times> int \<Rightarrow> int \<times> int) \<Rightarrow> ('k jmp, unit) io" where
  "jmp_main K left_over =
     io_then (io_mod (\<lambda>w. w\<lparr>globval := 1, autoval := 2, regval := 3, volaval := 4, staticval := 5\<rparr>))
     (setjmp
        (j_then (io_mod (\<lambda>w. w\<lparr>globval := 95, autoval := 96, regval := 97, volaval := 98, staticval := 99\<rparr>))
         (io_bind (io_get id) (\<lambda>w.
          j_bind (jmp_f1 K (autoval w) (regval w) (volaval w) (staticval w)) (\<lambda>_. j_do (io_exit 0)))))
        (\<lambda>_.
         io_then (printf K ''after longjmp: '' [])
         (io_bind (io_get id) (\<lambda>w.
          io_then
            (case left_over (autoval w, regval w) of (a, r) \<Rightarrow>
               printf K jmp_fmt [AInt (globval w), AInt a, AInt r, AInt (volaval w), AInt (staticval w)])
            (io_exit 0)))))"

section \<open>ch07_setjmp.c\<close>

definition TOK_ADD :: int where "TOK_ADD = 5"

record 'k tok = "'k world" +
  tok_ptr :: string

definition get_token :: "'k kernel \<Rightarrow> ('k tok, int) io" where
  "get_token K =
     io_bind (sys K ''rand'' []) (\<lambda>r.
     if r mod 3 = 0 then io_return (- 1)
     else
       io_bind (io_get tok_ptr) (\<lambda>p.
       io_then (printf K ''%s'' [AStr p]) (io_return TOK_ADD)))"

definition cmd_add :: "'k kernel \<Rightarrow> ('k tok, unit) jio" where
  "cmd_add K =
     io_bind (get_token K) (\<lambda>token.
     if token \<noteq> TOK_ADD then longjmp 1
     else j_do (printf K ''token = %d'' [AInt token]))"

definition line_turn :: "'k kernel \<Rightarrow> unit \<Rightarrow> ('k tok, unit + (int + unit)) io" where
  "line_turn K _ =
     io_bind (sys K ''rand'' []) (\<lambda>r.
     let cmd = r mod 6 in
     if cmd > 1 then
       (if cmd = TOK_ADD then
          io_bind (cmd_add K) (\<lambda>r. io_return (case r of Inl v \<Rightarrow> Inr (Inl v) | Inr _ \<Rightarrow> Inl ()))
        else io_return (Inl ()))
     else io_return (Inr (Inr ())))"

definition do_line :: "'k kernel \<Rightarrow> nat \<Rightarrow> string \<Rightarrow> ('k tok, unit) jio" where
  "do_line K fuel ptr =
     j_then (io_mod (\<lambda>w. w\<lparr>tok_ptr := ptr\<rparr>)) (io_loop fuel (line_turn K) ())"

definition lines_turn :: "'k kernel \<Rightarrow> nat \<Rightarrow> unit \<Rightarrow> ('k tok, unit + (int + unit)) io" where
  "lines_turn K fuel _ =
     io_bind (sys_r K ''fgets'' [AInt (int MAXLINE), AStr ''stdin'']) (\<lambda>l.
     if r_ret l \<noteq> 0 then
       io_bind (do_line K fuel (c_str (r_str l))) (\<lambda>r. io_return (case r of Inl v \<Rightarrow> Inr (Inl v) | Inr _ \<Rightarrow> Inl ()))
     else io_return (Inr (Inr ())))"

definition setjmp_main :: "'k kernel \<Rightarrow> nat \<Rightarrow> ('k tok, unit) io" where
  "setjmp_main K fuel =
     setjmp
       (j_bind (io_loop fuel (lines_turn K fuel) ()) (\<lambda>_. j_do (io_exit 0)))
       (\<lambda>_. err_quit K ''error quit now'' [])"

section \<open>ch10_alarm.c\<close>

definition alrm_jump :: "int \<Rightarrow> ('w, unit) jio" where
  "alrm_jump signo = longjmp 1"

definition alarm_main :: "'k kernel \<Rightarrow> (('k, 'z) world_scheme, unit) io" where
  "alarm_main K =
     io_bind (signal K SIGALRM (APtr ''sig_alrm'')) (\<lambda>r.
     if r = SIG_ERR then err_sys K ''signal(SIGALARM) error'' []
     else
       setjmp
         (j_bind (j_catching K alrm_jump ''alarm'' [AInt 10]) (\<lambda>_.
          j_bind (j_catching K alrm_jump ''read'' [AInt 0, AInt (int MAXLINE)]) (\<lambda>n.
          if r_ret n < 0 then j_do (err_sys K ''read error'' [])
          else
            j_bind (j_catching K alrm_jump ''alarm'' [AInt 0]) (\<lambda>_.
            j_then (do_call K ''write'' [AInt 1, ABytes (take (nat (r_ret n)) (r_bytes n)), AInt (r_ret n)])
              (j_do (io_exit 0))))))
         (\<lambda>_. err_quit K ''read timeout'' []))"

section \<open>ch10_pause.c\<close>

fun busy_row :: "int \<Rightarrow> int \<Rightarrow> nat \<Rightarrow> int \<Rightarrow> int result" where
  "busy_row i j 0 k = Inr k"
| "busy_row i j (Suc n) k =
     rbind (cint (i * j)) (\<lambda>p. rbind (cint (k + p)) (\<lambda>k. busy_row i (j + 1) n k))"

fun busy_rows :: "int \<Rightarrow> nat \<Rightarrow> int \<Rightarrow> int result" where
  "busy_rows i 0 k = Inr k"
| "busy_rows i (Suc n) k = rbind (busy_row i 0 4000 k) (\<lambda>k. busy_rows (i + 1) n k)"

definition busy_sig_int :: "'k kernel \<Rightarrow> (('k, 'z) world_scheme, unit) io" where
  "busy_sig_int K =
     io_then (printf K (NL # ''sig_int starting'') [])
     (io_bind (io_lift (busy_rows 0 300000 0)) (\<lambda>_. printf K ''sig_int finished'' []))"

definition pause_handler :: "'k kernel \<Rightarrow> int \<Rightarrow> (('k, 'z) world_scheme, unit) jio" where
  "pause_handler K signo =
     (if signo = SIGALRM then longjmp 1
      else if signo = SIGINT then j_do (busy_sig_int K) else io_return (Inr ()))"

definition sleep2 :: "'k kernel \<Rightarrow> int \<Rightarrow> (('k, 'z) world_scheme, int) io" where
  "sleep2 K seconds =
     io_bind (signal K SIGALRM (APtr ''sig_alrm'')) (\<lambda>r.
     if r = SIG_ERR then io_return seconds
     else
       io_then
         (setjmp
            (j_bind (j_catching K (pause_handler K) ''alarm'' [AInt seconds]) (\<lambda>_.
             j_bind (j_catching K (pause_handler K) ''pause'' []) (\<lambda>_. io_return (Inr ()))))
            (\<lambda>_. io_return ()))
         (sys K ''alarm'' [AInt 0]))"

definition pause_main :: "'k kernel \<Rightarrow> (('k, 'z) world_scheme, unit) io" where
  "pause_main K =
     io_bind (signal K SIGINT (APtr ''sig_int'')) (\<lambda>r.
     if r = SIG_ERR then err_sys K ''signal(SIGINT) error'' []
     else
       io_bind (sleep2 K 5) (\<lambda>unslept.
       io_then (printf K ''sleep2 returned: %u'' [AInt unslept]) (io_exit 0)))"

section \<open>ch10_sigjmp_func.c\<close>

text \<open>\<open>sigsetjmp\<close> keeps the mask of signals, \<open>siglongjmp\<close> puts it back.\<close>

record 'k sj = "'k world" +
  canjump :: int
  jmpbuf :: "int list"

definition sj_sig_alrm :: "'k kernel \<Rightarrow> int \<Rightarrow> ('k sj, unit) jio" where
  "sj_sig_alrm K signo = j_do (pr_mask K ''in sig_alrm:'')"

definition time_turn :: "'k kernel \<Rightarrow> int \<Rightarrow> unit \<Rightarrow> ('k sj, unit + (int + unit)) io" where
  "time_turn K starttime _ =
     io_bind (j_catching K (sj_sig_alrm K) ''time'' [ANull]) (\<lambda>r.
     io_return
       (case r of
          Inl v \<Rightarrow> Inr (Inl v)
        | Inr t \<Rightarrow> if r_ret t > starttime + 5 then Inr (Inr ()) else Inl ()))"

definition siglongjmp :: "'k kernel \<Rightarrow> int \<Rightarrow> ('k sj, unit) jio" where
  "siglongjmp K v =
     io_bind (io_get jmpbuf) (\<lambda>set.
     io_bind (sigprocmask K SIG_SETMASK set) (\<lambda>_. longjmp v))"

definition sj_sig_usr1 :: "'k kernel \<Rightarrow> nat \<Rightarrow> int \<Rightarrow> ('k sj, unit) jio" where
  "sj_sig_usr1 K fuel signo =
     io_bind (io_get canjump) (\<lambda>c.
     if c = 0 then io_return (Inr ())
     else
       j_then (pr_mask K ''starting sig_usr1:'')
       (j_then (do_call K ''alarm'' [AInt 3])
       (io_bind (sys K ''time'' [ANull]) (\<lambda>starttime.
        j_bind (io_loop fuel (time_turn K starttime) ()) (\<lambda>_.
        j_then (pr_mask K ''finishing sig_usr1:'')
        (j_then (io_mod (\<lambda>w. w\<lparr>canjump := 0\<rparr>)) (siglongjmp K 1)))))))"

definition sj_handler :: "'k kernel \<Rightarrow> nat \<Rightarrow> int \<Rightarrow> ('k sj, unit) jio" where
  "sj_handler K fuel signo =
     (if signo = SIGUSR1 then sj_sig_usr1 K fuel signo
      else if signo = SIGALRM then sj_sig_alrm K signo else io_return (Inr ()))"

definition sj_pause_turn :: "'k kernel \<Rightarrow> nat \<Rightarrow> unit \<Rightarrow> ('k sj, unit + (int + unit)) io" where
  "sj_pause_turn K fuel _ =
     io_bind (j_catching K (sj_handler K fuel) ''pause'' []) (\<lambda>r.
     io_return (case r of Inl v \<Rightarrow> Inr (Inl v) | Inr _ \<Rightarrow> Inl ()))"

definition sigjmp_main :: "'k kernel \<Rightarrow> nat \<Rightarrow> ('k sj, unit) io" where
  "sigjmp_main K fuel =
     io_bind (signal K SIGUSR1 (APtr ''sig_usr1'')) (\<lambda>r.
     if r = SIG_ERR then err_sys K ''signal(SIGUSR1) error'' []
     else
       io_bind (signal K SIGALRM (APtr ''sig_alrm'')) (\<lambda>r.
       if r = SIG_ERR then err_sys K ''signal(SIGALRM) error'' []
       else
         io_then (pr_mask K ''starting main:'')
         (io_bind (sigprocmask K SIG_BLOCK []) (\<lambda>(_, set).
          io_then (io_mod (\<lambda>w. w\<lparr>jmpbuf := set\<rparr>))
          (setjmp
             (j_then (io_mod (\<lambda>w. w\<lparr>canjump := 1\<rparr>)) (io_loop fuel (sj_pause_turn K fuel) ()))
             (\<lambda>_. io_then (pr_mask K ''ending main:'') (io_exit 0)))))))"

section \<open>ch07_atexit.c\<close>

record 'k ax = "'k world" +
  handlers :: "string list"

text \<open>The functions registered so far, the last one first; leaving the process runs them in that order.\<close>

definition atexit :: "'k kernel \<Rightarrow> string \<Rightarrow> ('k ax, int) io" where
  "atexit K f =
     io_bind (sys K ''atexit'' [APtr f]) (\<lambda>r.
     io_then (io_when (r = 0) (io_mod (\<lambda>w. w\<lparr>handlers := f # handlers w\<rparr>))) (io_return r))"

definition exit_handler :: "'k kernel \<Rightarrow> string \<Rightarrow> ('k ax, unit) io" where
  "exit_handler K f =
     (if f = ''my_exit1'' then printf K ''first exit handler'' []
      else printf K ''second exit handler'' [])"

definition run_handlers :: "'k kernel \<Rightarrow> ('k ax, unit) io \<Rightarrow> ('k ax, unit) io" where
  "run_handlers K m =
     (\<lambda>w. case m w of
        (Exited status, w) \<Rightarrow> io_then (io_each (exit_handler K) (handlers w)) (io_exit status) w
      | r \<Rightarrow> r)"

text \<open>\<open>environ\<close> is NULL or the list of its strings.\<close>

definition env_lines :: "'k kernel \<Rightarrow> string list option \<Rightarrow> ('k ax, unit) io" where
  "env_lines K environ =
     (case environ of None \<Rightarrow> io_return () | Some env \<Rightarrow> io_each (\<lambda>e. printf K ''%s'' [AStr e]) env)"

definition atexit_body :: "'k kernel \<Rightarrow> string list option \<Rightarrow> ('k ax, unit) io" where
  "atexit_body K environ =
     io_bind (atexit K ''my_exit2'') (\<lambda>r.
     if r \<noteq> 0 then err_sys K ''can't register my_exit2'' []
     else
       io_bind (atexit K ''my_exit1'') (\<lambda>r.
       if r \<noteq> 0 then err_sys K ''can't register my_exit1'' []
       else
         io_bind (atexit K ''my_exit1'') (\<lambda>r.
         if r \<noteq> 0 then err_sys K ''can't register my_exit1'' []
         else
           io_seq [printf K ''env:'' [], env_lines K environ, printf K ''main is done'' [], io_exit 0])))"

definition atexit_main :: "'k kernel \<Rightarrow> string list option \<Rightarrow> ('k ax, unit) io" where
  "atexit_main K environ = run_handlers K (atexit_body K environ)"

section \<open>Which variables a jump keeps\<close>

text \<open>
  In ch07_jmp.c \<open>f1\<close> prints the changed values, and after the jump the global, the static and
  the volatile variable still have the values changed between \<open>setjmp\<close> and \<open>longjmp\<close>; the other two are
  what the compiler leaves. The program prints these two lines, and ends with status 0.
\<close>

theorem jmp_main_values:
  "\<exists>w'. jmp_main K left_over w = (Exited 0, w') \<and>
    prints (w_trace w') = prints (w_trace w) @
      [[AStr ''in f1():''], [AStr jmp_fmt, AInt 95, AInt 96, AInt 97, AInt 98, AInt 99],
       [AStr ''after longjmp: ''],
       [AStr jmp_fmt, AInt 95, AInt (fst (left_over (96, 97))), AInt (snd (left_over (96, 97))), AInt 98, AInt 99]]"
  by (simp add: jmp_main_def jmp_f1_def jmp_f2_def longjmp_def setjmp_def j_bind_def j_then_def printf_def do_call_def
      io_then_def io_bind_def sys_r_run split_beta)

section \<open>The busy handler\<close>

lemma cint_nonneg: "0 \<le> v \<Longrightarrow> cint v = (if v \<le> 2147483647 then Inr v else Inl IntOverflow)"
  by (simp add: cint_def in_int_def INT_MIN_def INT_MAX_def)

lemma busy_row_sum:
  assumes "0 \<le> i" "0 \<le> j" "0 \<le> k" "i * (j + int n) \<le> 2147483647"
  shows "busy_row i j n k =
    (let s = k + i * (int n * j + int (\<Sum>{..<n})) in
     if n = 0 \<or> s \<le> 2147483647 then Inr s else Inl IntOverflow)"
  using assms
proof (induction n arbitrary: j k)
  case (Suc n)
  have ij: "0 \<le> i * j" "i * j \<le> 2147483647"
  proof -
    show "0 \<le> i * j" using Suc.prems by simp
    have "i * j \<le> i * (j + int (Suc n))" using Suc.prems by (intro mult_left_mono) auto
    then show "i * j \<le> 2147483647" using Suc.prems(4) by linarith
  qed
  let ?s = "k + i * (int (Suc n) * j + int (\<Sum>{..<Suc n}))"
  have sum: "k + i * j + i * (int n * (j + 1) + int (\<Sum>{..<n})) = ?s"
    by (simp add: algebra_simps)
  have le: "k + i * j \<le> ?s"
  proof -
    have a: "0 \<le> int n * (j + 1)" using Suc.prems(2) by simp
    have "0 \<le> int (\<Sum>{..<n})" by (rule of_nat_0_le_iff)
    with a have "0 \<le> int n * (j + 1) + int (\<Sum>{..<n})" by (rule add_nonneg_nonneg)
    then have "0 \<le> i * (int n * (j + 1) + int (\<Sum>{..<n}))" using Suc.prems(1) by (rule mult_nonneg_nonneg [rotated])
    then show ?thesis using sum by linarith
  qed
  show ?case
  proof (cases "k + i * j \<le> 2147483647")
    case True
    have "busy_row i j (Suc n) k = busy_row i (j + 1) n (k + i * j)"
      using ij True Suc.prems by (simp add: cint_nonneg)
    also have "\<dots> = (if n = 0 \<or> ?s \<le> 2147483647 then Inr ?s else Inl IntOverflow)"
      using Suc.IH [of "j + 1" "k + i * j"] Suc.prems ij sum by (simp add: Let_def add.assoc)
    also have "\<dots> = (if ?s \<le> 2147483647 then Inr ?s else Inl IntOverflow)" using True by auto
    finally show ?thesis by (simp add: Let_def)
  next
    case False
    then have "busy_row i j (Suc n) k = Inl IntOverflow" using ij Suc.prems by (simp add: cint_nonneg)
    with False le show ?thesis by (simp add: Let_def)
  qed
qed simp

lemma sum_below: "\<Sum>{..<n} = n * (n - 1) div (2 :: nat)"
  unfolding lessThan_atLeast0 Sum_Ico_nat by simp

lemma busy_row_4000:
  assumes "0 \<le> i" "i \<le> 300000" "0 \<le> k"
  shows "busy_row i 0 4000 k = (if k + i * 7998000 \<le> 2147483647 then Inr (k + i * 7998000) else Inl IntOverflow)"
proof -
  have s: "int (\<Sum>{..<4000 :: nat}) = 7998000" unfolding sum_below by simp
  have "i * (0 + int 4000) \<le> 2147483647" using assms(2) by simp
  from busy_row_sum [OF assms(1) _ assms(3) this] show ?thesis unfolding s by (simp add: Let_def)
qed

lemma busy_rows_overflow:
  assumes "0 \<le> i" "0 \<le> k" "i + int n \<le> 300000"
    and "k + 7998000 * (\<Sum>r<n. i + int r) > 2147483647" "k \<le> 2147483647"
  shows "busy_rows i n k = Inl IntOverflow"
  using assms
proof (induction n arbitrary: i k)
  case (Suc n)
  have row: "busy_row i 0 4000 k = (if k + i * 7998000 \<le> 2147483647 then Inr (k + i * 7998000) else Inl IntOverflow)"
    using Suc.prems by (intro busy_row_4000) auto
  have shift: "(\<Sum>r<Suc n. i + int r) = i + (\<Sum>r<n. (i + 1) + int r)"
    unfolding sum.lessThan_Suc_shift by (simp add: algebra_simps)
  show ?case
  proof (cases "k + i * 7998000 \<le> 2147483647")
    case True
    have "busy_rows (i + 1) n (k + i * 7998000) = Inl IntOverflow"
      using Suc.prems True unfolding shift by (intro Suc.IH) (auto simp: algebra_simps)
    with row True show ?thesis by simp
  next
    case False
    with row show ?thesis by simp
  qed
qed simp

text \<open>
  The handler of SIGINT in ch10_pause.c never finishes as written: the sum it is busy with
  leaves the range of \<open>int\<close>.
\<close>

theorem busy_sig_int_overflows: "fst (busy_sig_int K w) = Faulted IntOverflow"
proof -
  have "(\<Sum>r<300000. 0 + int r) = int (\<Sum>{..<300000 :: nat})" by simp
  also have "\<dots> = 44999850000" unfolding sum_below by simp
  finally have "busy_rows 0 300000 0 = Inl IntOverflow" by (intro busy_rows_overflow) auto
  then show ?thesis
    by (simp add: busy_sig_int_def printf_def do_call_def io_then_def io_bind_def sys_r_run)
qed

section \<open>Functions run at exit\<close>

lemma total_prints:
  "total (\<lambda>w. prints (w_trace w) = ps \<and> handlers w = hs) (printf K fmt args)
     (\<lambda>_ w. prints (w_trace w) = ps @ [AStr fmt # args] \<and> handlers w = hs)"
  by (simp add: total_def printf_def do_call_def io_bind_def sys_r_run)

lemma total_prints_each:
  "total (\<lambda>w. prints (w_trace w) = ps \<and> handlers w = hs) (io_each (\<lambda>x. printf K (f x) (g x)) xs)
     (\<lambda>_ w. prints (w_trace w) = ps @ map (\<lambda>x. AStr (f x) # g x) xs \<and> handlers w = hs)"
proof (induction xs arbitrary: ps)
  case Nil
  show ?case by (auto intro: total_return simp del: io_return_run)
next
  case (Cons x xs)
  show ?case using total_then [OF total_prints Cons.IH [of "ps @ [AStr (f x) # g x]"]] by simp
qed

lemma total_atexit:
  assumes "\<forall>a k. r_ret (fst (K (''atexit'', a) k)) = 0"
  shows "total (\<lambda>w. prints (w_trace w) = ps \<and> handlers w = hs) (atexit K f)
     (\<lambda>r w. r = 0 \<and> prints (w_trace w) = ps \<and> handlers w = f # hs)"
  using assms by (simp add: total_def atexit_def sys_def io_then_def io_bind_def sys_r_run)

text \<open>
  When the three registrations in ch07_atexit.c succeed, the program prints the environment and its
  last line, then, leaving with status 0, the functions registered, in reverse order: twice the first,
  then the second.
\<close>

theorem atexit_reverse:
  assumes "\<forall>a k. r_ret (fst (K (''atexit'', a) k)) = 0" "handlers w = []"
  shows "\<exists>w'. atexit_main K environ w = (Exited 0, w') \<and>
    prints (w_trace w') = prints (w_trace w) @ [[AStr ''env:'']] @
      map (\<lambda>e. [AStr ''%s'', AStr e]) (case environ of None \<Rightarrow> [] | Some env \<Rightarrow> env) @
      [[AStr ''main is done''], [AStr ''first exit handler''], [AStr ''first exit handler''], [AStr ''second exit handler'']]"
proof -
  let ?env = "case environ of None \<Rightarrow> [] | Some env \<Rightarrow> env"
  let ?body = "io_then (printf K ''env:'' []) (io_then (env_lines K environ) (printf K ''main is done'' []))"
  obtain w1 where 1: "atexit K ''my_exit2'' w = (Ok 0, w1)" "prints (w_trace w1) = prints (w_trace w)" "handlers w1 = [''my_exit2'']"
    using totalD [OF total_atexit [OF assms(1)], of w "prints (w_trace w)" "[]" "''my_exit2''"] assms(2) by auto
  obtain w2 where 2: "atexit K ''my_exit1'' w1 = (Ok 0, w2)" "prints (w_trace w2) = prints (w_trace w)"
      "handlers w2 = [''my_exit1'', ''my_exit2'']"
    using totalD [OF total_atexit [OF assms(1)], of w1 "prints (w_trace w)" "[''my_exit2'']" "''my_exit1''"] 1 by auto
  obtain w3 where 3: "atexit K ''my_exit1'' w2 = (Ok 0, w3)" "prints (w_trace w3) = prints (w_trace w)"
      "handlers w3 = [''my_exit1'', ''my_exit1'', ''my_exit2'']"
    using totalD [OF total_atexit [OF assms(1)], of w2 "prints (w_trace w)" "[''my_exit1'', ''my_exit2'']" "''my_exit1''"] 2
    by auto
  have env: "total (\<lambda>w. prints (w_trace w) = ps \<and> handlers w = hs) (env_lines K environ)
      (\<lambda>_ w. prints (w_trace w) = ps @ map (\<lambda>e. [AStr ''%s'', AStr e]) ?env \<and> handlers w = hs)" for ps hs
    using total_prints_each [where f = "\<lambda>_. ''%s''" and g = "\<lambda>e. [AStr e]" and xs = ?env]
    by (auto simp: env_lines_def split: option.splits)
  have body: "total (\<lambda>w. prints (w_trace w) = ps \<and> handlers w = hs) ?body
      (\<lambda>_ w. prints (w_trace w) = ((ps @ [[AStr ''env:'']]) @ map (\<lambda>e. [AStr ''%s'', AStr e]) ?env) @ [[AStr ''main is done'']] \<and>
        handlers w = hs)" for ps hs
    by (rule total_then [OF total_prints total_then [OF env total_prints]])
  obtain w4 where 4: "?body w3 = (Ok (), w4)" "handlers w4 = handlers w3"
      "prints (w_trace w4) = prints (w_trace w) @ [[AStr ''env:'']] @ map (\<lambda>e. [AStr ''%s'', AStr e]) ?env @ [[AStr ''main is done'']]"
    using totalD [OF body [of "prints (w_trace w)" "handlers w3"], of w3] 3 by auto
  have exit: "atexit_body K environ w = (Exited 0, w4)"
    using 1(1) 2(1) 3(1) 4(1) by (simp add: atexit_body_def io_bind_Ok) (simp add: io_then_def io_bind_def split: prod.splits outcome.splits)
  show ?thesis
    using exit 3(3) 4(2,3)
    by (simp add: atexit_main_def run_handlers_def exit_handler_def printf_def do_call_def io_then_def io_bind_def sys_r_run)
qed

lemma atexit_reverse_witness:
  "\<exists>w'. atexit_main (\<lambda>c k. (ret_only 0, k)) (Some [''A=1'']) \<lparr>w_kern = (), w_errno = 0, w_trace = [], handlers = []\<rparr> = (Exited 0, w') \<and>
    prints (w_trace w') = [[AStr ''env:''], [AStr ''%s'', AStr ''A=1''], [AStr ''main is done''],
      [AStr ''first exit handler''], [AStr ''first exit handler''], [AStr ''second exit handler'']]"
  using atexit_reverse [of "\<lambda>c k. (ret_only 0, k)" "\<lparr>w_kern = (), w_errno = 0, w_trace = [], handlers = []\<rparr>" "Some [''A=1'']"]
  by (simp add: ret_only_def)

end
