(* ===== verification/Forks.thy ===== *)
theory Forks
  imports Signals
begin

text \<open>
  The programs of the eighth chapter that make processes: ch08_fork.c, ch08_vfork.c, ch08_4fork.c,
  ch08_forkfork.c, ch08_orphan.c, ch08_zombie.c, those that run other programs (ch08_exec.c,
  ch08_testinterpreter.c, ch08_echoall.c) and ch08_times.c. \<open>fork\<close> answers 0 in the child; after \<open>vfork\<close>
  the child runs first, in the memory of its parent.

  The properties: which values parent and child print after \<open>fork\<close> and after \<open>vfork\<close>; how the five
  processes of ch08_4fork.c end.
\<close>

section \<open>ch08_fork.c, ch08_vfork.c\<close>

record 'k fk = "'k world" +
  globalval :: int
  var :: int

definition fork_line :: "'k kernel \<Rightarrow> int \<Rightarrow> ('k fk, unit) io" where
  "fork_line K pid =
     io_then (printf K (if pid = 0 then ''child'' else ''parent'') [])
     (io_bind (sys K ''getpid'' []) (\<lambda>me.
      io_bind (io_get id) (\<lambda>w.
      printf K '': pid = %ld, globalval = %d, va = %d'' [AInt me, AInt (globalval w), AInt (var w)])))"

definition a_string :: string where "a_string = ''a string write to stdout'' @ [NL]"

definition fork_main :: "'k kernel \<Rightarrow> ('k fk, unit) io" where
  "fork_main K =
     io_then (io_mod (\<lambda>w. w\<lparr>globalval := 33, var := 8\<rparr>))
     (io_bind (sys K ''write'' [AInt 1, AStr a_string, AInt (int (length a_string))]) (\<lambda>n.
      if n \<noteq> int (length a_string) then err_sys K ''write error'' []
      else
        io_then (printf K ''before fork'' [])
        (io_bind (sys K ''fork'' []) (\<lambda>pid.
         io_then
           (if pid < 0 then err_sys K ''fork error'' []
            else if pid = 0 then io_mod (\<lambda>w. w\<lparr>globalval := globalval w + 1, var := var w + 1\<rparr>)
            else do_call K ''sleep'' [AInt 2])
           (io_then (fork_line K pid) (io_exit 0))))))"

text \<open>
  \<open>vfork\<close>: the call answers -1, or the number of the child. The child's part up to its \<open>exit\<close> comes
  first, on the same variables; then the call returns in the parent.
\<close>

definition vfork_child :: "('k fk, unit) io" where
  "vfork_child = io_mod (\<lambda>w. w\<lparr>globalval := globalval w + 1, var := var w + 1\<rparr>)"

definition vfork_main :: "'k kernel \<Rightarrow> ('k fk, unit) io" where
  "vfork_main K =
     io_then (io_mod (\<lambda>w. w\<lparr>globalval := 33, var := 8\<rparr>))
     (io_then (printf K ''before fork'' [])
     (io_bind (sys K ''vfork'' []) (\<lambda>pid.
      if pid < 0 then err_sys K ''fork error'' []
      else io_then vfork_child (io_then (fork_line K pid) (io_exit 0)))))"

section \<open>ch08_4fork.c\<close>

definition SIGKILL :: int where "SIGKILL = 9"

definition fourth_fork :: "'k kernel \<Rightarrow> (('k, 'z) world_scheme, unit) io" where
  "fourth_fork K =
     io_bind (sys K ''fork'' []) (\<lambda>pid.
     if pid < 0 then err_sys K ''fork error'' []
     else if pid \<noteq> 0 then io_then (do_call K ''sleep'' [AInt 8]) (io_exit 0)
     else
       io_then (do_call K ''sleep'' [AInt 6])
       (io_bind (sys K ''getpid'' []) (\<lambda>me.
        io_bind (sys K ''kill'' [AInt me, AInt SIGKILL]) (\<lambda>r. if r = 0 then io_kill SIGKILL else io_exit 6))))"

definition fourfork_main :: "'k kernel \<Rightarrow> (('k, 'z) world_scheme, unit) io" where
  "fourfork_main K =
     io_bind (sys K ''fork'' []) (\<lambda>pid.
     if pid < 0 then err_sys K ''fork error'' []
     else if pid \<noteq> 0 then io_then (do_call K ''sleep'' [AInt 2]) (io_exit 2)
     else
       io_bind (sys K ''fork'' []) (\<lambda>pid.
       if pid < 0 then err_sys K ''fork error'' []
       else if pid \<noteq> 0 then io_then (do_call K ''sleep'' [AInt 4]) (abort K)
       else
         io_bind (sys K ''fork'' []) (\<lambda>pid.
         if pid < 0 then err_sys K ''fork error'' []
         else if pid \<noteq> 0 then
           io_then
             (exec K ''execl'' [AStr ''/bin/dd'', AStr ''dd'', AStr ''if=/etc/passwd'', AStr ''of=/dev/null'', ANull])
             (io_exit 7)
         else fourth_fork K)))"

section \<open>ch08_forkfork.c, ch08_orphan.c, ch08_zombie.c\<close>

definition forkfork_main :: "'k kernel \<Rightarrow> (('k, 'z) world_scheme, unit) io" where
  "forkfork_main K =
     io_bind (sys K ''fork'' []) (\<lambda>pid.
     if pid < 0 then err_sys K ''fork error'' []
     else if pid = 0 then
       io_bind (sys K ''fork'' []) (\<lambda>pid.
       if pid < 0 then err_sys K ''fork error 2'' []
       else if pid > 0 then io_exit 0
       else
         io_then (do_call K ''sleep'' [AInt 2])
         (io_bind (sys K ''getppid'' []) (\<lambda>pp.
          io_then (printf K ''second child, parent pid = %ld'' [AInt pp]) (io_exit 0))))
     else
       io_bind (sys K ''waitpid'' [AInt pid, ANull, AInt 0]) (\<lambda>r.
       if r \<noteq> pid then err_sys K ''waitpid error'' [] else io_exit 0))"

definition ps_command :: string where "ps_command = ''ps -o pid,ppid,state,tty,command''"

definition orphan_main :: "'k kernel \<Rightarrow> (('k, 'z) world_scheme, unit) io" where
  "orphan_main K =
     io_bind (sys K ''fork'' []) (\<lambda>pid.
     io_then
       (if pid < 0 then err_sys K (''fork error'' @ [NL]) []
        else if pid = 0 then
          io_seq
            [printf K ''child running'' [], do_call K ''sleep'' [AInt 30], do_call K ''system'' [AStr ps_command],
             printf K ''child end'' []]
        else printf K ''parent exit'' [])
       (io_exit 0))"

definition zombie_main :: "'k kernel \<Rightarrow> (('k, 'z) world_scheme, unit) io" where
  "zombie_main K =
     io_bind (sys K ''fork'' []) (\<lambda>pid.
     io_then
       (if pid < 0 then err_sys K (''fork error'' @ [NL]) []
        else if pid = 0 then printf K ''child end'' []
        else
          io_seq
            [do_call K ''sleep'' [AInt 30], do_call K ''system'' [AStr ps_command], printf K ''parent end'' []])
       (io_exit 0))"

section \<open>ch08_exec.c, ch08_testinterpreter.c, ch08_echoall.c\<close>

definition env_init :: "string list" where
  "env_init = [''USER-unknown'', ''PATH=/tmp'']"

definition exec_main :: "'k kernel \<Rightarrow> (('k, 'z) world_scheme, unit) io" where
  "exec_main K =
     io_bind (sys K ''fork'' []) (\<lambda>pid.
     io_then
       (if pid < 0 then err_sys K ''fork error'' []
        else if pid = 0 then
          io_then
            (exec K ''execle''
               ([AStr ''/Users/caizh/github/c_cplusplus/apue/ch08/ch08_echoall'', AStr ''ch08_echoall'', AStr ''myarg1'',
                 AStr ''MYARG2'', ANull] @ map AStr env_init @ [ANull]))
            (err_sys K ''execle error'' [])
        else io_return ())
     (io_bind (sys K ''waitpid'' [AInt pid, ANull, AInt 0]) (\<lambda>r.
      if r < 0 then err_sys K ''wait error'' []
      else
        io_bind (sys K ''fork'' []) (\<lambda>pid.
        io_then
          (if pid < 0 then err_sys K ''fork error'' []
           else if pid = 0 then
             io_then
               (exec K ''execlp'' [AStr ''ch08_echoall'', AStr ''ch08_echoall'', AStr ''only 1 arg'', ANull])
               (err_sys K ''execlp error'' [])
           else io_return ())
          (io_exit 0)))))"

definition interpreter_main :: "'k kernel \<Rightarrow> (('k, 'z) world_scheme, unit) io" where
  "interpreter_main K =
     io_bind (sys K ''fork'' []) (\<lambda>pid.
     io_then
       (if pid < 0 then err_sys K ''fork error'' []
        else if pid = 0 then
          io_then
            (exec K ''execl''
               [AStr ''/Users/caizh/github/c_cplusplus/apue/ch08/testinterpreter.sh'', AStr ''testinterpreter.sh'',
                AStr ''myarg1'', AStr ''MYARG2'', ANull])
            (err_sys K ''execl error'' [])
        else io_return ())
     (io_bind (sys K ''waitpid'' [AInt pid, ANull, AInt 0]) (\<lambda>r.
      if r < 0 then err_sys K ''waitpid error'' [] else io_exit 0)))"

definition echoall_main :: "'k kernel \<Rightarrow> string list \<Rightarrow> string list \<Rightarrow> (('k, 'z) world_scheme, unit) io" where
  "echoall_main K environ argv =
     io_then (io_each (\<lambda>(i, a). printf K ''argv[%d]: %s'' [AInt (int i), AStr a]) (enumerate 0 argv))
     (io_then (io_each (\<lambda>e. printf K ''%s'' [AStr e]) environ) (io_exit 0))"

section \<open>ch08_times.c\<close>

text \<open>\<open>times\<close> delivers user and system time, own and of the children. Quotients are exact.\<close>

record 'k tm = "'k world" +
  clktck :: int

definition pr_times :: "'k kernel \<Rightarrow> int \<Rightarrow> reply \<Rightarrow> reply \<Rightarrow> ('k tm, unit) io" where
  "pr_times K elapsed tmsstart tmsend =
     io_bind (io_get clktck) (\<lambda>c.
     io_then
       (io_when (c = 0)
          (io_bind (sys K ''sysconf'' [AStr ''_SC_CLK_TCK'']) (\<lambda>c.
           io_then (io_mod (\<lambda>w. w\<lparr>clktck := c\<rparr>)) (io_when (c < 0) (err_sys K ''sysconf error'' [])))))
     (io_bind (io_get clktck) (\<lambda>c.
      let diff = (\<lambda>i. [ARat (of_int (int_at tmsend i - int_at tmsstart i) / of_int c)]) in
      io_seq
        [printf K '' real: %7.2f'' [ARat (of_int elapsed / of_int c)],
         printf K '' user: %7.2f'' (diff 0),
         printf K '' sys: %7.2f'' (diff 1),
         printf K '' child user: %7.2f'' (diff 2),
         printf K '' child sys: %7.2f'' (diff 3)])))"

definition do_cmd :: "'k kernel \<Rightarrow> string \<Rightarrow> ('k tm, unit) io" where
  "do_cmd K cmd =
     io_then (printf K (NL # ''command: %s'') [AStr cmd])
     (io_bind (sys_r K ''times'' []) (\<lambda>t0.
      if r_ret t0 = - 1 then err_sys K ''times error'' []
      else
        io_bind (sys K ''system'' [AStr cmd]) (\<lambda>status.
        if status < 0 then err_sys K ''system() error'' []
        else
          io_bind (sys_r K ''times'' []) (\<lambda>t1.
          if r_ret t1 = - 1 then err_sys K ''times error'' []
          else io_then (pr_times K (r_ret t1 - r_ret t0) t0 t1) (pr_exit K status)))))"

definition times_main :: "'k kernel \<Rightarrow> string list \<Rightarrow> ('k tm, unit) io" where
  "times_main K argv =
     io_then (do_call K ''setbuf'' [AStr ''stdout'', ANull])
     (io_then (io_each (do_cmd K) (drop 1 argv)) (io_exit 0))"

section \<open>Answers to fork\<close>

text \<open>
  A kernel that answers \<open>fork\<close> and \<open>vfork\<close> with the numbers of a list, so that the list chooses the
  process; all other calls go to another kernel.
\<close>

definition chosen :: "'k kernel \<Rightarrow> (int list \<times> 'k) kernel" where
  "chosen K c st =
     (case st of (ps, k) \<Rightarrow>
        if fst c = ''fork'' \<or> fst c = ''vfork'' then (ret_only (case ps of [] \<Rightarrow> - 1 | p # _ \<Rightarrow> p), (drop 1 ps, k))
        else (let (r, k) = K c k in (r, (ps, k))))"

lemma chosen_fork:
  "chosen K (''fork'', a) (p # ps, k) = (ret_only p, (ps, k))"
  "chosen K (''vfork'', a) (p # ps, k) = (ret_only p, (ps, k))"
  by (simp_all add: chosen_def)

lemma chosen_other:
  assumes "fst c \<noteq> ''fork''" "fst c \<noteq> ''vfork''"
  shows "chosen K c (ps, k) = (fst (K c k), (ps, snd (K c k)))"
  using assms by (simp add: chosen_def split_beta)

text \<open>
  The process tree of ch08_4fork.c, for any numbers of processes and whatever the other calls answer: the
  first process leaves with status 2, its child aborts, the third runs dd or leaves with 7, the fourth leaves with 0, and
  the last is killed by its own signal 9 or, if \<open>kill\<close> refuses, leaves with 6.
\<close>

theorem fourfork_ends:
  assumes "p1 > 0" "p2 > 0" "p3 > 0" "p4 > 0" and "w_kern w = (ps, k)"
  shows "(ps = [p1] \<longrightarrow> fst (fourfork_main (chosen K) w) = Exited 2) \<and>
    (ps = [0, p2] \<longrightarrow> fst (fourfork_main (chosen K) w) = Killed 6) \<and>
    (ps = [0, 0, p3] \<longrightarrow> fst (fourfork_main (chosen K) w) \<in> {Replaced, Exited 7}) \<and>
    (ps = [0, 0, 0, p4] \<longrightarrow> fst (fourfork_main (chosen K) w) = Exited 0) \<and>
    (ps = [0, 0, 0, 0] \<longrightarrow> fst (fourfork_main (chosen K) w) \<in> {Killed 9, Exited 6})"
  using assms
  by (auto simp: fourfork_main_def fourth_fork_def abort_def exec_def SIGKILL_def do_call_def sys_def io_then_def io_bind_def
      sys_r_run chosen_fork chosen_other ret_only_def)

lemma fourfork_ends_witness:
  "fst (fourfork_main (chosen scripted) (start ([0, 11], []))) = Killed 6 \<and>
   fst (fourfork_main (chosen scripted) (start ([0, 0, 0, 0], []))) \<in> {Killed 9, Exited 6}"
  using fourfork_ends [of 10 11 12 13 "start ([0, 11], [])" "[0, 11]" "[]" scripted]
    fourfork_ends [of 10 11 12 13 "start ([0, 0, 0, 0], [])" "[0, 0, 0, 0]" "[]" scripted]
  by (simp add: start_def)

text \<open>
  After \<open>fork\<close> the child prints the changed values and the parent the old ones, since the
  memory was copied; after \<open>vfork\<close> the parent prints the values the child has changed.
\<close>

theorem fork_copies_vfork_shares:
  assumes "p > 0"
    and "\<forall>k. r_ret (fst (K (''write'', [AInt 1, AStr a_string, AInt (int (length a_string))]) k)) = int (length a_string)"
  shows "(\<exists>me w'. fork_main (chosen K) (w\<lparr>w_kern := ([0], k)\<rparr>) = (Exited 0, w') \<and>
      prints (w_trace w') = prints (w_trace w) @
        [[AStr ''before fork''], [AStr ''child''], [AStr '': pid = %ld, globalval = %d, va = %d'', AInt me, AInt 34, AInt 9]]) \<and>
    (\<exists>me w'. fork_main (chosen K) (w\<lparr>w_kern := ([p], k)\<rparr>) = (Exited 0, w') \<and>
      prints (w_trace w') = prints (w_trace w) @
        [[AStr ''before fork''], [AStr ''parent''], [AStr '': pid = %ld, globalval = %d, va = %d'', AInt me, AInt 33, AInt 8]]) \<and>
    (\<exists>me w'. vfork_main (chosen K) (w\<lparr>w_kern := ([p], k)\<rparr>) = (Exited 0, w') \<and>
      prints (w_trace w') = prints (w_trace w) @
        [[AStr ''before fork''], [AStr ''parent''], [AStr '': pid = %ld, globalval = %d, va = %d'', AInt me, AInt 34, AInt 9]])"
  using assms
  by (simp_all add: fork_main_def vfork_main_def vfork_child_def fork_line_def printf_def do_call_def sys_def io_then_def io_bind_def
      sys_r_run chosen_fork chosen_other ret_only_def)

definition quiet :: "unit kernel" where
  "quiet c k = (ret_only (if fst c = ''write'' then int (length a_string) else 7), k)"

lemma fork_copies_vfork_shares_witness:
  "\<exists>me w'. vfork_main (chosen quiet) \<lparr>w_kern = ([5], ()), w_errno = 0, w_trace = [], globalval = 0, var = 0\<rparr> = (Exited 0, w') \<and>
    prints (w_trace w') =
      [[AStr ''before fork''], [AStr ''parent''], [AStr '': pid = %ld, globalval = %d, va = %d'', AInt me, AInt 34, AInt 9]]"
  using fork_copies_vfork_shares [where p = 5 and K = quiet and k = "()" and
      w = "\<lparr>w_kern = ([5], ()), w_errno = 0, w_trace = [], globalval = 0, var = 0\<rparr>", THEN conjunct2, THEN conjunct2]
  by (simp add: quiet_def ret_only_def)

end
