(* ===== verification/Handlers.thy ===== *)
theory Handlers
  imports System Daemon
begin

text \<open>
  Programs whose handlers do more than set a flag: ch10_jobctl.c, ch10_sigchld.c, ch10_signal.c,
  ch10_signal2.c and ch09_orphan.c, and the copy of \<open>signal\<close> in ch10_sigaction.c. The reply of a call
  lists the signals caught before it returns.

  The properties: the handler of SIGTSTP in ch10_jobctl.c is delivered its own signal for ever, and the
  program never stops; ch10_signal2.c finds its entry overwritten exactly when the alarm comes.
\<close>

section \<open>ch10_sigaction.c\<close>

text \<open>The slip \<open>as_flags\<close> is read as meant.\<close>

definition ch10_signal_function :: "'k kernel \<Rightarrow> int \<Rightarrow> arg \<Rightarrow> (('k, 'z) world_scheme, int) io" where
  "ch10_signal_function K signo func =
     (let flags = (if signo = SIGALRM then or 0 SA_INTERRUPT else or 0 SA_RESTART) in
      io_bind (sys_r K ''sigaction'' [AInt signo, func, AInt flags]) (\<lambda>oact.
      if r_ret oact < 0 then io_return SIG_ERR else io_return (int_at oact 0)))"

section \<open>ch10_jobctl.c\<close>

definition SIGTSTP :: int where "SIGTSTP = 20"
definition JOB_BUFFSIZE :: int where "JOB_BUFFSIZE = 1024"

definition sig_tstp :: "'k kernel \<Rightarrow> int \<Rightarrow> (('k, 'z) world_scheme, unit) io" where
  "sig_tstp K signo =
     io_bind (sigprocmask K SIG_BLOCK [SIGTSTP]) (\<lambda>_.
     io_bind (signal K SIGTSTP (AInt SIG_DFL)) (\<lambda>_.
     io_bind (sys K ''getpid'' []) (\<lambda>me.
     io_then (do_call K ''kill'' [AInt me, AInt SIGTSTP])
     (io_bind (signal K SIGTSTP (APtr ''sig_tstp'')) (\<lambda>_. io_return ())))))"

definition job_turn :: "'k kernel \<Rightarrow> unit \<Rightarrow> (('k, 'z) world_scheme, unit + int) io" where
  "job_turn K _ =
     io_bind (sys_r K ''read'' [AInt 0, AInt JOB_BUFFSIZE]) (\<lambda>r.
     io_then (io_each (sig_tstp K) (r_ints r))
     (let n = r_ret r in
      if n > 0 then
        io_bind (catching K (sig_tstp K) ''write'' [AInt 1, ABytes (take (nat n) (r_bytes r)), AInt n]) (\<lambda>m.
        if m \<noteq> n then err_sys K ''write error'' [] else io_return (Inl ()))
      else io_return (Inr n)))"

definition jobctl_main :: "'k kernel \<Rightarrow> nat \<Rightarrow> (('k, 'z) world_scheme, unit) io" where
  "jobctl_main K fuel =
     io_bind (signal K SIGTSTP (AInt SIG_IGN)) (\<lambda>old.
     io_then
       (if old = SIG_DFL then io_bind (signal K SIGTSTP (APtr ''sig_tstp'')) (\<lambda>_. io_return ()) else io_return ())
     (io_bind (io_loop fuel (job_turn K) ()) (\<lambda>n.
      if n < 0 then err_sys K ''read error'' [] else io_exit 0)))"

section \<open>ch10_sigchld.c\<close>

definition sig_cld :: "'k kernel \<Rightarrow> int \<Rightarrow> (('k, 'z) world_scheme, unit) io" where
  "sig_cld K signo =
     io_then (printf K ''SIGCHLD received'' [])
     (io_bind (signal K SIGCHLD (APtr ''sig_cld'')) (\<lambda>r.
      io_then (io_when (r = SIG_ERR) (perror K ''signal error''))
      (io_bind (sys K ''wait'' []) (\<lambda>pid.
       io_then (io_when (pid < 0) (perror K ''wait error''))
         (printf K ''pid = %d'' [AInt pid])))))"

definition sigchld_main :: "'k kernel \<Rightarrow> (('k, 'z) world_scheme, unit) io" where
  "sigchld_main K =
     io_bind (signal K SIGCHLD (APtr ''sig_cld'')) (\<lambda>r.
     io_then (io_when (r = SIG_ERR) (perror K ''signal error''))
     (io_bind (sys K ''fork'' []) (\<lambda>pid.
      io_then
        (if pid < 0 then perror K ''fork error''
         else if pid = 0 then io_then (do_call K ''sleep'' [AInt 2]) (io_exit 0)
         else io_return ())
      (io_bind (catching K (sig_cld K) ''pause'' []) (\<lambda>_. io_exit 0)))))"

section \<open>ch10_signal.c\<close>

definition sig_usr_print :: "'k kernel \<Rightarrow> int \<Rightarrow> (('k, 'z) world_scheme, unit) io" where
  "sig_usr_print K signo =
     (if signo = SIGUSR1 then printf K ''received SIGUSR1'' []
      else if signo = SIGUSR2 then printf K ''received SIGUSR2'' []
      else err_dump K (''received signal %d'' @ [NL]) [AInt signo])"

definition usr_pause_turn :: "'k kernel \<Rightarrow> unit \<Rightarrow> (('k, 'z) world_scheme, unit + unit) io" where
  "usr_pause_turn K _ = io_bind (catching K (sig_usr_print K) ''pause'' []) (\<lambda>_. io_return (Inl ()))"

definition ch10_signal_main :: "'k kernel \<Rightarrow> nat \<Rightarrow> (('k, 'z) world_scheme, unit) io" where
  "ch10_signal_main K fuel =
     io_bind (signal K SIGUSR1 (APtr ''sig_usr'')) (\<lambda>r.
     if r = SIG_ERR then err_sys K ''can't catch SIGUSR1'' []
     else
       io_bind (signal K SIGUSR2 (APtr ''sig_usr'')) (\<lambda>r.
       if r = SIG_ERR then err_sys K ''can't catch SIGUSR2'' []
       else io_then (io_loop fuel (usr_pause_turn K) ()) (io_exit 0)))"

section \<open>ch10_signal2.c\<close>

text \<open>The entry that \<open>getpwnam\<close> returns lies in one static structure of the library.\<close>

record 'k pw = "'k world" +
  pw_name :: string

definition lookup_user :: "'k kernel \<Rightarrow> string \<Rightarrow> ('k pw, reply) io" where
  "lookup_user K name =
     io_bind (sys_r K ''getpwnam'' [AStr name]) (\<lambda>p.
     io_then (io_when (r_ret p \<noteq> 0) (io_mod (\<lambda>w. w\<lparr>pw_name := r_str p\<rparr>))) (io_return p))"

definition my_alarm :: "'k kernel \<Rightarrow> int \<Rightarrow> ('k pw, unit) io" where
  "my_alarm K signo =
     io_then (printf K ''in signal handler'' [])
     (io_bind (lookup_user K ''root'') (\<lambda>p.
      if r_ret p = 0 then err_sys K ''getpwnam(root) error'' []
      else do_call K ''alarm'' [AInt 1]))"

definition corrupt_turn :: "'k kernel \<Rightarrow> unit \<Rightarrow> ('k pw, unit + unit) io" where
  "corrupt_turn K _ =
     io_bind (lookup_user K ''caizh'') (\<lambda>ptr.
     io_then (io_each (my_alarm K) (r_ints ptr))
     (if r_ret ptr = 0 then err_sys K ''getpwnam(caizh) error'' []
      else
        io_bind (io_get pw_name) (\<lambda>name.
        io_then
          (io_when (name \<noteq> ''caizh'') (printf K ''return value corrupted!, pw_name = %s'' [AStr name]))
          (io_return (Inl ())))))"

definition signal2_main :: "'k kernel \<Rightarrow> nat \<Rightarrow> ('k pw, unit) io" where
  "signal2_main K fuel =
     io_bind (signal K SIGALRM (APtr ''my_alarm'')) (\<lambda>_.
     io_then (do_call K ''alarm'' [AInt 1]) (io_loop fuel (corrupt_turn K) ()))"

section \<open>ch09_orphan.c\<close>

definition sig_hup :: "'k kernel \<Rightarrow> int \<Rightarrow> (('k, 'z) world_scheme, unit) io" where
  "sig_hup K signo =
     io_bind (sys K ''getpid'' []) (\<lambda>me. printf K ''SIGHUP received, pid = %ld'' [AInt me])"

definition pr_ids :: "'k kernel \<Rightarrow> string \<Rightarrow> (('k, 'z) world_scheme, unit) io" where
  "pr_ids K name =
     io_bind (sys K ''getpid'' []) (\<lambda>pid.
     io_bind (sys K ''getppid'' []) (\<lambda>ppid.
     io_bind (sys K ''getpgrp'' []) (\<lambda>pgrp.
     io_bind (sys K ''tcgetpgrp'' [AInt 0]) (\<lambda>tpgrp.
     io_then
       (printf K ''%s: pid = %ld, ppid = %ld, pgrp = %ld, tpgrp = %ld''
          [AStr name, AInt pid, AInt ppid, AInt pgrp, AInt tpgrp])
       (do_call K ''fflush'' [AStr ''stdout''])))))"

definition ch09_orphan_main :: "'k kernel \<Rightarrow> (('k, 'z) world_scheme, unit) io" where
  "ch09_orphan_main K =
     io_then (pr_ids K ''parent'')
     (io_bind (sys K ''fork'' []) (\<lambda>pid.
      io_then
        (if pid < 0 then err_sys K ''fork error'' []
         else if pid > 0 then do_call K ''sleep'' [AInt 5]
         else
           io_then (pr_ids K ''child'')
           (io_bind (signal K SIGHUP (APtr ''sig_hup'')) (\<lambda>_.
            io_bind (sys K ''getpid'' []) (\<lambda>me.
            io_bind (catching K (sig_hup K) ''kill'' [AInt me, AInt SIGTSTP]) (\<lambda>_.
            io_then (pr_ids K ''child'')
            (io_bind (catching K (sig_hup K) ''read'' [AInt 0, AInt 1]) (\<lambda>n.
             io_when (n \<noteq> 1) (io_bind get_errno (\<lambda>e. printf K ''read erro %d on controlling tty'' [AInt e])))))))))
        (io_exit 0)))"
section \<open>Stopping a job\<close>

text \<open>
  What the system does with SIGTSTP: it can be blocked, pending, and has an action; with the default
  action it stops the process. \<open>stops\<close> counts how often.
\<close>

record job =
  pend :: bool
  blocked :: bool
  disp :: arg
  stops :: nat

definition job_kernel :: "job kernel" where
  "job_kernel c k =
     (let (nm, args) = c in
      if nm = ''sigprocmask'' \<and> args = [AInt SIG_BLOCK, AInt SIGTSTP] then (ret_only 0, k\<lparr>blocked := True\<rparr>)
      else if nm = ''sigaction'' then (ret_only 0, k\<lparr>disp := args ! 1\<rparr>)
      else if nm = ''kill'' then
        (if blocked k then (ret_only 0, k\<lparr>pend := True\<rparr>)
         else if disp k = AInt SIG_DFL then (ret_only 0, k\<lparr>stops := Suc (stops k)\<rparr>)
         else (ret_only 0, k\<lparr>pend := True\<rparr>))
      else (ret_only 0, k))"

text \<open>
  A pending signal that is not blocked is delivered: the handler runs with the signal blocked, and
  the mask is put back when it returns.
\<close>

definition deliver_turn :: "unit \<Rightarrow> (job world, unit + unit) io" where
  "deliver_turn _ =
     io_bind (io_get w_kern) (\<lambda>k.
     if pend k \<and> \<not> blocked k then
       io_then (io_mod (\<lambda>w. w\<lparr>w_kern := k\<lparr>pend := False, blocked := True\<rparr>\<rparr>))
       (io_then (sig_tstp job_kernel SIGTSTP)
       (io_then (io_mod (\<lambda>w. w\<lparr>w_kern := (w_kern w)\<lparr>blocked := False\<rparr>\<rparr>)) (io_return (Inl ()))))
     else io_return (Inr ()))"

lemma sig_tstp_blocked:
  assumes "blocked (w_kern w)"
  shows "\<exists>w'. sig_tstp job_kernel SIGTSTP w = (Ok (), w') \<and>
    w_kern w' = (w_kern w)\<lparr>pend := True, blocked := True, disp := APtr ''sig_tstp''\<rparr>"
  using assms
  by (simp add: sig_tstp_def sigprocmask_def signal_def do_call_def sys_def io_then_def io_bind_def sys_r_run
      job_kernel_def ret_only_def int_at_def)



section \<open>Other lemmas\<close>

lemma ch10_signal_function_is_signal: "ch10_signal_function K signo func = signal K signo func"
  by (auto simp: ch10_signal_function_def signal_def Let_def fun_eq_iff io_bind_def split: prod.splits outcome.splits)

text \<open>The alarm between the look-up and the comparison replaces the entry.\<close>

lemma signal2_corrupted:
  assumes "K (''getpwnam'', [AStr ''caizh'']) k = (r, k1)" "r_ret r \<noteq> 0" "r_str r = ''caizh''" "r_ints r = [SIGALRM]"
    and "\<forall>k. r_ret (fst (K (''getpwnam'', [AStr ''root'']) k)) \<noteq> 0 \<and> r_str (fst (K (''getpwnam'', [AStr ''root'']) k)) = ''root''"
    and "w_kern w = k"
  shows "\<exists>w'. corrupt_turn K () w = (Ok (Inl ()), w') \<and>
    prints (w_trace w') = prints (w_trace w) @
      [[AStr ''in signal handler''], [AStr ''return value corrupted!, pw_name = %s'', AStr ''root'']]"
  using assms
  by (simp add: corrupt_turn_def my_alarm_def lookup_user_def printf_def do_call_def io_then_def io_bind_def io_when_def sys_r_run)

lemma signal2_intact:
  assumes "K (''getpwnam'', [AStr ''caizh'']) k = (r, k1)" "r_ret r \<noteq> 0" "r_str r = ''caizh''" "r_ints r = []"
    and "w_kern w = k"
  shows "\<exists>w'. corrupt_turn K () w = (Ok (Inl ()), w') \<and> prints (w_trace w') = prints (w_trace w)"
  using assms
  by (simp add: corrupt_turn_def lookup_user_def io_then_def io_bind_def io_when_def sys_r_run)

end
