(* ===== verification/Threads.thy ===== *)
theory Threads
  imports Signals
begin

text \<open>
  Thread programs of the eleventh and twelfth chapter: ch11_pthread_create.c, ch11_pthread_join.c,
  ch11_pthread_join2.c, ch11_pthread_cleanup.c, ch11_timedlock.c, ch12_pthread_detach.c, ch12_atfork.c.
  Their threads share nothing but the output; a thread runs where \<open>main\<close> waits for it, at its
  \<open>pthread_join\<close> or while \<open>main\<close> sleeps.

  The properties: ch11_pthread_join2.c reads the stack of a thread that is gone; cleanup handlers run in
  reverse order at \<open>pthread_exit\<close>; around a fork both locks of ch12_atfork.c are held, and afterwards
  neither, in parent and child.
\<close>

definition create :: "'k kernel \<Rightarrow> string \<Rightarrow> arg \<Rightarrow> string \<Rightarrow> (('k, 'z) world_scheme, unit) io" where
  "create K fn arg msg =
     io_bind (sys K ''pthread_create'' [APtr fn, arg]) (\<lambda>err.
     if err \<noteq> 0 then err_exit K err msg [] else io_return ())"

text \<open>The thread runs, and its exit value arrives if the join succeeds.\<close>

definition join :: "'k kernel \<Rightarrow> string \<Rightarrow> (('k, 'z) world_scheme, 'a) io \<Rightarrow> string \<Rightarrow> (('k, 'z) world_scheme, 'a) io" where
  "join K tid thread msg =
     io_bind thread (\<lambda>v.
     io_bind (sys K ''pthread_join'' [APtr tid]) (\<lambda>err.
     if err \<noteq> 0 then err_exit K err msg [] else io_return v))"

section \<open>ch11_pthread_create.c, ch11_pthread_join.c\<close>

definition printfids :: "'k kernel \<Rightarrow> string \<Rightarrow> (('k, 'z) world_scheme, unit) io" where
  "printfids K s =
     io_bind (sys K ''getpid'' []) (\<lambda>pid.
     io_bind (sys K ''pthread_self'' []) (\<lambda>tid.
     printf K ''%s pid %lu tid %lu (0x%lx)'' [AStr s, AInt pid, AInt tid, AInt tid]))"

definition ids_thr_fn :: "'k kernel \<Rightarrow> string \<Rightarrow> (('k, 'z) world_scheme, int) io" where
  "ids_thr_fn K arg = io_then (printfids K arg) (io_return 0)"

definition create_main :: "'k kernel \<Rightarrow> (('k, 'z) world_scheme, unit) io" where
  "create_main K =
     io_then (create K ''thr_fn'' (AStr ''test arg'') ''can't create thread'')
     (io_then (printfids K ''main thread:'')
     (io_bind (ids_thr_fn K ''test arg'') (\<lambda>_.
      io_then (do_call K ''sleep'' [AInt 1]) (io_exit 0))))"

definition join_thr_fn1 :: "'k kernel \<Rightarrow> (('k, 'z) world_scheme, int) io" where
  "join_thr_fn1 K = io_then (printf K ''thread 1 returning'' []) (io_return 0)"

definition join_thr_fn2 :: "'k kernel \<Rightarrow> (('k, 'z) world_scheme, int) io" where
  "join_thr_fn2 K = io_then (printf K ''thread 2 returning'' []) (io_return 2)"

definition join_main :: "'k kernel \<Rightarrow> (('k, 'z) world_scheme, unit) io" where
  "join_main K =
     io_then (create K ''thr_fn1'' ANull ''can't create thread 1'')
     (io_then (create K ''thr_fn2'' ANull ''can't create thread 2'')
     (io_bind (join K ''tid1'' (join_thr_fn1 K) ''can't join with thread 1'') (\<lambda>tret.
      io_then (printf K ''thread 1 exit code %ld'' [AInt tret])
      (io_bind (join K ''tid2'' (join_thr_fn2 K) ''can't join with thread 2'') (\<lambda>tret.
       io_then (printf K ''thread 2 exit code %ld'' [AInt tret]) (io_exit 0))))))"

section \<open>ch11_pthread_join2.c\<close>

text \<open>
  A structure of four numbers on the stack of a thread; the memory is gone when the thread has ended,
  and reading it then is a fault.
\<close>

definition printfoo :: "'k kernel \<Rightarrow> string \<Rightarrow> int \<Rightarrow> (int \<times> int \<times> int \<times> int) option \<Rightarrow> (('k, 'z) world_scheme, unit) io" where
  "printfoo K s fp memory =
     io_then (printf K ''%s'' [AStr s])
     (io_then (printf K '' structure at 0x%lx'' [AInt fp])
     (case memory of
        None \<Rightarrow> io_fault OutOfBounds
      | Some (a, b, c, d) \<Rightarrow>
          io_seq
            [printf K '' foo.a = %d'' [AInt a], printf K '' foo.b = %d'' [AInt b],
             printf K '' foo.c = %d'' [AInt c], printf K '' foo.d = %d'' [AInt d]]))"

text \<open>The address of a local variable is the system's choice.\<close>

definition foo_thr_fn1 :: "'k kernel \<Rightarrow> (('k, 'z) world_scheme, int) io" where
  "foo_thr_fn1 K =
     io_bind (sys K ''&fo'' []) (\<lambda>fp.
     io_then (printfoo K (''thread 1:'' @ [NL]) fp (Some (1, 2, 3, 4))) (io_return fp))"

definition foo_thr_fn2 :: "'k kernel \<Rightarrow> (('k, 'z) world_scheme, int) io" where
  "foo_thr_fn2 K =
     io_bind (sys K ''pthread_self'' []) (\<lambda>me.
     io_then (printf K ''thread 2 : ID is %lu'' [AInt me]) (io_return 0))"

definition join2_main :: "'k kernel \<Rightarrow> (('k, 'z) world_scheme, unit) io" where
  "join2_main K =
     io_then (create K ''thr_fn1'' ANull ''can't create thread 1'')
     (io_bind (join K ''tid1'' (foo_thr_fn1 K) ''can't join with thread 1'') (\<lambda>tret.
      io_then (do_call K ''sleep'' [AInt 1])
      (io_then (printf K ''parent starting second thread'' [])
      (io_then (create K ''thr_fn2'' ANull ''can't create thread 2'')
      (io_bind (foo_thr_fn2 K) (\<lambda>_.
       io_then (do_call K ''sleep'' [AInt 1])
       (io_then (printfoo K (''parent:'' @ [NL]) tret None) (io_exit 0))))))))"

section \<open>ch11_pthread_cleanup.c\<close>

text \<open>
  The handlers pushed so far are a list, the last one first. \<open>pthread_exit\<close> runs them; what happens to
  them when the function returns instead is undefined, so whether they run is an argument.
\<close>

definition cleanup :: "'k kernel \<Rightarrow> string \<Rightarrow> (('k, 'z) world_scheme, unit) io" where
  "cleanup K arg = printf K ''cleanup: %s'' [AStr arg]"

definition pthread_exit :: "'k kernel \<Rightarrow> string list \<Rightarrow> int \<Rightarrow> (('k, 'z) world_scheme, int) io" where
  "pthread_exit K pushed v = io_then (io_each (cleanup K) pushed) (io_return v)"

definition return_from :: "'k kernel \<Rightarrow> bool \<Rightarrow> string list \<Rightarrow> int \<Rightarrow> (('k, 'z) world_scheme, int) io" where
  "return_from K runs pushed v = io_then (io_when runs (io_each (cleanup K) pushed)) (io_return v)"

definition cleanup_thr_fn1 :: "'k kernel \<Rightarrow> bool \<Rightarrow> int \<Rightarrow> (('k, 'z) world_scheme, int) io" where
  "cleanup_thr_fn1 K runs arg =
     io_then (printf K ''thread 1 start'' [])
     (let pushed = [''thread 1 second handler'', ''thread 1 first handler''] in
      io_then (printf K ''thread 1 push complete'' [])
      (if arg \<noteq> 0 then return_from K runs pushed 1
       else return_from K runs (drop 2 pushed) 1))"

definition cleanup_thr_fn2 :: "'k kernel \<Rightarrow> int \<Rightarrow> (('k, 'z) world_scheme, int) io" where
  "cleanup_thr_fn2 K arg =
     io_then (printf K ''thread 2 start'' [])
     (let pushed = [''thread 2 second handler'', ''thread 2 first handler''] in
      io_then (printf K ''thread 2 push complete'' [])
      (if arg \<noteq> 0 then pthread_exit K pushed 2
       else pthread_exit K (drop 2 pushed) 2))"

definition cleanup_main :: "'k kernel \<Rightarrow> bool \<Rightarrow> (('k, 'z) world_scheme, unit) io" where
  "cleanup_main K runs =
     io_then (create K ''thr_fn1'' (AInt 1) ''can't crate thread 1'')
     (io_then (create K ''thr_fn2'' (AInt 1) ''can't crate thread 2'')
     (io_bind (join K ''tid1'' (cleanup_thr_fn1 K runs 1) ''can't join with thread 1'') (\<lambda>tret.
      io_then (printf K ''thread 1 exit code %ld'' [AInt tret])
      (io_bind (join K ''tid2'' (cleanup_thr_fn2 K 1) ''can't join with thread 2'') (\<lambda>tret.
       io_then (printf K ''thread 2 exit code %ld'' [AInt tret]) (io_exit 0))))))"

section \<open>ch11_timedlock.c\<close>

text \<open>
  The call that would set \<open>err\<close> is commented out: its value is whatever the stack holds, an argument.
\<close>

definition show_time :: "'k kernel \<Rightarrow> string \<Rightarrow> (('k, 'z) world_scheme, unit) io" where
  "show_time K fmt =
     io_bind (sys_r K ''clock_gettime'' [AStr ''CLOCK_REALTIME'']) (\<lambda>t.
     io_bind (sys K ''localtime'' [AInt (int_at t 0)]) (\<lambda>tmp.
     io_bind (sys_r K ''strftime'' [AInt 64, AStr ''%r'', AInt tmp]) (\<lambda>s.
     printf K fmt [AStr (r_str s)])))"

definition timedlock_main :: "'k kernel \<Rightarrow> int \<Rightarrow> (('k, 'z) world_scheme, unit) io" where
  "timedlock_main K err =
     io_then (do_call K ''pthread_mutex_lock'' [APtr ''lock''])
     (io_then (printf K ''mutext is locked'' [])
     (io_then (show_time K ''current time is %s'')
     (io_then (show_time K ''time is now %s'')
     (io_then
       (if err = 0 then printf K ''mutex locked again!'' []
        else
          io_bind (sys_r K ''strerror'' [AInt err]) (\<lambda>m. printf K ''can't lock mutex again: %s'' [AStr (r_str m)]))
       (io_exit 0)))))"

section \<open>ch12_pthread_detach.c\<close>

definition detach_makethread :: "'k kernel \<Rightarrow> string \<Rightarrow> arg \<Rightarrow> (('k, 'z) world_scheme, int) io" where
  "detach_makethread K fn arg =
     io_bind (sys K ''pthread_attr_init'' []) (\<lambda>err.
     if err \<noteq> 0 then io_return err
     else
       io_bind (sys K ''pthread_attr_setdetachstate'' [AStr ''PTHREAD_CREATE_DETACHED'']) (\<lambda>err.
       io_bind (if err = 0 then sys K ''pthread_create'' [APtr fn, arg] else io_return err) (\<lambda>err.
       io_then (do_call K ''pthread_attr_destroy'' []) (io_return err))))"

definition detach_thr_fn :: "'k kernel \<Rightarrow> string \<Rightarrow> (('k, 'z) world_scheme, int) io" where
  "detach_thr_fn K arg = io_then (printf K ''in detach thread arg = %s'' [AStr arg]) (io_return 0)"

definition detach_main :: "'k kernel \<Rightarrow> (('k, 'z) world_scheme, unit) io" where
  "detach_main K =
     io_bind (detach_makethread K ''thr_fn'' (AStr ''hello thread'')) (\<lambda>err.
     if err \<noteq> 0 then err_sys K ''create thread error'' []
     else
       io_bind (detach_thr_fn K ''hello thread'') (\<lambda>_.
       io_then (do_call K ''sleep'' [AInt 1]) (io_exit 0)))"

section \<open>ch12_atfork.c\<close>

text \<open>The locks this process holds: a lock that is held cannot be taken again.\<close>

record 'k af = "'k world" +
  held :: "string set"

definition af_lock :: "'k kernel \<Rightarrow> string \<Rightarrow> string \<Rightarrow> ('k af, unit) io" where
  "af_lock K m msg =
     io_bind (io_get held) (\<lambda>h.
     if m \<in> h then io_fault Diverged
     else
       io_bind (sys K ''pthread_mutex_lock'' [APtr m]) (\<lambda>err.
       if err \<noteq> 0 then err_cont K err msg []
       else io_mod (\<lambda>w. w\<lparr>held := insert m (held w)\<rparr>)))"

definition af_unlock :: "'k kernel \<Rightarrow> string \<Rightarrow> string \<Rightarrow> ('k af, unit) io" where
  "af_unlock K m msg =
     io_bind (sys K ''pthread_mutex_unlock'' [APtr m]) (\<lambda>err.
     if err \<noteq> 0 then err_cont K err msg []
     else io_mod (\<lambda>w. w\<lparr>held := held w - {m}\<rparr>))"

definition prepare :: "'k kernel \<Rightarrow> ('k af, unit) io" where
  "prepare K =
     io_seq
       [printf K ''preparing locks...'' [],
        af_lock K ''lock'' ''can't lock lock in prepare handler'',
        af_lock K ''lock2'' ''can't lock lock2 in prepare handler'']"

definition parent :: "'k kernel \<Rightarrow> ('k af, unit) io" where
  "parent K =
     io_seq
       [printf K ''parent unlocking locks...'' [],
        af_unlock K ''lock'' ''can't unlock lock in prarent hanler'',
        af_unlock K ''lock2'' ''can't unlock lock2 in prarent hanler'']"

definition child :: "'k kernel \<Rightarrow> ('k af, unit) io" where
  "child K =
     io_seq
       [printf K ''parent unlocking locks...'' [],
        af_unlock K ''lock'' ''can't unlock lock in child hanler'',
        af_unlock K ''lock2'' ''can't unlock lock2 in child hanler'']"

text \<open>\<open>fork\<close> with the handlers that \<open>pthread_atfork\<close> has installed.\<close>

definition fork_with :: "'k kernel \<Rightarrow> ('k af, int) io" where
  "fork_with K =
     io_then (prepare K)
     (io_bind (sys K ''fork'' []) (\<lambda>pid.
      io_then (if pid = 0 then child K else parent K) (io_return pid)))"

definition atfork_thr_fn :: "'k kernel \<Rightarrow> ('k af, unit) io" where
  "atfork_thr_fn K = printf K ''thread started...'' []"

definition atfork_main :: "'k kernel \<Rightarrow> ('k af, unit) io" where
  "atfork_main K =
     io_bind (sys K ''pthread_atfork'' [APtr ''prepare'', APtr ''parent'', APtr ''child'']) (\<lambda>err.
     if err \<noteq> 0 then err_exit K err ''can't install fork handler'' []
     else
       io_then (create K ''thr_fn'' (AInt 0) ''can't create thread'')
       (io_then (atfork_thr_fn K)
       (io_then (do_call K ''sleep'' [AInt 2])
       (io_then (printf K ''parent about to fork...'' [])
       (io_bind (fork_with K) (\<lambda>pid.
        io_then
          (if pid < 0 then err_quit K ''fork failed'' []
           else if pid = 0 then printf K ''child returnd from fork'' []
           else printf K ''parent  returnd from fork'' [])
          (io_exit 0)))))))"

section \<open>Lemmas\<close>

text \<open>Every call of a thread succeeds.\<close>

definition threads_work :: "'k kernel \<Rightarrow> bool" where
  "threads_work K \<longleftrightarrow> (\<forall>nm args k. nm \<in> {''pthread_create'', ''pthread_join'', ''pthread_atfork'', ''pthread_mutex_lock'', ''pthread_mutex_unlock''} \<longrightarrow>
     r_ret (fst (K (nm, args) k)) = 0)"

lemma threads_workD:
  assumes "threads_work K"
  shows "r_ret (fst (K (''pthread_create'', args) k)) = 0" "r_ret (fst (K (''pthread_join'', args) k)) = 0"
    "r_ret (fst (K (''pthread_atfork'', args) k)) = 0" "r_ret (fst (K (''pthread_mutex_lock'', args) k)) = 0"
    "r_ret (fst (K (''pthread_mutex_unlock'', args) k)) = 0"
  using assms by (simp_all add: threads_work_def)

lemma create_works: "threads_work K \<Longrightarrow> \<exists>w'. create K fn arg msg w = (Ok (), w') \<and> prints (w_trace w') = prints (w_trace w)"
  by (simp add: create_def sys_def io_bind_def sys_r_run threads_workD)

lemma join_works:
  assumes "threads_work K" "thread w = (Ok v, w1)"
  shows "\<exists>w'. join K tid thread msg w = (Ok v, w') \<and> prints (w_trace w') = prints (w_trace w1)"
  using assms by (simp add: join_def sys_def io_bind_def sys_r_run threads_workD)

text \<open>
  When its threads can be made and joined, the parent in ch11_pthread_join2.c reads the
  structure on the stack of the first thread after that thread has ended.
\<close>

theorem join2_reads_dead_stack:
  assumes "threads_work K"
  shows "fst (join2_main K w) = Faulted OutOfBounds"
proof -
  have call: "\<exists>w'. do_call K nm args w = (Ok (), w')" "\<exists>v w'. sys K nm args w = (Ok v, w')"
    "\<exists>w'. printf K fmt args w = (Ok (), w')" for nm fmt args and w :: "('a, 'b) world_scheme"
    by (simp_all add: printf_def do_call_def sys_def io_bind_def sys_r_run)
  have foo: "\<exists>w'. printfoo K s fp (Some (a, b, c, d)) w = (Ok (), w')" for s fp a b c d and w :: "('a, 'b) world_scheme"
    by (simp add: printfoo_def printf_def do_call_def io_then_def io_bind_def sys_r_run)
  have foo1: "\<exists>fp w'. foo_thr_fn1 K w = (Ok fp, w')" for w :: "('a, 'b) world_scheme"
  proof -
    obtain fp w1 where 1: "sys K ''&fo'' [] w = (Ok fp, w1)" using call(2) by blast
    obtain w2 where "printfoo K (''thread 1:'' @ [NL]) fp (Some (1, 2, 3, 4)) w1 = (Ok (), w2)" using foo by blast
    with 1 show ?thesis by (simp add: foo_thr_fn1_def io_then_def io_bind_def)
  qed
  have foo2: "\<exists>v w'. foo_thr_fn2 K w = (Ok v, w')" for w :: "('a, 'b) world_scheme"
    by (simp add: foo_thr_fn2_def printf_def do_call_def sys_def io_then_def io_bind_def sys_r_run)
  obtain w1 where 1: "create K ''thr_fn1'' ANull ''can't create thread 1'' w = (Ok (), w1)"
    using create_works [OF assms] by blast
  obtain fp v where v: "foo_thr_fn1 K w1 = (Ok fp, v)" using foo1 by blast
  obtain w2 where 2: "join K ''tid1'' (foo_thr_fn1 K) ''can't join with thread 1'' w1 = (Ok fp, w2)"
    using join_works [where thread = "foo_thr_fn1 K", OF assms v] by blast
  obtain w3 where 3: "do_call K ''sleep'' [AInt 1] w2 = (Ok (), w3)" using call(1) by blast
  obtain w4 where 4: "printf K ''parent starting second thread'' [] w3 = (Ok (), w4)" using call(3) by blast
  obtain w5 where 5: "create K ''thr_fn2'' ANull ''can't create thread 2'' w4 = (Ok (), w5)"
    using create_works [OF assms] by blast
  obtain u w6 where 6: "foo_thr_fn2 K w5 = (Ok u, w6)" using foo2 by blast
  obtain w7 where 7: "do_call K ''sleep'' [AInt 1] w6 = (Ok (), w7)" using call(1) by blast
  have 8: "fst (printfoo K (''parent:'' @ [NL]) fp None w7) = Faulted OutOfBounds"
    by (simp add: printfoo_def printf_def do_call_def io_then_def io_bind_def sys_r_run)
  then obtain w8 where "printfoo K (''parent:'' @ [NL]) fp None w7 = (Faulted OutOfBounds, w8)" by (metis prod.collapse)
  with 1 2 3 4 5 6 7 show ?thesis by (simp add: join2_main_def io_then_def io_bind_def)
qed

definition willing :: "unit kernel" where
  "willing c k = (ret_only 0, k)"

lemma willing_works: "threads_work willing"
  by (simp add: threads_work_def willing_def ret_only_def)

lemma join2_reads_dead_stack_witness: "fst (join2_main willing (start ())) = Faulted OutOfBounds"
  by (rule join2_reads_dead_stack [OF willing_works])

text \<open>
  The second thread of ch11_pthread_cleanup.c runs its handlers in reverse order.
\<close>

lemma cleanup_thr_fn2_order:
  "\<exists>w'. cleanup_thr_fn2 K 1 w = (Ok 2, w') \<and> prints (w_trace w') = prints (w_trace w) @
     [[AStr ''thread 2 start''], [AStr ''thread 2 push complete''],
      [AStr ''cleanup: %s'', AStr ''thread 2 second handler''], [AStr ''cleanup: %s'', AStr ''thread 2 first handler'']]"
  by (simp add: cleanup_thr_fn2_def pthread_exit_def cleanup_def printf_def do_call_def io_then_def io_bind_def sys_r_run)

lemma af_lock_works:
  assumes "threads_work K" "m \<notin> held w"
  shows "\<exists>w'. af_lock K m msg w = (Ok (), w') \<and> held w' = insert m (held w)"
  using assms by (simp add: af_lock_def sys_def io_bind_def sys_r_run threads_workD)

lemma af_unlock_works:
  assumes "threads_work K"
  shows "\<exists>w'. af_unlock K m msg w = (Ok (), w') \<and> held w' = held w - {m}"
  using assms by (simp add: af_unlock_def sys_def io_bind_def sys_r_run threads_workD)

lemma print_held: "\<exists>w'. printf K fmt args w = (Ok (), w') \<and> held w' = held w"
  by (simp add: printf_def do_call_def io_bind_def sys_r_run)

lemma prepare_locks:
  assumes "threads_work K" "held w = {}"
  shows "\<exists>w'. prepare K w = (Ok (), w') \<and> held w' = {''lock'', ''lock2''}"
proof -
  obtain w1 where 1: "printf K ''preparing locks...'' [] w = (Ok (), w1)" "held w1 = {}"
    using print_held [of K _ _ w] assms(2) by metis
  obtain w2 where 2: "af_lock K ''lock'' ''can't lock lock in prepare handler'' w1 = (Ok (), w2)" "held w2 = {''lock''}"
    using af_lock_works [OF assms(1), of "''lock''" w1 "''can't lock lock in prepare handler''"] 1(2) by auto
  obtain w3 where "af_lock K ''lock2'' ''can't lock lock2 in prepare handler'' w2 = (Ok (), w3)" "held w3 = {''lock2'', ''lock''}"
    using af_lock_works [OF assms(1), of "''lock2''" w2 "''can't lock lock2 in prepare handler''"] 2(2) by auto
  with 1 2 show ?thesis by (simp add: prepare_def io_then_def io_bind_def insert_commute)
qed

lemma release_locks:
  assumes "threads_work K" "held w = {''lock'', ''lock2''}"
  shows "\<exists>w'. parent K w = (Ok (), w') \<and> held w' = {}" "\<exists>w'. child K w = (Ok (), w') \<and> held w' = {}"
proof -
  obtain w1 where 1: "printf K ''parent unlocking locks...'' [] w = (Ok (), w1)" "held w1 = {''lock'', ''lock2''}"
    using print_held [of K _ _ w] assms(2) by metis
  have unlock: "\<exists>w2 w3. af_unlock K ''lock'' m1 w1 = (Ok (), w2) \<and> af_unlock K ''lock2'' m2 w2 = (Ok (), w3) \<and> held w3 = {}" for m1 m2
  proof -
    obtain w2 where 2: "af_unlock K ''lock'' m1 w1 = (Ok (), w2)" "held w2 = {''lock2''}"
      using af_unlock_works [OF assms(1), of "''lock''" m1 w1] 1(2) by auto
    obtain w3 where "af_unlock K ''lock2'' m2 w2 = (Ok (), w3)" "held w3 = {}"
      using af_unlock_works [OF assms(1), of "''lock2''" m2 w2] 2(2) by auto
    with 2 show ?thesis by blast
  qed
  from unlock [of "''can't unlock lock in prarent hanler''" "''can't unlock lock2 in prarent hanler''"] 1(1)
  show "\<exists>w'. parent K w = (Ok (), w') \<and> held w' = {}" by (auto simp: parent_def io_then_def io_bind_def)
  from unlock [of "''can't unlock lock in child hanler''" "''can't unlock lock2 in child hanler''"] 1(1)
  show "\<exists>w'. child K w = (Ok (), w') \<and> held w' = {}" by (auto simp: child_def io_then_def io_bind_def)
qed

text \<open>
  Claim C18. When the calls on the mutexes succeed and no lock is held, ch12_atfork.c forks with both
  locks held and returns, in the parent and in the child, with neither held, so both can take them again.
\<close>

theorem atfork_locks:
  assumes "threads_work K" "held w = {}"
  shows "\<exists>w1. prepare K w = (Ok (), w1) \<and> held w1 = {''lock'', ''lock2''} \<and>
    (\<exists>pid w'. fork_with K w = (Ok pid, w') \<and> pid = r_ret (fst (K (''fork'', []) (w_kern w1))) \<and> held w' = {} \<and>
       fst (prepare K w') = Ok ())"
proof -
  obtain w1 where 1: "prepare K w = (Ok (), w1)" "held w1 = {''lock'', ''lock2''}" using prepare_locks [OF assms] by blast
  let ?pid = "r_ret (fst (K (''fork'', []) (w_kern w1)))"
  obtain w2 where 2: "sys K ''fork'' [] w1 = (Ok ?pid, w2)" "held w2 = {''lock'', ''lock2''}"
    using 1(2) by (simp add: sys_def io_bind_def sys_r_run)
  obtain w3 where 3: "(if ?pid = 0 then child K else parent K) w2 = (Ok (), w3)" "held w3 = {}"
    using release_locks [OF assms(1) 2(2)] by (cases "?pid = 0") auto
  have "fork_with K w =
      io_bind (sys K ''fork'' []) (\<lambda>pid. io_then (if pid = 0 then child K else parent K) (io_return pid)) w1"
    unfolding fork_with_def io_then_def by (rule io_bind_Ok [where m = "prepare K", OF 1(1)])
  also have "\<dots> = io_then (if ?pid = 0 then child K else parent K) (io_return ?pid) w2"
    by (rule io_bind_Ok [where m = "sys K ''fork'' []", OF 2(1)])
  also have "\<dots> = (Ok ?pid, w3)"
    unfolding io_then_def
    by (subst io_bind_Ok [where m = "if ?pid = 0 then child K else parent K", OF 3(1)]) (rule io_return_run)
  finally have forked: "fork_with K w = (Ok ?pid, w3)" .
  obtain w4 where again: "prepare K w3 = (Ok (), w4)" using prepare_locks [OF assms(1) 3(2)] by blast
  show ?thesis
    by (intro exI conjI, rule 1(1), rule 1(2), rule forked, rule refl, rule 3(2), subst again, rule fst_conv)
qed

lemma atfork_locks_witness:
  "\<exists>w'. fork_with willing \<lparr>w_kern = (), w_errno = 0, w_trace = [], held = {}\<rparr> = (Ok 0, w') \<and> held w' = {}"
proof -
  let ?w = "\<lparr>w_kern = (), w_errno = 0, w_trace = [], held = {}\<rparr>"
  have pid: "r_ret (fst (willing c k)) = 0" for c k by (simp add: willing_def ret_only_def)
  have "held ?w = {}" by simp
  from atfork_locks [OF willing_works this] show ?thesis unfolding pid by blast
qed

end
