(* ===== verification/SigWait.thy ===== *)
theory SigWait
  imports Signals
begin

text \<open>
  apue/ch12/ch12_pthread_signal.c: a thread that takes signals with \<open>sigwait\<close> and tells \<open>main\<close> of
  SIGQUIT through a flag, a mutex and a condition variable. A step is one call or the statement between
  two calls; which thread goes on, which signal arrives and when a waiting thread wakes without a reason
  are chosen freely. The two ways to leave the process early are states of their own.

  The properties: in every interleaving \<open>main\<close> goes on only after SIGQUIT, never sleeps through it, and
  some thread can go on until \<open>main\<close> has left.
\<close>

section \<open>The code\<close>

datatype main_pc = M_lock | M_test | M_wait | M_woken | M_unlock | M_reset | M_mask | M_exit int
datatype thr_pc = T_wait | T_lock | T_set | T_unlock | T_signal | T_returned | T_exit int

text \<open>\<open>holder\<close> is who has the mutex; \<open>said\<close> lists what has been printed.\<close>

datatype party = Main | Thr

record sw =
  quitflag :: int
  holder :: "party option"
  mpc :: main_pc
  tpc :: thr_pc
  said :: "string list"
  quits :: nat

definition sigwait_start :: sw where
  "sigwait_start = \<lparr>quitflag = 0, holder = None, mpc = M_lock, tpc = T_wait, said = [], quits = 0\<rparr>"

text \<open>
  The loop of \<open>thr_fn\<close>: what \<open>sigwait\<close> returned, the error and the signal, is chosen. \<open>quits\<close> counts the
  SIGQUITs it has taken.
\<close>

definition thr_fn_step :: "int \<Rightarrow> int \<Rightarrow> sw \<Rightarrow> sw option" where
  "thr_fn_step err signo s =
     (case tpc s of
        T_wait \<Rightarrow>
          Some
            (if err \<noteq> 0 then s\<lparr>tpc := T_exit 1, said := said s @ [''sigwait failed'']\<rparr>
             else if signo = SIGINT then s\<lparr>said := said s @ [NL # ''interrupt'']\<rparr>
             else if signo = SIGQUIT then s\<lparr>tpc := T_lock, quits := Suc (quits s)\<rparr>
             else s\<lparr>tpc := T_exit 1, said := said s @ [''unexpected signal %d'']\<rparr>)
      | T_lock \<Rightarrow> if holder s = None then Some (s\<lparr>holder := Some Thr, tpc := T_set\<rparr>) else None
      | T_set \<Rightarrow> Some (s\<lparr>quitflag := 1, tpc := T_unlock\<rparr>)
      | T_unlock \<Rightarrow> Some (s\<lparr>holder := None, tpc := T_signal\<rparr>)
      | T_signal \<Rightarrow> Some (s\<lparr>tpc := T_returned, mpc := (if mpc s = M_wait then M_woken else mpc s)\<rparr>)
      | T_returned \<Rightarrow> None
      | T_exit n \<Rightarrow> None)"

text \<open>
  \<open>main\<close> from the lock on; \<open>ok\<close> is whether \<open>sigprocmask\<close> succeeds. Waiting gives the mutex up, and
  waking up takes it again.
\<close>

definition main_step :: "bool \<Rightarrow> sw \<Rightarrow> sw option" where
  "main_step ok s =
     (case mpc s of
        M_lock \<Rightarrow> if holder s = None then Some (s\<lparr>holder := Some Main, mpc := M_test\<rparr>) else None
      | M_test \<Rightarrow> if quitflag s = 0 then Some (s\<lparr>holder := None, mpc := M_wait\<rparr>) else Some (s\<lparr>mpc := M_unlock\<rparr>)
      | M_wait \<Rightarrow> None
      | M_woken \<Rightarrow> if holder s = None then Some (s\<lparr>holder := Some Main, mpc := M_test\<rparr>) else None
      | M_unlock \<Rightarrow> Some (s\<lparr>holder := None, mpc := M_reset\<rparr>)
      | M_reset \<Rightarrow> Some (s\<lparr>quitflag := 0, mpc := M_mask\<rparr>)
      | M_mask \<Rightarrow> Some (s\<lparr>mpc := M_exit (if ok then 0 else 1)\<rparr>)
      | M_exit n \<Rightarrow> None)"

text \<open>The process is gone when either thread has left it.\<close>

definition gone :: "sw \<Rightarrow> bool" where
  "gone s \<longleftrightarrow> (\<exists>n. mpc s = M_exit n) \<or> (\<exists>n. tpc s = T_exit n)"

inductive sw_step :: "sw \<Rightarrow> sw \<Rightarrow> bool" where
  thr: "\<not> gone s \<Longrightarrow> thr_fn_step err signo s = Some t \<Longrightarrow> sw_step s t"
| main: "\<not> gone s \<Longrightarrow> main_step ok s = Some t \<Longrightarrow> sw_step s t"
| spurious: "\<not> gone s \<Longrightarrow> mpc s = M_wait \<Longrightarrow> sw_step s (s\<lparr>mpc := M_woken\<rparr>)"

text \<open>\<open>main\<close> before: it blocks the two signals and makes the thread, then starts the loop.\<close>

definition pthread_signal_setup :: "'k kernel \<Rightarrow> (('k, 'z) world_scheme, int list) io" where
  "pthread_signal_setup K =
     io_bind (sys_r K ''pthread_sigmask'' [AInt SIG_BLOCK, AInt SIGINT, AInt SIGQUIT]) (\<lambda>r.
     if r_ret r \<noteq> 0 then err_exit K (r_ret r) ''SIG_BLOCK error'' []
     else
       io_bind (sys K ''pthread_create'' [APtr ''thr_fn'', AInt 0]) (\<lambda>err.
       if err \<noteq> 0 then err_exit K err ''can't create thread'' [] else io_return (r_ints r)))"

section \<open>The invariant\<close>

fun m_inside :: "main_pc \<Rightarrow> bool" where
  "m_inside M_test = True" | "m_inside M_unlock = True" | "m_inside _ = False"

fun m_past :: "main_pc \<Rightarrow> bool" where
  "m_past M_unlock = True" | "m_past M_reset = True" | "m_past M_mask = True" | "m_past (M_exit n) = True"
| "m_past _ = False"

fun m_cleared :: "main_pc \<Rightarrow> bool" where
  "m_cleared M_mask = True" | "m_cleared (M_exit n) = True" | "m_cleared _ = False"

fun t_inside :: "thr_pc \<Rightarrow> bool" where
  "t_inside T_set = True" | "t_inside T_unlock = True" | "t_inside _ = False"

fun t_told :: "thr_pc \<Rightarrow> bool" where
  "t_told T_unlock = True" | "t_told T_signal = True" | "t_told T_returned = True" | "t_told _ = False"

fun t_quit :: "thr_pc \<Rightarrow> bool" where
  "t_quit T_wait = False" | "t_quit (T_exit n) = False" | "t_quit _ = True"

text \<open>Who has the mutex; when the flag is set; and that \<open>main\<close> is not asleep when the thread is done.\<close>

definition sw_inv :: "sw \<Rightarrow> bool" where
  "sw_inv s \<longleftrightarrow>
     (holder s = Some Main \<longleftrightarrow> m_inside (mpc s)) \<and> (holder s = Some Thr \<longleftrightarrow> t_inside (tpc s)) \<and>
     (quitflag s \<noteq> 0 \<longrightarrow> t_told (tpc s)) \<and> (t_told (tpc s) \<and> quitflag s = 0 \<longrightarrow> m_cleared (mpc s)) \<and>
     quits s = (if t_quit (tpc s) then 1 else 0) \<and> (m_past (mpc s) \<longrightarrow> t_told (tpc s)) \<and>
     (mpc s = M_wait \<longrightarrow> tpc s \<noteq> T_returned)"

lemma sw_start_inv: "sw_inv sigwait_start"
  by (simp add: sw_inv_def sigwait_start_def)

lemma told_quit: "t_told p \<Longrightarrow> t_quit p"
  by (cases p) auto

lemma thr_inv:
  assumes "thr_fn_step err signo s = Some t" "sw_inv s"
  shows "sw_inv t"
  using assms by (cases "tpc s") (auto simp: thr_fn_step_def sw_inv_def split: if_splits)

lemma main_inv:
  assumes "main_step ok s = Some t" "sw_inv s"
  shows "sw_inv t"
  using assms by (cases "mpc s") (auto simp: main_step_def sw_inv_def split: if_splits)

lemma wake_inv: "mpc s = M_wait \<Longrightarrow> sw_inv s \<Longrightarrow> sw_inv (s\<lparr>mpc := M_woken\<rparr>)"
  by (auto simp: sw_inv_def)

lemma sw_step_inv: "sw_step s t \<Longrightarrow> sw_inv s \<Longrightarrow> sw_inv t"
  by (induction rule: sw_step.induct) (blast intro: thr_inv main_inv wake_inv)+

interpretation sigwait_threads: invariant_system "\<lambda>s. s = sigwait_start" sw_step sw_inv
  by unfold_locales (use sw_start_inv sw_step_inv in blast)+

lemma no_holder: "holder s \<noteq> Some Main \<Longrightarrow> holder s \<noteq> Some Thr \<Longrightarrow> holder s = None"
  by (cases "holder s") (auto intro: party.exhaust)

lemma sw_inv_free:
  assumes "sw_inv s" "\<not> m_inside (mpc s)" "\<not> t_inside (tpc s)"
  shows "holder s = None"
proof (rule no_holder)
  show "holder s \<noteq> Some Main" using assms(1,2) unfolding sw_inv_def by blast
  show "holder s \<noteq> Some Thr" using assms(1,3) unfolding sw_inv_def by blast
qed

lemma sw_inv_quit:
  assumes "sw_inv s" "quits s = 1"
  shows "t_quit (tpc s)"
proof (rule ccontr)
  assume "\<not> t_quit (tpc s)"
  with assms(1) have "quits s = 0" unfolding sw_inv_def by simp
  with assms(2) show False by simp
qed

text \<open>The thread that has taken SIGQUIT, or \<open>main\<close>, can go on.\<close>

lemma sw_inv_progress:
  assumes "sw_inv s" "\<not> gone s" "quits s = 1"
  shows "(\<exists>t. thr_fn_step 0 0 s = Some t) \<or> (\<exists>t. main_step True s = Some t)"
proof (cases "t_inside (tpc s) \<or> tpc s = T_signal")
  case True
  then show ?thesis by (cases "tpc s") (auto simp: thr_fn_step_def)
next
  case False
  show ?thesis
  proof (cases "m_inside (mpc s) \<or> mpc s = M_reset \<or> mpc s = M_mask")
    case True
    then show ?thesis by (cases "mpc s") (auto simp: main_step_def)
  next
    case m: False
    with False have free: "holder s = None" by (intro sw_inv_free [OF assms(1)]) blast+
    have "t_quit (tpc s)" by (rule sw_inv_quit [OF assms(1,3)])
    with False have "tpc s = T_lock \<or> tpc s = T_returned" by (cases "tpc s") auto
    then show ?thesis
    proof
      assume "tpc s = T_lock"
      with free show ?thesis by (simp add: thr_fn_step_def)
    next
      assume "tpc s = T_returned"
      with assms(1) have "mpc s \<noteq> M_wait" by (simp add: sw_inv_def)
      with m assms(2) have "mpc s = M_lock \<or> mpc s = M_woken" by (cases "mpc s") (auto simp: gone_def)
      with free show ?thesis by (auto simp: main_step_def)
    qed
  qed
qed

text \<open>Steps left until \<open>main\<close> has left, once the signal has come and nobody wakes without a reason.\<close>

fun t_left :: "thr_pc \<Rightarrow> nat" where
  "t_left T_lock = 4" | "t_left T_set = 3" | "t_left T_unlock = 2" | "t_left T_signal = 1" | "t_left _ = 0"

fun m_left :: "main_pc \<Rightarrow> nat" where
  "m_left M_lock = 8" | "m_left M_woken = 8" | "m_left M_test = 7" | "m_left M_wait = 6" | "m_left M_unlock = 5"
| "m_left M_reset = 4" | "m_left M_mask = 3" | "m_left (M_exit n) = 0"

text \<open>A sleeping \<open>main\<close> is woken once.\<close>

definition sw_left :: "sw \<Rightarrow> nat" where
  "sw_left s = 3 * t_left (tpc s) + m_left (mpc s)"

lemma thr_decreases:
  assumes "thr_fn_step err signo s = Some t" "sw_inv s" "quits s = 1"
  shows "sw_left t < sw_left s \<and> quits t = 1"
  using assms by (cases "tpc s") (auto simp: thr_fn_step_def sw_left_def sw_inv_def split: if_splits)

lemma main_decreases:
  assumes "main_step ok s = Some t" "quits s = 1"
  shows "sw_left t < sw_left s \<and> quits t = 1"
  using assms by (cases "mpc s") (auto simp: main_step_def sw_left_def split: if_splits)

section \<open>The property\<close>



end
