(* ===== verification/Locks.thy ===== *)
theory Locks
  imports FdIO
begin

text \<open>
  The macros of apue.h: default permissions, minimum and maximum, and the record locks and tests built on
  \<open>lock_reg\<close> and \<open>lock_test\<close>.

  The property: on a system that keeps a table of record locks, the tests tell exactly whether the
  corresponding lock would be granted.
\<close>

section \<open>Permissions, minimum, maximum\<close>

definition FILE_MODE_bits :: int where
  "FILE_MODE_bits = or (or (or 256 128) 32) 4"

definition DIR_MODE :: int where
  "DIR_MODE = or (or (or FILE_MODE_bits 64) 8) 1"

definition min_macro :: "int \<Rightarrow> int \<Rightarrow> int" where
  "min_macro a b = (if a < b then a else b)"

definition max_macro :: "int \<Rightarrow> int \<Rightarrow> int" where
  "max_macro a b = (if a > b then a else b)"

section \<open>Locks\<close>

definition read_lock :: "'k kernel \<Rightarrow> int \<Rightarrow> int \<Rightarrow> int \<Rightarrow> int \<Rightarrow> (('k, 'z) world_scheme, int) io" where
  "read_lock K fd offset whence len = lock_reg K fd F_SETLK F_RDLCK offset whence len"

definition readw_lock :: "'k kernel \<Rightarrow> int \<Rightarrow> int \<Rightarrow> int \<Rightarrow> int \<Rightarrow> (('k, 'z) world_scheme, int) io" where
  "readw_lock K fd offset whence len = lock_reg K fd F_SETLKW F_RDLCK offset whence len"

definition write_lock :: "'k kernel \<Rightarrow> int \<Rightarrow> int \<Rightarrow> int \<Rightarrow> int \<Rightarrow> (('k, 'z) world_scheme, int) io" where
  "write_lock K fd offset whence len = lock_reg K fd F_SETLK F_WRLCK offset whence len"

definition writew_lock :: "'k kernel \<Rightarrow> int \<Rightarrow> int \<Rightarrow> int \<Rightarrow> int \<Rightarrow> (('k, 'z) world_scheme, int) io" where
  "writew_lock K fd offset whence len = lock_reg K fd F_SETLKW F_WRLCK offset whence len"

definition un_lock :: "'k kernel \<Rightarrow> int \<Rightarrow> int \<Rightarrow> int \<Rightarrow> int \<Rightarrow> (('k, 'z) world_scheme, int) io" where
  "un_lock K fd offset whence len = lock_reg K fd F_SETLK F_UNLCK offset whence len"

definition is_read_lockable :: "'k kernel \<Rightarrow> int \<Rightarrow> int \<Rightarrow> int \<Rightarrow> int \<Rightarrow> (('k, 'z) world_scheme, bool) io" where
  "is_read_lockable K fd offset whence len =
     io_bind (lock_test K fd F_RDLCK offset whence len) (\<lambda>r. io_return (r = 0))"

definition is_write_lockable :: "'k kernel \<Rightarrow> int \<Rightarrow> int \<Rightarrow> int \<Rightarrow> int \<Rightarrow> (('k, 'z) world_scheme, bool) io" where
  "is_write_lockable K fd offset whence len =
     io_bind (lock_test K fd F_WRLCK offset whence len) (\<lambda>r. io_return (r = 0))"

section \<open>A table of locks\<close>

text \<open>
  A lock has its process, type and region; a length 0 reaches to the end of the file, and the offsets
  count from the beginning. Two locks of different processes conflict when they overlap and one of them
  is a write lock. The table grants or refuses, and reports the first lock in the way.
\<close>

record rlock =
  l_pid :: int
  l_type :: int
  l_start :: int
  l_len :: int

definition overlap :: "rlock \<Rightarrow> rlock \<Rightarrow> bool" where
  "overlap a b \<longleftrightarrow>
     (l_len a = 0 \<or> l_start b < l_start a + l_len a) \<and> (l_len b = 0 \<or> l_start a < l_start b + l_len b)"

definition conflict :: "rlock \<Rightarrow> rlock \<Rightarrow> bool" where
  "conflict a b \<longleftrightarrow> l_pid a \<noteq> l_pid b \<and> overlap a b \<and> (l_type a = F_WRLCK \<or> l_type b = F_WRLCK)"

definition table_kernel :: "int \<Rightarrow> rlock list kernel" where
  "table_kernel me c tab =
     (case c of (nm, args) \<Rightarrow>
        (case args of
           [_, AInt cmd, AInt type, AInt offset, _, AInt len] \<Rightarrow>
             (let l = \<lparr>l_pid = me, l_type = type, l_start = offset, l_len = len\<rparr>;
                  against = filter (conflict l) tab
              in if cmd = F_SETLK then
                   (if against = [] then (ret_only 0, l # tab) else (failed_with EAGAIN, tab))
                 else if cmd = F_GETLK then
                   ((ret_only 0)\<lparr>r_ints := (case against of [] \<Rightarrow> [F_UNLCK, 0] | b # _ \<Rightarrow> [l_type b, l_pid b])\<rparr>, tab)
                 else (ret_only 0, tab))
         | _ \<Rightarrow> (ret_only 0, tab)))"

text \<open>Processes have positive numbers, and a lock in the table is a read or a write lock.\<close>

definition proper_table :: "rlock list \<Rightarrow> bool" where
  "proper_table tab \<longleftrightarrow> (\<forall>l \<in> set tab. 0 < l_pid l \<and> (l_type l = F_RDLCK \<or> l_type l = F_WRLCK))"

lemma lock_reg_granted:
  "fst (lock_reg (table_kernel me) fd F_SETLK ty off wh len w) =
     Ok (if filter (conflict \<lparr>l_pid = me, l_type = ty, l_start = off, l_len = len\<rparr>) (w_kern w) = [] then 0 else - 1)"
  by (simp add: lock_reg_def sys_def io_bind_def sys_r_run table_kernel_def Let_def ret_only_def failed_with_def)

lemma lock_test_answer:
  assumes "proper_table (w_kern w)"
  shows "\<exists>p w'. lock_test (table_kernel me) fd ty off wh len w = (Ok p, w') \<and> w_kern w' = w_kern w \<and>
     (p = 0 \<longleftrightarrow> filter (conflict \<lparr>l_pid = me, l_type = ty, l_start = off, l_len = len\<rparr>) (w_kern w) = [])"
proof (cases "filter (conflict \<lparr>l_pid = me, l_type = ty, l_start = off, l_len = len\<rparr>) (w_kern w)")
  case Nil
  then show ?thesis
    by (simp add: lock_test_def io_bind_def sys_r_run table_kernel_def Let_def ret_only_def int_at_def F_GETLK_def F_SETLK_def)
next
  case (Cons b bs)
  then have "b \<in> set (filter (conflict \<lparr>l_pid = me, l_type = ty, l_start = off, l_len = len\<rparr>) (w_kern w))" by simp
  then have "b \<in> set (w_kern w)" by simp
  then have "0 < l_pid b" "l_type b \<noteq> F_UNLCK"
    using assms by (auto simp: proper_table_def F_UNLCK_def F_RDLCK_def F_WRLCK_def)
  with Cons show ?thesis
    by (simp add: lock_test_def io_bind_def sys_r_run table_kernel_def Let_def ret_only_def int_at_def F_GETLK_def F_SETLK_def)
qed

text \<open>
  Claim C39. On a table of record locks, \<open>is_read_lockable\<close> and \<open>is_write_lockable\<close> answer yes exactly
  when \<open>read_lock\<close> and \<open>write_lock\<close> on the same region would be granted, and change nothing.
\<close>

theorem lockable_iff_granted:
  assumes "proper_table (w_kern w)"
  shows "(\<exists>b w'. is_read_lockable (table_kernel me) fd off wh len w = (Ok b, w') \<and> w_kern w' = w_kern w \<and>
       (b \<longleftrightarrow> fst (read_lock (table_kernel me) fd off wh len w) = Ok 0)) \<and>
    (\<exists>b w'. is_write_lockable (table_kernel me) fd off wh len w = (Ok b, w') \<and> w_kern w' = w_kern w \<and>
       (b \<longleftrightarrow> fst (write_lock (table_kernel me) fd off wh len w) = Ok 0))"
proof -
  have "\<exists>b w'. io_bind (lock_test (table_kernel me) fd ty off wh len) (\<lambda>r. io_return (r = 0)) w = (Ok b, w') \<and>
      w_kern w' = w_kern w \<and> (b \<longleftrightarrow> fst (lock_reg (table_kernel me) fd F_SETLK ty off wh len w) = Ok 0)" for ty
  proof -
    obtain p w' where "lock_test (table_kernel me) fd ty off wh len w = (Ok p, w')" "w_kern w' = w_kern w"
        "p = 0 \<longleftrightarrow> filter (conflict \<lparr>l_pid = me, l_type = ty, l_start = off, l_len = len\<rparr>) (w_kern w) = []"
      using lock_test_answer [OF assms] by blast
    then show ?thesis unfolding lock_reg_granted by (simp add: io_bind_def)
  qed
  then show ?thesis
    unfolding is_read_lockable_def is_write_lockable_def read_lock_def write_lock_def by blast
qed

lemma lockable_iff_granted_witness:
  "\<exists>w'. is_write_lockable (table_kernel 7) 3 2 0 4 (start [\<lparr>l_pid = 5, l_type = F_RDLCK, l_start = 0, l_len = 3\<rparr>]) = (Ok False, w')"
proof -
  let ?w = "start [\<lparr>l_pid = 5, l_type = F_RDLCK, l_start = 0, l_len = 3\<rparr>]"
  have "proper_table (w_kern ?w)" by (simp add: start_def proper_table_def)
  from lockable_iff_granted [OF this, of 7 3 2 0 4, THEN conjunct2]
  obtain b w' where "is_write_lockable (table_kernel 7) 3 2 0 4 ?w = (Ok b, w')"
      "b \<longleftrightarrow> fst (write_lock (table_kernel 7) 3 2 0 4 ?w) = Ok 0" by blast
  moreover have "fst (write_lock (table_kernel 7) 3 2 0 4 ?w) = Ok (- 1)"
    unfolding write_lock_def lock_reg_granted by (simp add: start_def conflict_def overlap_def F_WRLCK_def)
  ultimately show ?thesis by auto
qed

end
