(* ===== verification/Small.thy ===== *)
theory Small
  imports ErrLog
begin

text \<open>
  The programs of one screen: average.c, hello.c, num.c, oper_func.c, byteorder.c, and ch01_errno.c,
  ch01_printpid.c, ch01_printugid.c of src/apue. An operation on floating-point numbers is the exact one,
  rounded; the rounding of \<open>float\<close> and of \<open>double\<close> is an argument, and a quotient by zero, which is
  no number, the fault \<open>DivByZero\<close>.

  The lemmas: the average of numbers whose sums stay exact is the rounded mean; what num.c and
  byteorder.c print.
\<close>

section \<open>average.c\<close>

fun avg_loop :: "(rat \<Rightarrow> rat) \<Rightarrow> nat \<Rightarrow> int list \<Rightarrow> rat \<Rightarrow> rat result" where
  "avg_loop rnd 0 var_arg acc = Inr acc"
| "avg_loop rnd (Suc n) [] acc = Inl OutOfBounds"
| "avg_loop rnd (Suc n) (a # var_arg) acc = avg_loop rnd n var_arg (rnd (acc + rnd (of_int a)))"

definition average :: "(rat \<Rightarrow> rat) \<Rightarrow> int \<Rightarrow> int list \<Rightarrow> rat result" where
  "average rnd n_values var_arg =
     rbind (avg_loop rnd (nat n_values) var_arg 0) (\<lambda>acc.
     if n_values = 0 then Inl DivByZero else Inr (rnd (acc / of_int n_values)))"

definition average_main :: "'k kernel \<Rightarrow> (rat \<Rightarrow> rat) \<Rightarrow> (('k, 'z) world_scheme, unit) io" where
  "average_main K rnd =
     io_bind (io_lift (average rnd 3 [12, 23, 45])) (\<lambda>a.
     io_then (printf K ''average=%f'' [ARat a]) (io_exit 0))"

section \<open>hello.c, num.c, oper_func.c, byteorder.c\<close>

definition hello_main :: "'k kernel \<Rightarrow> (('k, 'z) world_scheme, unit) io" where
  "hello_main K = io_then (printf K ''hello c'' []) (io_exit 0)"

text \<open>
  \<open>%x\<close> reads the 32 bits of the first two values, the second the low half of a \<open>long\<close>; \<open>7.0\<close> is stored as
  0x40E00000, low bytes first.
\<close>

definition num_main :: "'k kernel \<Rightarrow> (('k, 'z) world_scheme, unit) io" where
  "num_main K =
     (let a = - 1 :: 16 word;
          b = scast a :: 32 word;
          c = scast a :: 64 word;
          d = 0x40E00000 :: 32 word;
          e = ucast d :: 16 word
      in io_then
           (printf K ''b=%x,c=%x,e=%d'' [AInt (uint b), AInt (uint (ucast c :: 32 word)), AInt (sint e)])
           (io_exit 0))"

definition oper_add :: "(rat \<Rightarrow> rat) \<Rightarrow> rat \<Rightarrow> rat \<Rightarrow> rat result" where
  "oper_add rnd a b = Inr (rnd (a + b))"

definition oper_sub :: "(rat \<Rightarrow> rat) \<Rightarrow> rat \<Rightarrow> rat \<Rightarrow> rat result" where
  "oper_sub rnd a b = Inr (rnd (a - b))"

definition oper_mul :: "(rat \<Rightarrow> rat) \<Rightarrow> rat \<Rightarrow> rat \<Rightarrow> rat result" where
  "oper_mul rnd a b = Inr (rnd (a * b))"

definition oper_divide :: "(rat \<Rightarrow> rat) \<Rightarrow> rat \<Rightarrow> rat \<Rightarrow> rat result" where
  "oper_divide rnd a b = (if b = 0 then Inl DivByZero else Inr (rnd (a / b)))"

definition oper_fun :: "(rat \<Rightarrow> rat) \<Rightarrow> (rat \<Rightarrow> rat \<Rightarrow> rat result) list" where
  "oper_fun rnd = [oper_add rnd, oper_sub rnd, oper_mul rnd, oper_divide rnd]"

definition oper_main :: "'k kernel \<Rightarrow> (rat \<Rightarrow> rat) \<Rightarrow> (('k, 'z) world_scheme, unit) io" where
  "oper_main K rnd =
     io_bind (io_lift ((oper_fun rnd ! 0) (rnd (12 / 10)) (rnd (223 / 10)))) (\<lambda>res.
     io_then (printf K ''%f'' [ARat res]) (io_exit 0))"

text \<open>The two bytes of a \<open>short\<close> in memory; a machine stores the low byte first or last.\<close>

definition short_bytes :: "bool \<Rightarrow> 16 word \<Rightarrow> byte list" where
  "short_bytes low_first s =
     (let low = ucast s; high = ucast (drop_bit 8 s) in if low_first then [low, high] else [high, low])"

definition byteorder_main :: "'k kernel \<Rightarrow> bool \<Rightarrow> (('k, 'z) world_scheme, unit) io" where
  "byteorder_main K low_first =
     (let c = short_bytes low_first 0x0102 in
      io_then
        (if length c = 2 then
           (if c ! 0 = 1 \<and> c ! 1 = 2 then printf K ''big-endian'' []
            else if c ! 0 = 2 \<and> c ! 1 = 1 then printf K ''little-endian'' []
            else printf K ''unknown'' [])
         else printf K ''sizeof(short)=%d'' [AInt (int (length c))])
        (io_exit 0))"

section \<open>ch01\<close>

definition ch01_errno_main :: "'k kernel \<Rightarrow> string list \<Rightarrow> (('k, 'z) world_scheme, unit) io" where
  "ch01_errno_main K argv =
     io_bind (sys_r K ''strerror'' [AInt 13]) (\<lambda>m.
     io_then (eprintf K ''EACCES: %s'' [AStr (r_str m)])
     (io_then (set_errno 2)
     (io_then (perror K (case argv of [] \<Rightarrow> [] | a # _ \<Rightarrow> a)) (io_exit 0))))"

definition printpid_main :: "'k kernel \<Rightarrow> (('k, 'z) world_scheme, unit) io" where
  "printpid_main K =
     io_bind (sys K ''getpid'' []) (\<lambda>p.
     io_then (printf K ''hell world form process ID %ld'' [AInt p]) (io_exit 0))"

definition printugid_main :: "'k kernel \<Rightarrow> (('k, 'z) world_scheme, unit) io" where
  "printugid_main K =
     io_bind (sys K ''getuid'' []) (\<lambda>u.
     io_bind (sys K ''getgid'' []) (\<lambda>g.
     io_then (printf K ''uid=%d, gid=%d'' [AInt u, AInt g]) (io_exit 0)))"

section \<open>Lemmas\<close>

text \<open>A \<open>float\<close> holds the integers of 24 bits exactly.\<close>

definition keeps_integers :: "(rat \<Rightarrow> rat) \<Rightarrow> bool" where
  "keeps_integers rnd \<longleftrightarrow> (\<forall>n :: int. \<bar>n\<bar> \<le> 2 ^ 24 \<longrightarrow> rnd (of_int n) = of_int n)"

lemma avg_loop_exact:
  assumes "keeps_integers rnd" "\<bar>s\<bar> + sum_list (map abs as) \<le> 2 ^ 24"
  shows "avg_loop rnd (length as) as (of_int s) = Inr (of_int (s + sum_list as))"
  using assms(2)
proof (induction as arbitrary: s)
  case (Cons a as)
  have nn: "0 \<le> sum_list (map abs as)" by (induction as) auto
  have "\<bar>a\<bar> \<le> 2 ^ 24" "\<bar>s + a\<bar> \<le> 2 ^ 24" using Cons.prems nn by simp_all
  then have "rnd (of_int a) = of_int a" "rnd (of_int (s + a)) = of_int (s + a)"
    using assms(1) unfolding keeps_integers_def by blast+
  then have step: "avg_loop rnd (length (a # as)) (a # as) (of_int s) = avg_loop rnd (length as) as (of_int (s + a))"
    by simp
  have "\<bar>s + a\<bar> + sum_list (map abs as) \<le> 2 ^ 24" using Cons.prems by simp
  from Cons.IH [OF this] show ?case unfolding step by (simp add: add.assoc)
qed simp

text \<open>
  For as many numbers as it is told, with sums below 2 to the 24, average returns the mean, rounded once.
\<close>

lemma average_mean:
  assumes "keeps_integers rnd" "sum_list (map abs as) \<le> 2 ^ 24" "as \<noteq> []"
  shows "average rnd (int (length as)) as = Inr (rnd (of_int (sum_list as) / of_nat (length as)))"
  using avg_loop_exact [OF assms(1), of 0 as] assms(2,3) by (simp add: average_def)

lemma average_too_few: "average rnd (int (length as) + 1) as = Inl OutOfBounds"
proof -
  have "avg_loop rnd (Suc (length as)) as s = Inl OutOfBounds" for s by (induction as arbitrary: s) auto
  moreover have "nat (int (length as) + 1) = Suc (length as)" by simp
  ultimately show ?thesis by (simp add: average_def)
qed

lemma num_prints: "prints (w_trace (snd (num_main K (start k)))) =
    [[AStr ''b=%x,c=%x,e=%d'', AInt 0xFFFFFFFF, AInt 0xFFFFFFFF, AInt 0]]"
  by (simp add: num_main_def Let_def unsigned_ucast_eq unsigned_minus_1_eq_mask mask_eq_exp_minus_1 take_bit_eq_mod printf_def do_call_def io_then_def io_bind_def sys_r_run start_def)

lemma byteorder_prints: "prints (w_trace (snd (byteorder_main K low_first (start k)))) =
    [[AStr (if low_first then ''little-endian'' else ''big-endian'')]]"
  by (simp add: byteorder_main_def short_bytes_def printf_def do_call_def io_then_def io_bind_def sys_r_run start_def)

end
