(* ===== verification/Drivers.thy ===== *)
theory Drivers
  imports MySort ArrayList MyStack Lsearch CStr "HOL-Library.Signed_Division"
begin

text \<open>
  The test drivers my_sort_test.c, my_array_list_test.c and mystack_test.c: each runs a component on
  data of its own and prints. A driver's result is the text it prints, or the fault that stops it,
  so these theorems compose the component's lemmas with what becomes visible of them.
  \<open>rand\<close> is a sequence of answers; the bytes of string pointers and of doubles are arguments.
\<close>

section \<open>Output\<close>

text \<open>\<open>%d\<close>, and the bytes of a C string up to its terminator as \<open>%s\<close> prints them.\<close>

definition show_int :: "int \<Rightarrow> string" where
  "show_int v = (if v < 0 then CHR ''-'' # dec_string (nat (- v)) else dec_string (nat v))"

definition c_str :: "byte list \<Rightarrow> byte list" where
  "c_str bs = takeWhile (\<lambda>b. b \<noteq> 0) bs"

definition show_bytes :: "byte list \<Rightarrow> string" where
  "show_bytes bs = map (\<lambda>b. char_of (unat b)) bs"

definition text_bytes :: "string \<Rightarrow> byte list" where
  "text_bytes s = map (\<lambda>c. of_nat (of_char c)) s"

section \<open>my\_sort\_test.c\<close>

text \<open>\<open>print_array\<close>, from index \<open>i\<close> on, over 32-bit integers.\<close>

function print_array :: "byte list \<Rightarrow> int \<Rightarrow> int \<Rightarrow> string result" where
  "print_array array i sz =
     (if i < sz then
        rbind (rd (i * 4) 4 array) (\<lambda>bs.
        rbind (print_array array (i + 1) sz) (\<lambda>t. Inr (show_int (sint (load_int bs)) @ '' '' @ t)))
      else Inr [NL])"
  by pat_completeness auto
termination
  by (relation "measure (\<lambda>(a, i, n). nat (n - i))") auto

text \<open>The same over pointers of eight bytes; \<open>deref p\<close> is the string \<open>p\<close> points to.\<close>

function print_string :: "(byte list \<Rightarrow> byte list) \<Rightarrow> byte list \<Rightarrow> int \<Rightarrow> int \<Rightarrow> string result" where
  "print_string deref array i sz =
     (if i < sz then
        rbind (rd (i * 8) 8 array) (\<lambda>p.
        rbind (print_string deref array (i + 1) sz) (\<lambda>t. Inr (show_bytes (deref p) @ '' '' @ t)))
      else Inr [NL])"
  by pat_completeness auto
termination
  by (relation "measure (\<lambda>(d, a, i, n). nat (n - i))") auto

declare print_array.simps [simp del] print_string.simps [simp del]

text \<open>The array filled by \<open>rand()%size\<close>, one call per element; C's remainder truncates.\<close>

definition rand_array :: "(nat \<Rightarrow> int) \<Rightarrow> nat \<Rightarrow> byte list" where
  "rand_array rand sz = concat (map (\<lambda>i. store_int (rand i smod int sz)) [0..<sz])"

text \<open>Print, sort, print: the shape of all four tests.\<close>

definition print_sort_print ::
  "(byte list \<Rightarrow> string result) \<Rightarrow> (byte list \<Rightarrow> byte list result) \<Rightarrow> byte list \<Rightarrow> string result" where
  "print_sort_print pr srt array =
     rbind (pr array) (\<lambda>before. rbind (srt array) (\<lambda>array. rbind (pr array) (\<lambda>after. Inr (before @ after))))"

definition sort_test_int :: "(nat \<Rightarrow> int) \<Rightarrow> string result" where
  "sort_test_int rand =
     print_sort_print (\<lambda>a. print_array a 0 101) (\<lambda>a. my_qsort a 101 4 cmp_int) (rand_array rand 101)"

definition merge_sort_test_int :: "allocator \<Rightarrow> (nat \<Rightarrow> int) \<Rightarrow> string result" where
  "merge_sort_test_int H rand =
     print_sort_print (\<lambda>a. print_array a 0 100) (\<lambda>a. my_merge_sort H a 100 4 cmp_int) (rand_array rand 100)"

text \<open>\<open>arr\<close>: the twelve pointers of the array's initialiser.\<close>

definition sort_test_string :: "(byte list \<Rightarrow> byte list) \<Rightarrow> byte list list \<Rightarrow> string result" where
  "sort_test_string deref arr =
     print_sort_print (\<lambda>a. print_string deref a 0 12) (\<lambda>a. my_qsort a 12 8 (cmp_string deref)) (concat arr)"

definition merge_sort_test_string :: "allocator \<Rightarrow> (byte list \<Rightarrow> byte list) \<Rightarrow> byte list list \<Rightarrow> string result" where
  "merge_sort_test_string H deref arr =
     print_sort_print (\<lambda>a. print_string deref a 0 12) (\<lambda>a. my_merge_sort H a 12 8 (cmp_string deref)) (concat arr)"

definition sort_words :: "string list" where
  "sort_words = [''xabout'', ''why'', ''where'', ''import'', ''export'', ''qsort'', ''fine'', ''ok'', ''good'',
     ''job'', ''yes'', ''no'']"

definition merge_words :: "string list" where
  "merge_words = ''about'' # tl sort_words"

text \<open>
  \<open>main\<close>: \<open>rand1\<close>, \<open>rand2\<close> are the answers after each \<open>srand\<close>, \<open>arr1\<close>, \<open>arr2\<close> the pointers of the two
  string arrays.
\<close>

definition sort_test_main ::
  "allocator \<Rightarrow> (nat \<Rightarrow> int) \<Rightarrow> (nat \<Rightarrow> int) \<Rightarrow> (byte list \<Rightarrow> byte list) \<Rightarrow> byte list list \<Rightarrow> byte list list \<Rightarrow>
   string result" where
  "sort_test_main H rand1 rand2 deref arr1 arr2 =
     rbind (sort_test_int rand1) (\<lambda>t1.
     rbind (sort_test_string deref arr1) (\<lambda>t2.
     rbind (merge_sort_test_int H rand2) (\<lambda>t3.
     rbind (merge_sort_test_string H deref arr2) (\<lambda>t4.
     Inr (t1 @ t2 @ t3 @ t4 @ ''done'' @ [NL])))))"

section \<open>The sort driver prints the sorted data\<close>

text \<open>What a line of output shows of a list of integers, and of a list of strings.\<close>

definition int_line :: "int list \<Rightarrow> string" where
  "int_line xs = concat (map (\<lambda>x. show_int x @ '' '') xs) @ [NL]"

definition word_line :: "string list \<Rightarrow> string" where
  "word_line ws = concat (map (\<lambda>w. w @ '' '') ws) @ [NL]"

lemma elems_concat: "\<forall>x \<in> set xs. length x = es \<Longrightarrow> elems es (length xs) (concat xs) = xs"
proof (induction xs rule: rev_induct)
  case Nil
  then show ?case by (simp add: elems_def)
next
  case (snoc x xs)
  have len: "length (concat xs) = length xs * es" using snoc.prems by (induction xs) auto
  have "elem es (concat xs @ x) i = elem es (concat xs) i" if "i < length xs" for i
    using elem_fits [OF that, of es "concat xs"] len by (simp add: elem_def slice_def)
  then have "elems es (length xs) (concat xs @ x) = elems es (length xs) (concat xs)"
    by (intro nth_equalityI) simp_all
  moreover have "elem es (concat xs @ x) (length xs) = x" using len snoc.prems by (simp add: elem_def slice_def)
  ultimately show ?case using snoc by (simp add: elems_Suc)
qed

lemma length_concat_const: "\<forall>x \<in> set xs. length x = es \<Longrightarrow> length (concat xs) = length xs * es"
  by (induction xs) auto

lemma print_array_elems:
  "0 \<le> i \<Longrightarrow> i \<le> int n \<Longrightarrow> n * 4 \<le> length a \<Longrightarrow>
   print_array a i (int n) = Inr (int_line (map (\<lambda>e. sint (load_int e)) (drop (nat i) (elems 4 n a))))"
proof (induction "nat (int n - i)" arbitrary: i)
  case 0
  then show ?case by (subst print_array.simps) (simp add: int_line_def)
next
  case (Suc d)
  then have i: "i < int n" "nat i < n" by auto
  have "rd (i * 4) 4 a = Inr (elem 4 a (nat i))" using rd_elem [of "nat i" n 4 a] i Suc.prems by simp
  moreover have "print_array a (i + 1) (int n) =
      Inr (int_line (map (\<lambda>e. sint (load_int e)) (drop (nat (i + 1)) (elems 4 n a))))"
    using Suc by (intro Suc.hyps(1)) auto
  moreover have "drop (nat i) (elems 4 n a) = elem 4 a (nat i) # drop (nat (i + 1)) (elems 4 n a)"
    using i Suc.prems by (simp add: Suc_nat_eq_nat_zadd1 add.commute flip: Cons_nth_drop_Suc)
  ultimately show ?case using i by (subst print_array.simps) (simp add: int_line_def)
qed

lemma print_string_elems:
  "0 \<le> i \<Longrightarrow> i \<le> int n \<Longrightarrow> n * 8 \<le> length a \<Longrightarrow>
   print_string deref a i (int n) = Inr (word_line (map (\<lambda>e. show_bytes (deref e)) (drop (nat i) (elems 8 n a))))"
proof (induction "nat (int n - i)" arbitrary: i)
  case 0
  then show ?case by (subst print_string.simps) (simp add: word_line_def)
next
  case (Suc d)
  then have i: "i < int n" "nat i < n" by auto
  have "rd (i * 8) 8 a = Inr (elem 8 a (nat i))" using rd_elem [of "nat i" n 8 a] i Suc.prems by simp
  moreover have "print_string deref a (i + 1) (int n) =
      Inr (word_line (map (\<lambda>e. show_bytes (deref e)) (drop (nat (i + 1)) (elems 8 n a))))"
    using Suc by (intro Suc.hyps(1)) auto
  moreover have "drop (nat i) (elems 8 n a) = elem 8 a (nat i) # drop (nat (i + 1)) (elems 8 n a)"
    using i Suc.prems by (simp add: Suc_nat_eq_nat_zadd1 add.commute flip: Cons_nth_drop_Suc)
  ultimately show ?case using i by (subst print_string.simps) (simp add: word_line_def)
qed

text \<open>Integers survive their bytes.\<close>

lemma length_le_bytes [simp]: "length (le_bytes n v) = n"
  by (induction n arbitrary: v) auto

lemma le_value_bytes: "le_value (le_bytes n v) = v mod 256 ^ n"
proof (induction n arbitrary: v)
  case 0
  then show ?case by simp
next
  case (Suc n)
  have "v mod (256 * 256 ^ n) = v mod 256 + 256 * (v div 256 mod 256 ^ n)"
    by (simp add: zmod_zmult2_eq)
  with Suc show ?case by (simp add: uint_word_of_int)
qed

lemma load_store_int:
  assumes "in_int v"
  shows "sint (load_int (store_int v)) = v"
proof -
  have "load_int (store_int v) = word_of_int (take_bit 32 v)"
    by (simp add: load_int_def store_int_def le_value_bytes take_bit_eq_mod)
  then have "load_int (store_int v) = word_of_int v" by (simp add: wi_bintr)
  then have "sint (load_int (store_int v)) = signed_take_bit 31 v" by (simp add: sint_sbintrunc')
  also have "\<dots> = v"
    using assms by (intro signed_take_bit_int_eq_self) (auto simp: in_int_def INT_MIN_def INT_MAX_def)
  finally show ?thesis .
qed
lemma small_store_int:
  assumes "0 \<le> x" "x < 2 ^ 30"
  shows "store_int x \<in> small_ints" "sint (load_int (store_int x)) = x"
proof -
  show *: "sint (load_int (store_int x)) = x"
    using assms by (intro load_store_int) (auto simp: in_int_def INT_MIN_def INT_MAX_def)
  show "store_int x \<in> small_ints" using assms * by (simp add: small_ints_def)
qed

text \<open>A sorted permutation of stored integers shows as the sorted list.\<close>

lemma sorted_bytes_show:
  assumes small: "\<forall>x \<in> set xs. 0 \<le> x \<and> x < 2 ^ 30"
    and perm: "mset es = mset (map store_int xs)" and sorted: "sorted_wrt (\<lambda>x y. cmp_int x y \<le> 0) es"
  shows "map (\<lambda>e. sint (load_int e)) es = sort xs"
proof -
  have "set es = store_int ` set xs" using arg_cong [OF perm, of set_mset] by simp
  with small have A: "set es \<subseteq> small_ints" using small_store_int(1) by auto
  have "mset (map (\<lambda>e. sint (load_int e)) es) = image_mset (\<lambda>e. sint (load_int e)) (mset (map store_int xs))"
    by (simp add: perm)
  also have "\<dots> = mset (map (\<lambda>x. sint (load_int (store_int x))) xs)"
    by (simp add: multiset.map_comp comp_def)
  also have "map (\<lambda>x. sint (load_int (store_int x))) xs = xs"
    using small by (intro map_idI) (simp add: small_store_int(2))
  finally have "mset (map (\<lambda>e. sint (load_int e)) es) = mset xs" .
  moreover have "sorted_wrt (\<lambda>x y. sint (load_int x) \<le> sint (load_int y)) es"
    by (rule sorted_wrt_mono_rel [OF _ sorted]) (use A in \<open>auto simp: cmp_int_small subset_eq\<close>)
  then have "sorted (map (\<lambda>e. sint (load_int e)) es)" by (simp add: sorted_wrt_map)
  ultimately show ?thesis by (metis properties_for_sort)
qed

text \<open>What the drivers need of the two sorts, as one contract.\<close>

definition sorts :: "(byte list \<Rightarrow> byte list result) \<Rightarrow> nat \<Rightarrow> nat \<Rightarrow> (byte list \<Rightarrow> byte list \<Rightarrow> int) \<Rightarrow> byte list set \<Rightarrow> bool" where
  "sorts srt n es cmpfn A \<longleftrightarrow>
     (\<forall>blk. n * es \<le> length blk \<longrightarrow> set (elems es n blk) \<subseteq> A \<longrightarrow>
       (\<exists>blk'. srt blk = Inr blk' \<and> length blk' = length blk \<and> mset (elems es n blk') = mset (elems es n blk) \<and>
          sorted_wrt (\<lambda>x y. cmpfn x y \<le> 0) (elems es n blk')))"

lemma sortsD:
  "sorts srt n es cmpfn A \<Longrightarrow> n * es \<le> length blk \<Longrightarrow> set (elems es n blk) \<subseteq> A \<Longrightarrow>
   \<exists>blk'. srt blk = Inr blk' \<and> length blk' = length blk \<and> mset (elems es n blk') = mset (elems es n blk) \<and>
     sorted_wrt (\<lambda>x y. cmpfn x y \<le> 0) (elems es n blk')"
  by (simp add: sorts_def)

lemma qsort_sorts:
  assumes "byte_comparator cmpfn A"
  shows "sorts (\<lambda>a. my_qsort a (int n) es cmpfn) n es cmpfn A"
proof -
  have "cmpfn x x \<le> 0" if "x \<in> A" for x
    using comparator.cmp_refl [OF byte_comparator.axioms [OF assms] that] by simp
  then show ?thesis using my_qsort_correct [of n es _ A cmpfn] assms unfolding sorts_def by blast
qed

lemma merge_sort_sorts:
  assumes "byte_comparator cmpfn A" "\<And>k. k \<le> n \<Longrightarrow> grants H (k * es)"
  shows "sorts (\<lambda>a. my_merge_sort H a (int n) es cmpfn) n es cmpfn A"
  unfolding sorts_def
proof (intro allI impI)
  fix blk :: "byte list"
  assume *: "n * es \<le> length blk" "set (elems es n blk) \<subseteq> A"
  obtain blk' where "my_merge_sort H blk (int n) es cmpfn = Inr blk'" "length blk' = length blk"
    "elems es n blk' = msort_ref cmpfn (elems es n blk)"
    using my_merge_sort_correct [of n es blk H cmpfn] *(1) assms(2) by blast
  then show "\<exists>blk'. my_merge_sort H blk (int n) es cmpfn = Inr blk' \<and> length blk' = length blk \<and>
      mset (elems es n blk') = mset (elems es n blk) \<and> sorted_wrt (\<lambda>x y. cmpfn x y \<le> 0) (elems es n blk')"
    using comparator.sorted_msort_ref [OF byte_comparator.axioms [OF assms(1)] *(2)]
    by (simp add: mset_msort_ref)
qed

lemma print_sort_print_ints:
  assumes "sorts srt (length xs) 4 cmp_int small_ints" and small: "\<forall>x \<in> set xs. 0 \<le> x \<and> x < 2 ^ 30"
  shows "print_sort_print (\<lambda>a. print_array a 0 (int (length xs))) srt (concat (map store_int xs)) =
    Inr (int_line xs @ int_line (sort xs))"
proof -
  let ?a = "concat (map store_int xs)"
  have el: "elems 4 (length xs) ?a = map store_int xs"
    using elems_concat [of "map store_int xs" 4] by (simp add: store_int_def)
  have len: "length ?a = length xs * 4"
    using length_concat_const [of "map store_int xs" 4] by (simp add: store_int_def)
  have "set (elems 4 (length xs) ?a) \<subseteq> small_ints" using small small_store_int(1) by (auto simp: el)
  with assms(1) obtain b where b: "srt ?a = Inr b" "length b = length ?a"
    "mset (elems 4 (length xs) b) = mset (map store_int xs)"
    "sorted_wrt (\<lambda>x y. cmp_int x y \<le> 0) (elems 4 (length xs) b)"
    using sortsD [of srt "length xs" 4 cmp_int small_ints ?a] len el by auto
  have "map (\<lambda>e. sint (load_int e)) (map store_int xs) = xs"
    using small by (simp add: comp_def small_store_int(2) map_idI)
  then have "print_array ?a 0 (int (length xs)) = Inr (int_line xs)"
    using print_array_elems [of 0 "length xs" ?a] len el by simp
  moreover have "print_array b 0 (int (length xs)) = Inr (int_line (sort xs))"
    using print_array_elems [of 0 "length xs" b] len b sorted_bytes_show [OF small b(3,4)] by simp
  ultimately show ?thesis using b(1) by (simp add: print_sort_print_def)
qed

lemma smod_pos: "0 \<le> a \<Longrightarrow> 0 < b \<Longrightarrow> a smod b = a mod b" for a b :: int
  by (simp add: signed_modulo_int_def sgn_if)

definition rand_values :: "(nat \<Rightarrow> int) \<Rightarrow> nat \<Rightarrow> int list" where
  "rand_values rand sz = map (\<lambda>i. rand i mod int sz) [0..<sz]"

lemma rand_array_values:
  "0 < sz \<Longrightarrow> \<forall>i. 0 \<le> rand i \<Longrightarrow> rand_array rand sz = concat (map store_int (rand_values rand sz))"
  by (simp add: rand_array_def rand_values_def smod_pos comp_def)

lemma rand_values_small:
  assumes "0 < sz" "sz \<le> 101"
  shows "\<forall>x \<in> set (rand_values rand sz). 0 \<le> x \<and> x < 2 ^ 30"
proof
  fix x assume "x \<in> set (rand_values rand sz)"
  then obtain i where "x = rand i mod int sz" by (auto simp: rand_values_def)
  moreover have "rand i mod int sz < int sz" "0 \<le> rand i mod int sz" using assms(1) by simp_all
  moreover have "int sz \<le> 2 ^ 30" using assms(2) by simp
  ultimately show "0 \<le> x \<and> x < 2 ^ 30" using less_le_trans by blast
qed

lemma sort_test_int_prints:
  assumes "\<forall>i. 0 \<le> rand i"
  shows "sort_test_int rand = Inr (int_line (rand_values rand 101) @ int_line (sort (rand_values rand 101)))"
  using print_sort_print_ints [of "\<lambda>a. my_qsort a 101 4 cmp_int" "rand_values rand 101"]
    qsort_sorts [OF cint_bytes.byte_comparator_axioms, of 101 4] rand_values_small [of 101 rand] assms
  by (simp add: sort_test_int_def rand_array_values) (simp add: rand_values_def)

lemma merge_sort_test_int_prints:
  assumes "\<forall>i. 0 \<le> rand i" and "\<And>k. k \<le> 100 \<Longrightarrow> grants H (k * 4)"
  shows "merge_sort_test_int H rand = Inr (int_line (rand_values rand 100) @ int_line (sort (rand_values rand 100)))"
  using print_sort_print_ints [of "\<lambda>a. my_merge_sort H a 100 4 cmp_int" "rand_values rand 100"]
    merge_sort_sorts [OF cint_bytes.byte_comparator_axioms, of 100 H 4] rand_values_small [of 100 rand] assms
  by (simp add: merge_sort_test_int_def rand_array_values) (simp add: rand_values_def)
text \<open>The order of C strings is strict: a sorted list of strings is the only sorted permutation.\<close>

lemma strcmp_sorted_unique:
  "mset xs = mset ys \<Longrightarrow> \<forall>x \<in> set xs. c_string x \<Longrightarrow> sorted_wrt (\<lambda>x y. strcmp x y \<le> 0) xs \<Longrightarrow>
   sorted_wrt (\<lambda>x y. strcmp x y \<le> 0) ys \<Longrightarrow> xs = ys"
proof (induction xs arbitrary: ys)
  case Nil
  then show ?case by simp
next
  case (Cons x xs)
  then obtain y ys' where ys: "ys = y # ys'" by (cases ys) auto
  have sets: "set (x # xs) = set (y # ys')" using mset_eq_setD [OF Cons.prems(1)] ys by simp
  have refl: "strcmp x x \<le> 0" "strcmp y y \<le> 0" by simp_all
  have "strcmp x y \<le> 0" using Cons.prems(3) sets refl by (metis list.set_intros(1) set_ConsD sorted_wrt.simps(2))
  moreover have "strcmp y x \<le> 0"
    using Cons.prems(4) sets refl ys by (metis list.set_intros(1) set_ConsD sorted_wrt.simps(2))
  moreover have "c_string x" "c_string y" using Cons.prems(2) sets by auto
  ultimately have "x = y" using strcmp_zero [of x y] strcmp_swap [of y x] by simp
  with Cons ys show ?case by simp
qed

lemma text_bytes_inverse [simp]: "show_bytes (text_bytes s) = s"
proof -
  have "char_of (unat (of_nat (of_char c) :: byte)) = c" for c :: char
    by (simp add: unat_of_nat take_bit_eq_mod)
  then show ?thesis by (simp add: show_bytes_def text_bytes_def comp_def map_idI)
qed

text \<open>Pointers \<open>arr\<close> to the strings \<open>ws\<close>.\<close>

definition points_to :: "(byte list \<Rightarrow> byte list) \<Rightarrow> byte list list \<Rightarrow> string list \<Rightarrow> bool" where
  "points_to deref arr ws \<longleftrightarrow> map deref arr = map text_bytes ws \<and> (\<forall>p \<in> set arr. length p = 8)"

lemma show_pointers: "map deref ps = map text_bytes ws \<Longrightarrow> map (\<lambda>p. show_bytes (deref p)) ps = ws"
proof -
  assume "map deref ps = map text_bytes ws"
  then have "map show_bytes (map deref ps) = map show_bytes (map text_bytes ws)" by (rule arg_cong)
  then show ?thesis by (simp add: comp_def)
qed

lemma print_sort_print_words:
  assumes "sorts srt (length ws) 8 (cmp_string deref) {p. c_string (deref p)}" and arr: "points_to deref arr ws"
    and perm: "mset ws' = mset ws" and ws: "\<forall>w \<in> set ws. c_string (text_bytes w)"
    and sorted: "sorted_wrt (\<lambda>x y. strcmp x y \<le> 0) (map text_bytes ws')"
  shows "print_sort_print (\<lambda>a. print_string deref a 0 (int (length ws))) srt (concat arr) =
    Inr (word_line ws @ word_line ws')"
proof -
  have n: "length arr = length ws" using arr by (metis points_to_def length_map)
  have el: "elems 8 (length ws) (concat arr) = arr"
    using elems_concat [of arr 8] arr n by (simp add: points_to_def)
  have len: "length (concat arr) = length ws * 8"
    using length_concat_const [of arr 8] arr n by (simp add: points_to_def)
  have "deref ` set arr = text_bytes ` set ws" using arr unfolding points_to_def by (metis image_set)
  then have str: "c_string (deref p)" if "p \<in> set arr" for p using ws that by (metis imageE imageI)
  with assms(1) obtain b where b: "srt (concat arr) = Inr b" "length b = length (concat arr)"
    "mset (elems 8 (length ws) b) = mset arr"
    "sorted_wrt (\<lambda>x y. cmp_string deref x y \<le> 0) (elems 8 (length ws) b)"
    using sortsD [of srt "length ws" 8 "cmp_string deref" "{p. c_string (deref p)}" "concat arr"] len el
    by auto
  have "mset (map deref (elems 8 (length ws) b)) = mset (map text_bytes ws')"
    using b(3) arr perm by (simp add: points_to_def) (metis mset_map)
  moreover have "\<forall>x \<in> set (map deref (elems 8 (length ws) b)). c_string x"
    using mset_eq_setD [OF b(3)] str by auto
  moreover have "sorted_wrt (\<lambda>x y. strcmp x y \<le> 0) (map deref (elems 8 (length ws) b))"
    using b(4) by (simp add: sorted_wrt_map cmp_string_def)
  ultimately have "map deref (elems 8 (length ws) b) = map text_bytes ws'"
    using strcmp_sorted_unique sorted by blast
  from show_pointers [OF this] have "map (\<lambda>e. show_bytes (deref e)) (elems 8 (length ws) b) = ws'" .
  then have "print_string deref b 0 (int (length ws)) = Inr (word_line ws')"
    using print_string_elems [of 0 "length ws" b deref] len b(2) by simp
  moreover have "map (\<lambda>e. show_bytes (deref e)) arr = ws"
    using arr by (intro show_pointers) (simp add: points_to_def)
  then have "print_string deref (concat arr) 0 (int (length ws)) = Inr (word_line ws)"
    using print_string_elems [of 0 "length ws" "concat arr" deref] len el by simp
  ultimately show ?thesis using b(1) by (simp add: print_sort_print_def)
qed

definition sorted_words :: "string list" where
  "sorted_words = [''export'', ''fine'', ''good'', ''import'', ''job'', ''no'', ''ok'', ''qsort'', ''where'',
     ''why'', ''xabout'', ''yes'']"

definition merge_sorted_words :: "string list" where
  "merge_sorted_words = ''about'' # filter (\<lambda>w. w \<noteq> ''xabout'') sorted_words"

lemma words_are_strings:
  "\<forall>w \<in> set sort_words. c_string (text_bytes w)" "\<forall>w \<in> set merge_words. c_string (text_bytes w)"
  by code_simp+

lemma words_sorted:
  "sorted_wrt (\<lambda>x y. strcmp x y \<le> 0) (map text_bytes sorted_words)"
  "sorted_wrt (\<lambda>x y. strcmp x y \<le> 0) (map text_bytes merge_sorted_words)"
  by code_simp+

lemma words_perm: "mset sorted_words = mset sort_words" "mset merge_sorted_words = mset merge_words"
  by (simp_all add: sorted_words_def merge_sorted_words_def sort_words_def merge_words_def)

lemma words_length: "length sort_words = 12" "length merge_words = 12"
  by (simp_all add: sort_words_def merge_words_def)

lemma sort_test_string_prints:
  "points_to deref arr sort_words \<Longrightarrow> sort_test_string deref arr = Inr (word_line sort_words @ word_line sorted_words)"
  using print_sort_print_words [of "\<lambda>a. my_qsort a 12 8 (cmp_string deref)" sort_words deref arr sorted_words]
    qsort_sorts [OF cstring_bytes.byte_comparator_axioms, of 12 8 deref] words_are_strings words_sorted words_perm
  by (simp add: sort_test_string_def words_length)

lemma merge_sort_test_string_prints:
  assumes "points_to deref arr merge_words" and "\<And>k. k \<le> 12 \<Longrightarrow> grants H (k * 8)"
  shows "merge_sort_test_string H deref arr = Inr (word_line merge_words @ word_line merge_sorted_words)"
  using print_sort_print_words [of "\<lambda>a. my_merge_sort H a 12 8 (cmp_string deref)" merge_words deref arr merge_sorted_words]
    merge_sort_sorts [OF cstring_bytes.byte_comparator_axioms, of 12 H 8 deref] words_are_strings words_sorted words_perm
    assms
  by (simp add: merge_sort_test_string_def words_length)

text \<open>
  Claim C40. The whole driver my_sort_test.c: whatever \<open>rand\<close> answers, wherever the strings are, and whatever
  memory \<open>malloc\<close> hands out, it prints each array and then its sorted permutation.
\<close>

theorem sort_test_main_prints:
  assumes "\<forall>i. 0 \<le> rand1 i" and "\<forall>i. 0 \<le> rand2 i"
    and "points_to deref arr1 sort_words" and "points_to deref arr2 merge_words"
    and "\<And>n. n \<le> 400 \<Longrightarrow> grants H n"
  shows "sort_test_main H rand1 rand2 deref arr1 arr2 =
    Inr (int_line (rand_values rand1 101) @ int_line (sort (rand_values rand1 101)) @
      word_line sort_words @ word_line sorted_words @
      int_line (rand_values rand2 100) @ int_line (sort (rand_values rand2 100)) @
      word_line merge_words @ word_line merge_sorted_words @ ''done'' @ [NL])"
  using sort_test_int_prints [OF assms(1)] sort_test_string_prints [OF assms(3)]
    merge_sort_test_int_prints [OF assms(2), of H] merge_sort_test_string_prints [OF assms(4), of H] assms(5)
  by (simp add: sort_test_main_def)

text \<open>Pointers that number the strings.\<close>

definition numbered :: "nat \<Rightarrow> byte list list" where
  "numbered i = map (\<lambda>k. le_bytes 8 (int k)) [i..<i + 12]"

definition numbered_strings :: "byte list \<Rightarrow> byte list" where
  "numbered_strings p = text_bytes ((sort_words @ merge_words) ! unat (hd p))"

lemma numbered_point:
  "points_to numbered_strings (numbered 0) sort_words" "points_to numbered_strings (numbered 12) merge_words"
  by code_simp+

theorem sort_test_main_prints_witness:
  "sort_test_main roomy (\<lambda>i. 7) int numbered_strings (numbered 0) (numbered 12) =
    Inr (int_line (replicate 101 7) @ int_line (replicate 101 7) @
      word_line sort_words @ word_line sorted_words @
      int_line (map int [0..<100]) @ int_line (map int [0..<100]) @
      word_line merge_words @ word_line merge_sorted_words @ ''done'' @ [NL])"
proof -
  have *: "rand_values (\<lambda>i. 7) 101 = replicate 101 7" "rand_values int 100 = map int [0..<100]"
    by (auto simp: rand_values_def map_replicate_const)
  have **: "sort (replicate 101 (7 :: int)) = replicate 101 7" "sort (map int [0..<100]) = map int [0..<100]"
    by (simp_all add: sorted_sort_id sorted_map sorted_wrt_upt)
  show ?thesis
    using sort_test_main_prints [OF _ _ numbered_point, of "\<lambda>i. 7" int roomy]
    by (simp only: * **) (simp add: roomy_def)
qed
section \<open>The messages of growth\<close>

definition grow_line :: "string \<Rightarrow> int \<Rightarrow> string" where
  "grow_line pre sz = pre @ show_int sz @ [NL]"

definition list_msg :: "my_array_list \<Rightarrow> string" where
  "list_msg l = (if l_current_size l = l_size l then grow_line ''list grow new size='' (l_size l * 2) else [])"

definition stack_msg :: "mystack \<Rightarrow> string" where
  "stack_msg s = (if s_current_len s = s_size s then grow_line ''mystack_grow new size='' (s_size s * 2) else [])"

section \<open>mystack\_test.c\<close>

text \<open>
  Both tests push \<open>count\<close> values and pop as many into \<open>tmp\<close>; the result is the text printed and the
  values popped. The values of \<open>test_double\<close> are the bytes of the partial sums: \<open>add\<close> is the machine's
  addition of an \<open>int\<close> to a \<open>double\<close>, \<open>zero\<close> the bytes of 0.0.
\<close>

definition stack_test :: "allocator \<Rightarrow> int \<Rightarrow> byte list \<Rightarrow> byte list list \<Rightarrow> (string \<times> byte list list) result" where
  "stack_test H elem_size tmp vs =
     rbind (mystack_new H elem_size) (\<lambda>s.
     rbind (insert_text stack_msg (mystack_push H) s vs) (\<lambda>(s, t).
     rbind (pop_n (length vs) s tmp) (\<lambda>(s, popped). Inr (t, popped))))"

definition stack_test_int :: "allocator \<Rightarrow> byte list \<Rightarrow> nat \<Rightarrow> (string \<times> byte list list) result" where
  "stack_test_int H tmp n = stack_test H 4 tmp (map (\<lambda>i. store_int (int i)) [0..<n])"

fun partial_sums :: "(byte list \<Rightarrow> nat \<Rightarrow> byte list) \<Rightarrow> byte list \<Rightarrow> nat list \<Rightarrow> byte list list" where
  "partial_sums add d [] = []"
| "partial_sums add d (i # is) = add d i # partial_sums add (add d i) is"

definition stack_test_double ::
  "allocator \<Rightarrow> (byte list \<Rightarrow> nat \<Rightarrow> byte list) \<Rightarrow> byte list \<Rightarrow> nat \<Rightarrow> (string \<times> byte list list) result" where
  "stack_test_double H add zero n = stack_test H 8 zero (partial_sums add zero [0..<n])"

definition stack_test_main ::
  "allocator \<Rightarrow> byte list \<Rightarrow> (byte list \<Rightarrow> nat \<Rightarrow> byte list) \<Rightarrow> byte list \<Rightarrow> string result" where
  "stack_test_main H tmp add zero =
     rbind (stack_test_int H tmp 1000000) (\<lambda>(t1, _).
     rbind (stack_test_double H add zero 1000000) (\<lambda>(t2, _). Inr (t1 @ t2)))"

lemma stack_test_runs:
  assumes es: "0 < es" "length tmp = nat es" and vs: "\<forall>v \<in> set vs. length v = nat es"
    and H: "\<And>m. 0 \<le> m \<Longrightarrow> m \<le> 4 + 2 * int (length vs) \<Longrightarrow> has_room H (m * es)"
  shows "stack_test H es tmp vs = Inr (growths (grow_line ''mystack_grow new size='') 4 (int (length vs)), rev vs)"
proof -
  have "has_room H (4 * es)" by (rule H) auto
  then obtain s where s: "mystack_new H es = Inr s" "s_size s = 4" "s_current_len s = 0"
    using es by (auto simp: mystack_new_def malloc_def has_room_def)
  with mystack_new_ok [OF s(1)] have inv: "stack_inv s" "stack_abs s = []" "s_elem_size s = es" by auto
  obtain s' where s': "insert_text stack_msg (mystack_push H) s vs =
      Inr (s', growths (grow_line ''mystack_grow new size='') 4 (int (length vs)))"
    "stack_inv s'" "stack_abs s' = vs" "nat (s_elem_size s') = nat es" "s_current_len s' = int (length vs)"
    using sized_stack.insert_text_runs [of s vs H stack_msg "grow_line ''mystack_grow new size=''"] inv s es vs H
    by (auto simp: stack_msg_def)
  obtain s'' where "pop_n (length vs) s' tmp = Inr (s'', rev vs)"
    using pop_n_ok [OF s'(2), of "length vs" tmp] s' es by auto
  with s s' show ?thesis by (simp add: stack_test_def)
qed

lemma length_partial_sums [simp]: "length (partial_sums add d is) = length is"
  by (induction "is" arbitrary: d) auto

lemma partial_sums_width:
  "\<forall>d i. length (add d i) = n \<Longrightarrow> \<forall>v \<in> set (partial_sums add d is). length v = n"
  by (induction "is" arbitrary: d) auto

text \<open>
  The whole driver mystack_test.c: two million values go through the stack and every pop delivers; the
  text is the lines of the doublings.
\<close>

theorem stack_test_main_runs:
  assumes H: "\<And>n. n \<le> 16000032 \<Longrightarrow> grants H n" and "length tmp = 4" and "length zero = 8"
    and "\<forall>d i. length (add d i) = 8"
  shows "stack_test_main H tmp add zero =
    Inr (growths (grow_line ''mystack_grow new size='') 4 1000000 @ growths (grow_line ''mystack_grow new size='') 4 1000000)"
proof -
  have room: "has_room H (m * es)" if "0 \<le> m" "m \<le> 2000004" "0 \<le> es" "es \<le> 8" for m es
  proof -
    have "m * es \<le> 2000004 * 8" using that by (intro mult_mono) auto
    moreover have "0 \<le> m * es" using that by simp
    ultimately
    show ?thesis using H by (auto simp: has_room_def in_int_def INT_MIN_def INT_MAX_def)
  qed
  have "stack_test_int H tmp 1000000 = Inr (growths (grow_line ''mystack_grow new size='') 4 1000000,
      rev (map (\<lambda>i. store_int (int i)) [0..<1000000]))"
    unfolding stack_test_int_def using stack_test_runs [of 4 tmp "map (\<lambda>i. store_int (int i)) [0..<1000000]" H] assms room
    by (simp add: store_int_def)
  moreover have "stack_test_double H add zero 1000000 = Inr (growths (grow_line ''mystack_grow new size='') 4 1000000,
      rev (partial_sums add zero [0..<1000000]))"
    unfolding stack_test_double_def using stack_test_runs [of 8 zero "partial_sums add zero [0..<1000000]" H] assms room
      partial_sums_width [of add 8] by simp
  ultimately show ?thesis by (simp add: stack_test_main_def)
qed

theorem stack_test_main_runs_witness:
  "stack_test_main roomy [0, 0, 0, 0] (\<lambda>d i. le_bytes 8 (le_value d + int i)) (le_bytes 8 0) =
    Inr (growths (grow_line ''mystack_grow new size='') 4 1000000 @ growths (grow_line ''mystack_grow new size='') 4 1000000)"
  by (rule stack_test_main_runs) (simp_all add: roomy_def)
section \<open>my\_array\_list\_test.c\<close>

text \<open>\<open>list_print\<close> with \<open>print_int_value\<close>, and with the \<open>print_string\<close> of this driver, and the newline.\<close>

definition print_ints :: "my_array_list \<Rightarrow> string result" where
  "print_ints l = rbind (list_print l) (\<lambda>bss. Inr (int_line (map (\<lambda>b. sint (load_int b)) bss)))"

definition print_strings :: "my_array_list \<Rightarrow> string result" where
  "print_strings l = rbind (list_print l) (\<lambda>bss. Inr (word_line (map (\<lambda>b. show_bytes (c_str b)) bss)))"

text \<open>The driver's \<open>cmp_string\<close> compares the strings stored in the elements themselves.\<close>

definition cmp_cstr :: "byte list \<Rightarrow> byte list \<Rightarrow> int" where
  "cmp_cstr a b = strcmp (c_str a) (c_str b)"

text \<open>
  \<open>tmp\<close> is an address in the block: its bytes are read again after the removal has shifted the block.
\<close>

definition list_test_int :: "allocator \<Rightarrow> nat \<Rightarrow> string result" where
  "list_test_int H n =
     rbind (list_new H 4 4) (\<lambda>l.
     rbind (insert_text list_msg (list_add H) l (map (\<lambda>i. store_int (int i)) [0..<n])) (\<lambda>(l, t1).
     rbind (print_ints l) (\<lambda>t2.
     rbind (list_contain l (store_int 5) cmp_int) (\<lambda>at5.
     rbind (list_get l 4) (\<lambda>tmp.
     rbind (rd tmp 4 (l_values l)) (\<lambda>v.
     rbind (list_remove_val l v cmp_int) (\<lambda>(l, _).
     rbind (rd tmp 4 (l_values l)) (\<lambda>v'.
     rbind (list_contain l v' cmp_int) (\<lambda>at4.
     rbind (print_ints l) (\<lambda>t3.
     Inr (t1 @ t2 @ (if at5 \<ge> 0 then ''contain 5'' @ [NL] else []) @
       ''tmp = '' @ show_int (sint (load_int v)) @ [NL] @
       (if at4 < 0 then show_int (sint (load_int v')) @ '' remove succes'' @ [NL] else []) @ t3)))))))))))"

text \<open>
  The loop of \<open>test_string\<close>: \<open>tmp0\<close> are the ten bytes of \<open>tmp\<close> before \<open>sprintf\<close>. The strings have at
  most seven characters for \<open>count\<close> up to ten, so every element holds its terminator.
\<close>

definition sprintf_string :: "byte list \<Rightarrow> nat \<Rightarrow> byte list result" where
  "sprintf_string tmp0 i = wr 0 (text_bytes (''string'' @ show_int (int i)) @ [0]) tmp0"

fun add_strings :: "allocator \<Rightarrow> byte list \<Rightarrow> my_array_list \<Rightarrow> nat list \<Rightarrow> (my_array_list \<times> string) result" where
  "add_strings H tmp0 l [] = Inr (l, [])"
| "add_strings H tmp0 l (i # is) =
     rbind (sprintf_string tmp0 i) (\<lambda>tmp.
     rbind (list_add H l tmp) (\<lambda>l'.
     rbind (list_contain l' tmp cmp_cstr) (\<lambda>at.
     rbind (add_strings H tmp0 l' is) (\<lambda>(l'', t).
     Inr (l'', list_msg l @ (if at \<ge> 0 then ''contain '' else ''add error!!!'') @ show_bytes (c_str tmp) @ [NL] @ t)))))"

text \<open>
  \<open>ptr\<close> are the eight bytes of the variable \<open>tt\<close>, whose address \<open>&tt\<close> is what the third search is given.
\<close>

definition list_test_string :: "allocator \<Rightarrow> byte list \<Rightarrow> byte list \<Rightarrow> nat \<Rightarrow> string result" where
  "list_test_string H tmp0 ptr n =
     rbind (list_new H 2 8) (\<lambda>l.
     rbind (add_strings H tmp0 l [0..<n]) (\<lambda>(l, t1).
     rbind (print_strings l) (\<lambda>t2.
     rbind (list_get l 6) (\<lambda>tt.
     rbind (rd tt 8 (l_values l)) (\<lambda>v.
     rbind (list_remove_val l v cmp_cstr) (\<lambda>(l, _).
     rbind (list_contain l ptr cmp_cstr) (\<lambda>at.
     rbind (list_contain l (text_bytes ''string7'' @ [0]) cmp_cstr) (\<lambda>index.
     rbind
       (if index \<ge> 0 then
          rbind (list_get l index) (\<lambda>p. rbind (rd p 8 (l_values l)) (\<lambda>bs.
          Inr (show_bytes (c_str bs) @ '' is in list'' @ [NL])))
        else Inr []) (\<lambda>t4.
     rbind (print_strings l) (\<lambda>t5.
     Inr (t1 @ t2 @ ''tt = '' @ show_bytes (c_str v) @ (if at = - 1 then '' remove success'' @ [NL] else []) @
       t4 @ t5)))))))))))"

definition list_test_main :: "allocator \<Rightarrow> byte list \<Rightarrow> byte list \<Rightarrow> string result" where
  "list_test_main H tmp0 ptr =
     rbind (list_test_int H 10) (\<lambda>t1. rbind (list_test_string H tmp0 ptr 10) (\<lambda>t2. Inr (t1 @ t2)))"

subsection \<open>What it prints\<close>

lemma list_read:
  assumes "list_inv l" "0 \<le> i" "i < l_current_size l"
  shows "list_get l i = Inr (i * l_elem_size l)"
    "rd (i * l_elem_size l) (nat (l_elem_size l)) (l_values l) = Inr (list_abs l ! nat i)"
proof -
  have ok: "block_ok (l_elem_size l) (l_size l) (l_current_size l) (l_values l)" using assms(1) by (simp add: list_inv_def)
  then have i: "i < l_size l" "i \<le> l_size l" using assms(3) block_okD [OF ok] by auto
  show "list_get l i = Inr (i * l_elem_size l)"
    using offset_in_int [OF ok assms(2) i(2)] assms by (simp add: list_get_def)
  show "rd (i * l_elem_size l) (nat (l_elem_size l)) (l_values l) = Inr (list_abs l ! nat i)"
    using block_rd [OF ok assms(2) i(1)] assms by (simp add: list_abs_def contents_of_def)
qed

text \<open>The four operations of the drivers on a list known by its elements \<open>vs\<close>.\<close>

definition holds :: "int \<Rightarrow> my_array_list \<Rightarrow> byte list list \<Rightarrow> bool" where
  "holds es l vs \<longleftrightarrow> list_inv l \<and> list_abs l = vs \<and> l_elem_size l = es"

lemma holds_new:
  assumes "0 < sz" "0 < es" "has_room H (sz * es)"
  shows "\<exists>l. list_new H sz es = Inr l \<and> holds es l [] \<and> l_size l = sz \<and> l_current_size l = 0"
proof -
  obtain l where "list_new H sz es = Inr l" "l_current_size l = 0"
    using assms by (auto simp: list_new_def malloc_def has_room_def)
  then show ?thesis using list_new_ok [of H sz es l] by (auto simp: holds_def)
qed

lemma holds_read:
  assumes "holds es l vs" "i < length vs"
  shows "list_get l (int i) = Inr (int i * es)" "rd (int i * es) (nat es) (l_values l) = Inr (vs ! i)"
  using assms list_read [of l "int i"] length_list_abs [of l] by (auto simp: holds_def)

lemma holds_contain:
  "holds es l vs \<Longrightarrow> list_contain l v cmpfn =
     Inr (case first_match (\<lambda>x. cmpfn v x = 0) vs of None \<Rightarrow> - 1 | Some k \<Rightarrow> int k)"
  using list_contain_correct [of l v cmpfn] by (simp add: holds_def)

lemma holds_remove_val:
  assumes h: "holds es l vs" and m: "first_match (\<lambda>x. cmpfn v x = 0) vs = Some k"
  shows "\<exists>l'. list_remove_val l v cmpfn = Inr (l', 1) \<and> holds es l' (take k vs @ drop (Suc k) vs)"
proof -
  have "k < length vs" using m by (simp add: first_match_Some)
  then have "int k < l_current_size l" using h length_list_abs [of l] by (auto simp: holds_def)
  with h list_remove_ok [of l "int k"] obtain l' where
    "list_remove l (int k) = Inr (l', 1)" "holds es l' (take k vs @ drop (Suc k) vs)"
    by (auto simp: holds_def)
  then show ?thesis using holds_contain [OF h, of v cmpfn] m by (simp add: list_remove_val_def)
qed

lemma holds_print_ints: "holds es l vs \<Longrightarrow> print_ints l = Inr (int_line (map (\<lambda>b. sint (load_int b)) vs))"
  by (simp add: print_ints_def list_print_all holds_def)

lemma holds_print_strings: "holds es l vs \<Longrightarrow> print_strings l = Inr (word_line (map (\<lambda>b. show_bytes (c_str b)) vs))"
  by (simp add: print_strings_def list_print_all holds_def)

definition ten :: "byte list list" where
  "ten = map (\<lambda>i. store_int (int i)) [0..<10]"

lemma ten_facts:
  "first_match (\<lambda>x. cmp_int (store_int 5) x = 0) ten = Some 5"
  "first_match (\<lambda>x. cmp_int (ten ! 4) x = 0) ten = Some 4"
  "first_match (\<lambda>x. cmp_int ((take 4 ten @ drop 5 ten) ! 4) x = 0) (take 4 ten @ drop 5 ten) = Some 4"
  "map (\<lambda>b. sint (load_int b)) ten = [0, 1, 2, 3, 4, 5, 6, 7, 8, 9]"
  "map (\<lambda>b. sint (load_int b)) (take 4 ten @ drop 5 ten) = [0, 1, 2, 3, 5, 6, 7, 8, 9]"
  "show_int (sint (load_int (ten ! 4))) = ''4''" "length ten = 10"
  by code_simp+

lemma growths_to_ten:
  "growths line 4 10 = line 8 @ line 16" "growths line 2 10 = line 4 @ line 8 @ line 16"
  by (simp_all add: growths.simps)

text \<open>
  The value removed is read again through \<open>tmp\<close>, where its successor 5 has been moved by then: 5 is
  found, and the line "remove succes" is never printed although 4 has been removed.
\<close>

lemma list_test_int_prints:
  assumes "\<And>n. n \<le> 80 \<Longrightarrow> grants H n"
  shows "list_test_int H 10 =
    Inr (''list grow new size=8'' @ [NL] @ ''list grow new size=16'' @ [NL] @ ''0 1 2 3 4 5 6 7 8 9 '' @ [NL] @
      ''contain 5'' @ [NL] @ ''tmp = 4'' @ [NL] @ ''0 1 2 3 5 6 7 8 9 '' @ [NL])"
proof -
  have room: "has_room H m" if "0 \<le> m" "m \<le> 80" for m
    using that assms by (simp add: has_room_def in_int_def INT_MIN_def INT_MAX_def)
  obtain l0 where l0: "list_new H 4 4 = Inr l0" "holds 4 l0 []" "l_size l0 = 4" "l_current_size l0 = 0"
    using holds_new [of 4 4 H] room by auto
  obtain l1 where l1: "insert_text list_msg (list_add H) l0 ten =
      Inr (l1, growths (grow_line ''list grow new size='') 4 10)" "holds 4 l1 ten"
    using sized_list.insert_text_runs [of l0 ten H list_msg "grow_line ''list grow new size=''"] l0 room ten_facts(7)
    by (auto simp: holds_def list_msg_def ten_def store_int_def)
  obtain l2 where l2: "list_remove_val l1 (ten ! 4) cmp_int = Inr (l2, 1)" "holds 4 l2 (take 4 ten @ drop 5 ten)"
    using holds_remove_val [OF l1(2), of cmp_int "ten ! 4" 4] ten_facts(2) by auto
  note reads = holds_read [OF l1(2), of 4] holds_read [OF l2(2), of 4]
  have lines: "grow_line ''list grow new size='' 8 = ''list grow new size=8'' @ [NL]"
    "grow_line ''list grow new size='' 16 = ''list grow new size=16'' @ [NL]"
    "int_line [0, 1, 2, 3, 4, 5, 6, 7, 8, 9] = ''0 1 2 3 4 5 6 7 8 9 '' @ [NL]"
    "int_line [0, 1, 2, 3, 5, 6, 7, 8, 9] = ''0 1 2 3 5 6 7 8 9 '' @ [NL]"
    by code_simp+
  show ?thesis
    using l0(1) l1(1) l2(1) reads holds_contain [OF l1(2), of "store_int 5" cmp_int]
      holds_contain [OF l2(2), of "(take 4 ten @ drop 5 ten) ! 4" cmp_int] holds_print_ints [OF l1(2)] holds_print_ints [OF l2(2)]
    unfolding list_test_int_def ten_def [symmetric]
    by (simp add: ten_facts growths_to_ten lines del: map_append)
qed
text \<open>The element \<open>sprintf\<close> leaves for \<open>i\<close>: eight bytes with the terminator.\<close>

definition string_elem :: "nat \<Rightarrow> byte list" where
  "string_elem i = text_bytes (''string'' @ show_int (int i)) @ [0]"

lemma string_elem_facts:
  "i < 10 \<Longrightarrow> length (string_elem i) = 8"
  "i < 10 \<Longrightarrow> c_str (string_elem i) = text_bytes (''string'' @ show_int (int i))"
proof -
  have *: "list_all (\<lambda>i. length (string_elem i) = 8 \<and> c_str (string_elem i) = text_bytes (''string'' @ show_int (int i))) [0..<10]"
    by code_simp
  show "i < 10 \<Longrightarrow> length (string_elem i) = 8"
    "i < 10 \<Longrightarrow> c_str (string_elem i) = text_bytes (''string'' @ show_int (int i))"
    using * unfolding list_all_iff by (auto simp del: upt_rec_numeral)
qed

lemma sprintf_string_elem:
  assumes "i < 10" "length tmp0 = 10"
  shows "sprintf_string tmp0 i = Inr (string_elem i @ drop 8 tmp0)" "c_str (string_elem i @ drop 8 tmp0) = c_str (string_elem i)"
proof -
  have "0 \<in> set (string_elem i)" by (simp add: string_elem_def)
  then show "c_str (string_elem i @ drop 8 tmp0) = c_str (string_elem i)"
    by (auto simp: c_str_def takeWhile_append1)
  show "sprintf_string tmp0 i = Inr (string_elem i @ drop 8 tmp0)"
    unfolding sprintf_string_def string_elem_def [symmetric]
    using assms string_elem_facts(1) [OF assms(1)] by (simp add: wr_def overwrite_def)
qed

text \<open>What the loop prints for \<open>i\<close>, and the run of the loop from \<open>i\<close> elements on.\<close>

definition contain_line :: "nat \<Rightarrow> string" where
  "contain_line i = ''contain string'' @ show_int (int i) @ [NL]"

lemma add_string_step:
  assumes h: "holds 8 l (map string_elem [0..<i])" and i: "i < 10" and tmp0: "length tmp0 = 10"
    and room: "\<And>m. 0 \<le> m \<Longrightarrow> m \<le> 160 \<Longrightarrow> has_room H m"
  shows "\<exists>l'. add_strings H tmp0 l (i # is) =
      rbind (add_strings H tmp0 l' is) (\<lambda>(l'', t). Inr (l'', list_msg l @ contain_line i @ t)) \<and>
    holds 8 l' (map string_elem [0..<Suc i]) \<and>
    l_size l' = (if l_current_size l = l_size l then l_size l * 2 else l_size l) \<and> l_current_size l' = int (Suc i)"
proof -
  let ?v = "string_elem i @ drop 8 tmp0"
  have inv: "list_inv l" "nat (l_elem_size l) = 8" "nat (l_elem_size l) \<le> length ?v"
    and cur: "l_current_size l = int i"
    using h string_elem_facts(1) i length_list_abs [of l] by (auto simp: holds_def list_inv_def block_ok_def)
  have "\<exists>l'. list_add H l ?v = Inr l'"
    using inv cur i by (intro sized_list.insert_total room) auto
  then obtain l' where l': "list_add H l ?v = Inr l'" ..
  have abs: "list_inv l'" "list_abs l' = map string_elem [0..<Suc i]" "l_elem_size l' = 8"
    "l_size l' = (if l_current_size l = l_size l then l_size l * 2 else l_size l)" "l_current_size l' = int (Suc i)"
    using list_add_ok [OF inv(1) inv(3) l'] sized_list.insert_cap [OF inv(1) inv(3) l'] h cur string_elem_facts(1) i
    by (auto simp: holds_def)
  have h': "holds 8 l' (map string_elem [0..<Suc i])" using abs by (simp add: holds_def)
  have "\<exists>k. first_match (\<lambda>x. cmp_cstr ?v x = 0) (map string_elem [0..<Suc i]) = Some k"
    using sprintf_string_elem(2) [OF i tmp0]
    by (cases "first_match (\<lambda>x. cmp_cstr ?v x = 0) (map string_elem [0..<Suc i])")
      (auto simp: first_match_None cmp_cstr_def)
  then obtain k where "list_contain l' ?v cmp_cstr = Inr (int k)" using holds_contain [OF h', of ?v cmp_cstr] by auto
  then show ?thesis
    using l' abs h' sprintf_string_elem [OF i tmp0] string_elem_facts(2) i
    by (intro exI [of _ l']) (simp add: contain_line_def)
qed

fun add_text :: "int \<Rightarrow> nat list \<Rightarrow> string" where
  "add_text c [] = []"
| "add_text c (i # is) =
     (if int i = c then grow_line ''list grow new size='' (c * 2) @ contain_line i @ add_text (c * 2) is
      else contain_line i @ add_text c is)"

lemma add_strings_run:
  assumes tmp0: "length tmp0 = 10" and room: "\<And>m. 0 \<le> m \<Longrightarrow> m \<le> 160 \<Longrightarrow> has_room H m"
  shows "i \<le> 10 \<Longrightarrow> holds 8 l (map string_elem [0..<i]) \<Longrightarrow>
    \<exists>l'. add_strings H tmp0 l [i..<10] = Inr (l', add_text (l_size l) [i..<10]) \<and> holds 8 l' (map string_elem [0..<10])"
proof (induction "10 - i" arbitrary: i l)
  case 0
  then show ?case by simp
next
  case (Suc d)
  then have i: "i < 10" by simp
  then have split: "[i..<10] = i # [Suc i..<10]" by (rule upt_conv_Cons)
  have cur: "l_current_size l = int i" using Suc.prems(2) length_list_abs [of l] by (auto simp: holds_def list_inv_def block_ok_def)
  obtain l1 where l1: "add_strings H tmp0 l (i # [Suc i..<10]) =
      rbind (add_strings H tmp0 l1 [Suc i..<10]) (\<lambda>(l'', t). Inr (l'', list_msg l @ contain_line i @ t))"
    "holds 8 l1 (map string_elem [0..<Suc i])" "l_size l1 = (if int i = l_size l then l_size l * 2 else l_size l)"
    using add_string_step [OF Suc.prems(2) i tmp0 room] cur by fastforce
  have "d = 10 - Suc i" "Suc i \<le> 10" using Suc.hyps(2) i by linarith+
  from Suc.hyps(1) [OF this l1(2)] obtain l' where
    "add_strings H tmp0 l1 [Suc i..<10] = Inr (l', add_text (l_size l1) [Suc i..<10])"
    "holds 8 l' (map string_elem [0..<10])" by blast
  with l1 cur show ?case by (auto simp: split list_msg_def)
qed
definition strs :: "byte list list" where
  "strs = map string_elem [0..<10]"

lemma strs_facts:
  "first_match (\<lambda>x. cmp_cstr (strs ! 6) x = 0) strs = Some 6"
  "first_match (\<lambda>x. cmp_cstr (text_bytes ''string7'' @ [0]) x = 0) (take 6 strs @ drop 7 strs) = Some 6"
  "(take 6 strs @ drop 7 strs) ! 6 = string_elem 7" "strs ! 6 = string_elem 6"
  "show_bytes (c_str (string_elem 6)) = ''string6''" "show_bytes (c_str (string_elem 7)) = ''string7''"
  "length strs = 10" "length (take 6 strs @ drop 7 strs) = 9"
  by code_simp+

lemma strs_lines:
  "word_line (map (\<lambda>b. show_bytes (c_str b)) strs) =
    ''string0 string1 string2 string3 string4 string5 string6 string7 string8 string9 '' @ [NL]"
  "word_line (map (\<lambda>b. show_bytes (c_str b)) (take 6 strs @ drop 7 strs)) =
    ''string0 string1 string2 string3 string4 string5 string7 string8 string9 '' @ [NL]"
  by code_simp+

text \<open>A pointer with a zero among its first seven bytes is no string of the list.\<close>

lemma pointer_not_found:
  assumes "0 \<in> set (take 7 ptr)"
  shows "first_match (\<lambda>x. cmp_cstr ptr x = 0) (take 6 strs @ drop 7 strs) = None"
proof -
  have len: "length (c_str ptr) < 7"
  proof (rule ccontr)
    assume "\<not> length (c_str ptr) < 7"
    moreover have "ptr = c_str ptr @ dropWhile (\<lambda>b. b \<noteq> 0) ptr" by (simp add: c_str_def)
    ultimately have "take 7 ptr = take 7 (c_str ptr)" by (metis take_append append_Nil2 diff_is_0_eq not_le take0)
    then have "set (take 7 ptr) \<subseteq> set (c_str ptr)" by (simp add: set_take_subset)
    with assms show False by (auto simp: c_str_def dest: set_takeWhileD)
  qed
  have "list_all (\<lambda>x. length (c_str x) = 7) (take 6 strs @ drop 7 strs)" by code_simp
  moreover have "c_string (c_str x)" for x by (auto simp: c_string_def c_str_def dest: set_takeWhileD)
  ultimately have "cmp_cstr ptr x \<noteq> 0" if "x \<in> set (take 6 strs @ drop 7 strs)" for x
    using that len strcmp_zero [of "c_str ptr" "c_str x"] by (auto simp: list_all_iff cmp_cstr_def)
  then show ?thesis by (simp add: first_match_None)
qed

lemma list_test_string_prints:
  assumes H: "\<And>n. n \<le> 160 \<Longrightarrow> grants H n" and "length tmp0 = 10" "0 \<in> set (take 7 ptr)"
  shows "list_test_string H tmp0 ptr 10 =
    Inr (add_text 2 [0..<10] @ ''string0 string1 string2 string3 string4 string5 string6 string7 string8 string9 '' @ [NL] @
      ''tt = string6 remove success'' @ [NL] @ ''string7 is in list'' @ [NL] @
      ''string0 string1 string2 string3 string4 string5 string7 string8 string9 '' @ [NL])"
proof -
  have room: "has_room H m" if "0 \<le> m" "m \<le> 160" for m
    using that H by (simp add: has_room_def in_int_def INT_MIN_def INT_MAX_def)
  obtain l0 where l0: "list_new H 2 8 = Inr l0" "holds 8 l0 []" "l_size l0 = 2" "l_current_size l0 = 0"
    using holds_new [of 2 8 H] room by auto
  obtain l1 where l1: "add_strings H tmp0 l0 [0..<10] = Inr (l1, add_text 2 [0..<10])" "holds 8 l1 strs"
    using add_strings_run [OF assms(2) room, of 0 l0] l0 by (auto simp: strs_def simp del: upt_rec_numeral)
  obtain l2 where l2: "list_remove_val l1 (strs ! 6) cmp_cstr = Inr (l2, 1)" "holds 8 l2 (take 6 strs @ drop 7 strs)"
    using holds_remove_val [OF l1(2), of cmp_cstr "strs ! 6" 6] strs_facts(1) by auto
  have pick: "list_get l1 6 = Inr 48" "rd 48 8 (l_values l1) = Inr (strs ! 6)" "list_get l2 6 = Inr 48"
    "rd 48 8 (l_values l2) = Inr ((take 6 strs @ drop 7 strs) ! 6)"
    using holds_read [OF l1(2), of 6] holds_read [OF l2(2), of 6] strs_facts(7,8) by simp_all
  have found: "list_contain l2 ptr cmp_cstr = Inr (- 1)"
    "list_contain l2 (text_bytes ''string7'' @ [0]) cmp_cstr = Inr 6"
    using holds_contain [OF l2(2)] pointer_not_found [OF assms(3)] strs_facts(2) by simp_all
  have prints: "print_strings l1 = Inr (''string0 string1 string2 string3 string4 string5 string6 string7 string8 string9 '' @ [NL])"
    "print_strings l2 = Inr (''string0 string1 string2 string3 string4 string5 string7 string8 string9 '' @ [NL])"
    using holds_print_strings [OF l1(2)] holds_print_strings [OF l2(2)] by (simp_all only: strs_lines)
  show ?thesis
    unfolding list_test_string_def using l0(1) l1(1) l2(1)
    by (simp only: rbind_Inr prod.case pick found prints strs_facts) simp
qed

text \<open>
  The whole driver my_array_list_test.c, up to the text of the insertions of strings: its first test never
  reports that the removal succeeded, its second does because it searches for the bytes of a pointer.
\<close>

theorem list_test_main_prints:
  assumes "\<And>n. n \<le> 160 \<Longrightarrow> grants H n" and "length tmp0 = 10" and "0 \<in> set (take 7 ptr)"
  shows "list_test_main H tmp0 ptr =
    Inr (''list grow new size=8'' @ [NL] @ ''list grow new size=16'' @ [NL] @ ''0 1 2 3 4 5 6 7 8 9 '' @ [NL] @
      ''contain 5'' @ [NL] @ ''tmp = 4'' @ [NL] @ ''0 1 2 3 5 6 7 8 9 '' @ [NL] @ add_text 2 [0..<10] @
      ''string0 string1 string2 string3 string4 string5 string6 string7 string8 string9 '' @ [NL] @
      ''tt = string6 remove success'' @ [NL] @ ''string7 is in list'' @ [NL] @
      ''string0 string1 string2 string3 string4 string5 string7 string8 string9 '' @ [NL])"
  using list_test_int_prints [of H] list_test_string_prints [of H tmp0 ptr] assms
  by (simp add: list_test_main_def del: upt_rec_numeral)

theorem list_test_main_prints_witness:
  "list_test_main roomy (replicate 10 170) [16, 32, 64, 96, 127, 85, 0, 0] =
    Inr (''list grow new size=8'' @ [NL] @ ''list grow new size=16'' @ [NL] @ ''0 1 2 3 4 5 6 7 8 9 '' @ [NL] @
      ''contain 5'' @ [NL] @ ''tmp = 4'' @ [NL] @ ''0 1 2 3 5 6 7 8 9 '' @ [NL] @ add_text 2 [0..<10] @
      ''string0 string1 string2 string3 string4 string5 string6 string7 string8 string9 '' @ [NL] @
      ''tt = string6 remove success'' @ [NL] @ ''string7 is in list'' @ [NL] @
      ''string0 string1 string2 string3 string4 string5 string7 string8 string9 '' @ [NL])"
  by (rule list_test_main_prints) (simp_all add: roomy_def)

end
