(* ===== verification/Spec2Isabelle.thy ===== *)
theory Spec2Isabelle
  imports MySort ArrayList MyStack Lsearch Equations Columns TracerouteStd TracerouteAux Icmp Ping TracerouteUdp TracerouteIcmp
    ErrLog FdIO FdPass Semaph TellWait Daemon Pty BufArgs Tty Popen Async RefCount Barrier
    Ftw System Getenv Timeout MsgQueue Pipes
    Streams Files SysLimits Jumps Forks Handlers Threads SigWait Locks Small Drivers
begin

text \<open>
  A verification library for the C programs of this repository: a few data structures and
  algorithms, two network tools with their variants, and the library and example programs of
  src/apue, which follow a textbook on UNIX programming.

  \<^bold>\<open>Two kinds of models.\<close>
  \<^item> Code over memory is a function that returns a result or a fault. A block of memory is a list of
    bytes (CMem), an array of numbers a list; every access is checked against its length
    (\<open>rd\<close>, \<open>wr\<close>), every \<open>int\<close> computation that can leave its range is checked or wraps as the code
    has it. The allocator is a parameter that may refuse and may hand out any contents.
    Exception: the index arithmetic of my_sort.c is unbounded, because every product is at most the
    length of the block.
  \<^item> Code over the system is a function on a world (Posix): the kernel's state, \<open>errno\<close>, the trace
    of calls and the program's global variables, in a record per program. The kernel, the C library's
    I/O and other libraries are one parameter \<open>K\<close>, a function from a call to a reply; nothing is assumed
    about it except in the hypotheses a theorem names (for instance that \<open>write\<close> never claims more
    than it was given, or what a terminal is). A program ends with a value, an exit status, a signal, a
    successful \<open>exec\<close> or a fault. \<open>fork\<close> is a call: the process whose program is run is the one its
    reply says. Formats of output are recorded without the newline at the end.

  \<^bold>\<open>Loops and fuel.\<close> Loops over arrays and texts are recursive functions with a measure. Loops that
  wait for the outside take fuel (\<open>io_loop\<close>); with too little the result is the fault \<open>Diverged\<close>, and
  more fuel never changes any other result (\<open>io_loop_more_fuel\<close>). Where a loop is bounded by what it
  processes, the theorem gives the bound (\<open>writen\<close>: one turn per byte; the hop loop: a turn per probe).
  The search for the root in equations.c takes at most as many turns as the table has entries.

  \<^bold>\<open>Theories and sources.\<close>
  \<^item> Prelude, CMem, CStr, Posix, Net: faults, blocks, C strings, system calls, network structures.
    Prelude has the contract \<open>invariant_system\<close> of every model with concurrent runs.
  \<^item> Comparator (the contract of a comparison function, met by the repository's own two), MySort
    (my_sort.c, over that contract), Lsearch (lsearch.c), Growable (the contract of a container that
    grows), ArrayList (my_array_list.c) and MyStack (mystack.h) which meet it.
  \<^item> Equations (leetcode/equations.c), Columns (read_column_numbers.c).
  \<^item> Icmp (my_icmp.c), Ping (ping.c: two threads and the interrupt handler, interleaved turn by turn),
    TracerouteStd, TracerouteUdp, TracerouteIcmp (the three traceroutes), TracerouteAux (the two
    routines of traceroute_std.c that nothing calls).
  \<^item> ErrLog (error.c, errorlog.c, prexit.c, prmask.c, strerror.c), FdIO (reading, writing, flags,
    locks, limits, UNIX-domain connections), FdPass (descriptor passing), Semaph (semaph.c), Signals
    (signal.c, signalintr.c, sleep.c, sleepus.c), TellWait (tellwait.c and its users), Daemon
    (daemonize.c, ch13), Pty, BufArgs, Tty (ttymodes.c), Popen (popen.c and its variant): src/apue/lib.
  \<^item> Async (the filters and copies of ch14), RefCount and Barrier (two thread programs of ch11), MsgQueue
    (ch11_pthread_cond.c), Timeout (ch12_mutexattr.c), Getenv (ch12_getenv.c), Ftw (ch04_dirent.c),
    System (running commands: ch10_system2.c and its relatives, abort, wait statuses, nice values), Pipes
    (the pipe programs of ch15).
  \<^item> Streams (programs that copy their input, by blocks, characters, lines or without blocking, and two
    small shells), Files (programs about files and streams, ch01 to ch05), SysLimits (limits, users, groups,
    accounting: ch02, ch06, ch07_resource.c, ch08_acct.c), Jumps (\<open>longjmp\<close> and \<open>atexit\<close>: ch07, ch10),
    Forks (processes of ch08), Handlers (signal handlers of ch09 and ch10), Threads (ch11, ch12), SigWait
    (ch12_pthread_signal.c, call by call), Locks (the macros of apue.h), Small (programs of one screen).
  \<^item> Drivers (my_sort_test.c, my_array_list_test.c, mystack_test.c): the text the three drivers print.

  \<^bold>\<open>What the theorems show.\<close> Sorting: the array programs compute sorted permutations, the merge sort
  exactly the stable list merge sort, and never leave the block. Containers and searches: the abstract
  list they stand for. Drivers: the text printed, from the data to the sorted permutation. Equations: which answers are right. Packets: checksums verify, probes are
  recognised, parsers stay inside their buffers. Concurrency: invariants over all interleavings of
  threads (Ping, SigWait), of processes inside the semaphore protocol (Semaph), of parent and child (TellWait,
  with a bound on every run and its output), of readers and
  senders of messages (MsgQueue). A walk counts a file tree (Ftw), and a parent and its coprocess are
  composed (Pipes). Protocols: what is sent is what is received (FdPass), modes
  are undone (Tty), signal actions are put back (System), locks are free on both sides of a fork (Threads).
  Input and output: every copying program delivers what there is to read (Streams), on any device that
  keeps its contract. Errors: where a program leaves its arrays, waits for ever, kills its parent or
  reads freed memory, the theorem shows the run.

  \<^bold>\<open>Granularity.\<close> Ping interleaves whole turns of the two loops, Semaph, TellWait, MsgQueue and SigWait single calls of the
  kernel, with the code between two calls as one step. A signal is caught in the call that lets it through.

  \<^bold>\<open>Not modelled.\<close> Prototypes, option parsing inside \<open>getopt\<close>, and the code for other systems that is
  compiled out. The rounding of floating-point numbers, what a jump leaves in variables that are not volatile
  and other values the language does not fix are arguments.
\<close>

end
